(* ===== verification/Utf8.thy ===== *)
theory Utf8
  imports Main "HOL-Library.Char_ord"
begin

text \<open>
  Go strings as UTF-8: \<open>runes\<close> cuts a byte string into the pieces that \<open>range\<close>, \<open>utf8.DecodeRune\<close> and
  the functions of package \<open>strings\<close> see, each a valid encoding or one byte that is not part of any.
  A lead byte is never a continuation byte, so decoding from the end (\<open>DecodeLastRune\<close>) sees the
  same pieces.
\<close>

abbreviation byte_in :: "char \<Rightarrow> nat \<Rightarrow> nat \<Rightarrow> bool" where
  "byte_in c lo hi \<equiv> lo \<le> of_char c \<and> of_char c \<le> hi"

abbreviation tail_byte :: "char \<Rightarrow> bool" where
  "tail_byte c \<equiv> byte_in c 0x80 0xBF"

text \<open>The second byte that a lead byte admits (the \<open>acceptRanges\<close> of package \<open>unicode/utf8\<close>).\<close>

definition second_byte :: "char \<Rightarrow> char \<Rightarrow> bool" where
  "second_byte a b \<longleftrightarrow>
     byte_in b (if a = CHR 0xE0 then 0xA0 else if a = CHR 0xF0 then 0x90 else 0x80)
               (if a = CHR 0xED then 0x9F else if a = CHR 0xF4 then 0x8F else 0xBF)"

text \<open>The length of the encoding a string starts with, 0 when there is none.\<close>

definition rune_len :: "string \<Rightarrow> nat" where
  "rune_len s =
     (case s of
        [] \<Rightarrow> 0
      | a # s1 \<Rightarrow>
          if byte_in a 0 0x7F then 1
          else (case s1 of
             [] \<Rightarrow> 0
           | b # s2 \<Rightarrow>
               if \<not> byte_in a 0xC2 0xF4 \<or> \<not> second_byte a b then 0
               else if byte_in a 0xC2 0xDF then 2
               else (case s2 of
                  [] \<Rightarrow> 0
                | c # s3 \<Rightarrow>
                    if \<not> tail_byte c then 0
                    else if byte_in a 0xE0 0xEF then 3
                    else (case s3 of [] \<Rightarrow> 0 | d # _ \<Rightarrow> if tail_byte d then 4 else 0))))"

function runes :: "string \<Rightarrow> string list" where
  "runes [] = []"
| "runes (c # s) = take (max 1 (rune_len (c # s))) (c # s) # runes (drop (max 1 (rune_len (c # s))) (c # s))"
  by pat_completeness auto
termination by (relation "measure length") auto

definition valid_rune :: "string \<Rightarrow> bool" where
  "valid_rune r \<longleftrightarrow> r \<noteq> [] \<and> rune_len r = length r"

definition ValidString :: "string \<Rightarrow> bool" where
  "ValidString s \<longleftrightarrow> list_all valid_rune (runes s)"

text \<open>\<open>utf8.RuneError\<close>, U+FFFD, as \<open>strings.Map\<close> writes it for a byte that is no encoding.\<close>

definition RuneError :: string where
  "RuneError = [CHR 0xEF, CHR 0xBF, CHR 0xBD]"

text \<open>\<open>unicode.IsSpace\<close>.\<close>

definition rune_space :: "string \<Rightarrow> bool" where
  "rune_space r \<longleftrightarrow>
     (case r of
        [a] \<Rightarrow> a \<in> {CHR 0x09, CHR 0x0A, CHR 0x0B, CHR 0x0C, CHR 0x0D, CHR '' ''}
      | [a, b] \<Rightarrow> a = CHR 0xC2 \<and> b \<in> {CHR 0x85, CHR 0xA0}
      | [a, b, c] \<Rightarrow>
          r = [CHR 0xE1, CHR 0x9A, CHR 0x80] \<or>
          a = CHR 0xE2 \<and> b = CHR 0x80 \<and> (byte_in c 0x80 0x8A \<or> c \<in> {CHR 0xA8, CHR 0xA9, CHR 0xAF}) \<or>
          r = [CHR 0xE2, CHR 0x81, CHR 0x9F] \<or> r = [CHR 0xE3, CHR 0x80, CHR 0x80]
      | _ \<Rightarrow> False)"

text \<open>\<open>strings.TrimSpace\<close> and \<open>strings.Fields\<close>.\<close>

definition TrimSpace :: "string \<Rightarrow> string" where
  "TrimSpace s = concat (rev (dropWhile rune_space (rev (dropWhile rune_space (runes s)))))"

fun fields_acc :: "string \<Rightarrow> string list \<Rightarrow> string list" where
  "fields_acc acc [] = (if acc = [] then [] else [acc])"
| "fields_acc acc (r # rs) =
     (if rune_space r then (if acc = [] then fields_acc [] rs else acc # fields_acc [] rs)
      else fields_acc (acc @ r) rs)"

definition Fields :: "string \<Rightarrow> string list" where
  "Fields s = fields_acc [] (runes s)"

lemma rune_len_le: "rune_len s \<le> length s"
  by (simp add: rune_len_def split: list.splits)

lemma concat_runes [simp]: "concat (runes s) = s"
  by (induction s rule: runes.induct) simp_all

lemma runes_Nil_iff [simp]: "runes s = [] \<longleftrightarrow> s = []"
  by (cases s) simp_all

lemma runes_nonempty: "r \<in> set (runes s) \<Longrightarrow> r \<noteq> []"
  by (induction s rule: runes.induct) auto

text \<open>Whether a string starts with an encoding depends on the bytes of that encoding only.\<close>

lemma rune_len_append: "rune_len r \<noteq> 0 \<Longrightarrow> rune_len (r @ s) = rune_len r"
  by (cases r; cases "tl r"; cases "tl (tl r)"; cases "tl (tl (tl r))")
    (simp_all add: rune_len_def split: if_split_asm)

lemma rune_len_take: "rune_len s \<noteq> 0 \<Longrightarrow> rune_len (take (rune_len s) s) = rune_len s"
  by (cases s; cases "tl s"; cases "tl (tl s)"; cases "tl (tl (tl s))")
    (simp_all add: rune_len_def split: if_split_asm)

lemma runes_append: "valid_rune r \<Longrightarrow> runes (r @ s) = r # runes s"
  using rune_len_append [of r s] by (cases r) (auto simp: valid_rune_def)

lemma runes_concat: "list_all valid_rune rs \<Longrightarrow> runes (concat rs) = rs"
  by (induction rs) (simp_all add: runes_append)

lemma ValidString_concat: "list_all valid_rune rs \<Longrightarrow> ValidString (concat rs)"
  by (simp add: ValidString_def runes_concat)

lemma ValidString_iff: "ValidString s \<longleftrightarrow> (\<exists>rs. list_all valid_rune rs \<and> s = concat rs)"
  by (metis ValidString_concat ValidString_def concat_runes)

lemma ValidString_Nil [simp]: "ValidString []"
  by (simp add: ValidString_def)

lemma ValidString_append: "ValidString a \<Longrightarrow> ValidString b \<Longrightarrow> ValidString (a @ b)"
  unfolding ValidString_iff by (metis concat_append list_all_append)

text \<open>A piece is an encoding or a single byte.\<close>

lemma runes_pieces: "r \<in> set (runes s) \<Longrightarrow> valid_rune r \<or> length r = 1"
proof (induction s rule: runes.induct)
  case (2 c s)
  then show ?case
    using rune_len_take [of "c # s"] rune_len_le [of "c # s"]
    by (cases "rune_len (c # s)") (auto simp: valid_rune_def max_def split: if_splits)
qed simp

lemma ascii_rune: "of_char c < (0x80::nat) \<Longrightarrow> valid_rune [c]"
  by (simp add: valid_rune_def rune_len_def)

lemma runes_ascii: "list_all (\<lambda>c. of_char c < (0x80::nat)) s \<Longrightarrow> runes s = map (\<lambda>c. [c]) s"
  using runes_concat [of "map (\<lambda>c. [c]) s"] by (simp add: list.pred_map comp_def ascii_rune list_all_iff)

declare runes.simps(2) [simp del]

lemma rune_space_single [simp]: "rune_space [c] \<longleftrightarrow> c \<in> {CHR 0x09, CHR 0x0A, CHR 0x0B, CHR 0x0C, CHR 0x0D, CHR '' ''}"
  by (simp add: rune_space_def)

lemma length_valid_rune: "valid_rune r \<Longrightarrow> 1 \<le> length r \<and> length r \<le> 4"
  by (auto simp: valid_rune_def rune_len_def split: list.splits if_splits)

lemma RuneError_valid: "valid_rune RuneError"
  by (simp add: RuneError_def valid_rune_def rune_len_def second_byte_def)

lemma TrimSpace_set: "set (TrimSpace s) \<subseteq> set s"
proof -
  have "set (rev (dropWhile rune_space (rev (dropWhile rune_space (runes s))))) \<subseteq> set (runes s)"
    by (metis set_rev set_dropWhileD subsetI)
  then show ?thesis
    unfolding TrimSpace_def by (metis concat_runes set_concat Union_mono image_mono)
qed

end
