(* ===== verification/Prelude.thy ===== *)
theory Prelude
  imports Utf8 "HOL-Library.Char_ord" "HOL-Library.List_Lexorder"
    "HOL-Library.Multiset"
begin

text \<open>
  Shared vocabulary of the development: Go's strings as byte lists with the few functions of
  packages \<open>strings\<close>, \<open>strconv\<close> and \<open>fmt\<close> that the code calls, Go's error values with
  wrapping (\<open>fmt.Errorf\<close> with \<open>%w\<close> and \<open>%v\<close>, \<open>errors.Is\<close>, \<open>errors.As\<close>), the list
  facts the components share, and the collections \<open>go_strings\<close> and \<open>go_errors\<close> that
  component proofs unfold.
\<close>

named_theorems go_strings \<open>definitions of the modelled string functions\<close>
named_theorems go_errors \<open>definitions of the modelled error functions\<close>

section \<open>Strings\<close>

text \<open>
  A Go string is a sequence of bytes; \<^typ>\<open>string\<close> is a list of bytes. The order on strings is
  the bytewise lexicographic order (\<open>strings.Compare\<close>, \<open>slices.Sort\<close> on strings), which is the
  order of \<open>List_Lexorder\<close> over \<open>Char_ord\<close>.
\<close>

type_synonym gostr = string

abbreviation nl :: char where
  "nl \<equiv> CHR 0x0A"

definition HasPrefix :: "string \<Rightarrow> string \<Rightarrow> bool" where [go_strings]:
  "HasPrefix s p \<longleftrightarrow> take (length p) s = p"

definition HasSuffix :: "string \<Rightarrow> string \<Rightarrow> bool" where [go_strings]:
  "HasSuffix s p \<longleftrightarrow> length p \<le> length s \<and> drop (length s - length p) s = p"

definition TrimSuffix :: "string \<Rightarrow> string \<Rightarrow> string" where [go_strings]:
  "TrimSuffix s p = (if HasSuffix s p then take (length s - length p) s else s)"

fun contains_sub :: "string \<Rightarrow> string \<Rightarrow> bool" where
  "contains_sub [] p = (p = [])"
| "contains_sub (c # s) p = (HasPrefix (c # s) p \<or> contains_sub s p)"

definition ContainsAny :: "string \<Rightarrow> string \<Rightarrow> bool" where [go_strings]:
  "ContainsAny s cs \<longleftrightarrow> list_ex (\<lambda>c. c \<in> set cs) s"

text \<open>\<open>strings.Cut(s, sep)\<close> for a separator of one byte: \<open>Some (before, after)\<close> when found.\<close>

fun Cut :: "string \<Rightarrow> char \<Rightarrow> (string \<times> string) option" where
  "Cut [] sep = None"
| "Cut (c # s) sep =
     (if c = sep then Some ([], s) else map_option (\<lambda>(b, a). (c # b, a)) (Cut s sep))"

fun Join :: "string list \<Rightarrow> string \<Rightarrow> string" where
  "Join [] sep = []"
| "Join [x] sep = x"
| "Join (x # y # xs) sep = x @ sep @ Join (y # xs) sep"

text \<open>The ASCII white space of package \<open>fmt\<close>'s scanner.\<close>

definition is_space :: "char \<Rightarrow> bool" where [go_strings]:
  "is_space c \<longleftrightarrow> c \<in> {CHR 0x09, CHR 0x0A, CHR 0x0B, CHR 0x0C, CHR 0x0D, CHR '' ''}"

text \<open>\<open>bufio.Reader.ReadString('\n')\<close> on the whole content: the first line with its newline, if any.\<close>

definition first_line :: "string \<Rightarrow> string" where [go_strings]:
  "first_line s = (case Cut s nl of None \<Rightarrow> s | Some (b, _) \<Rightarrow> b @ [nl])"

text \<open>Decimal output: \<open>strconv.Itoa\<close>, \<open>%d\<close> and \<open>%02d\<close>.\<close>

fun nat_digits :: "nat \<Rightarrow> string" where
  "nat_digits n =
     (if n < 10 then [char_of (48 + n)] else nat_digits (n div 10) @ [char_of (48 + n mod 10)])"

declare nat_digits.simps [simp del]

definition Itoa :: "int \<Rightarrow> string" where [go_strings]:
  "Itoa i = (if i < 0 then ''-'' @ nat_digits (nat (- i)) else nat_digits (nat i))"

definition pad02 :: "int \<Rightarrow> string" where [go_strings]:
  "pad02 i = (if 0 \<le> i \<and> i < 10 then ''0'' @ Itoa i else Itoa i)"

lemma HasPrefix_iff: "HasPrefix s p \<longleftrightarrow> (\<exists>t. s = p @ t)"
proof
  assume "HasPrefix s p"
  then have "s = p @ drop (length p) s"
    by (metis HasPrefix_def append_take_drop_id)
  then show "\<exists>t. s = p @ t" by blast
qed (auto simp: HasPrefix_def)

lemma HasPrefix_append [simp]: "HasPrefix (p @ s) p"
  by (simp add: HasPrefix_iff)

lemma HasSuffix_iff: "HasSuffix s p \<longleftrightarrow> (\<exists>t. s = t @ p)"
proof
  assume "HasSuffix s p"
  then have "s = take (length s - length p) s @ p"
    by (metis HasSuffix_def append_take_drop_id)
  then show "\<exists>t. s = t @ p" by blast
qed (auto simp: HasSuffix_def)

lemma TrimSuffix_append [simp]: "TrimSuffix (s @ p) p = s"
  by (simp add: TrimSuffix_def HasSuffix_iff)

lemma Cut_Some: "Cut s sep = Some (b, a) \<Longrightarrow> s = b @ sep # a \<and> sep \<notin> set b"
  by (induction s arbitrary: b) (auto split: if_splits)

lemma Cut_None: "Cut s sep = None \<longleftrightarrow> sep \<notin> set s"
  by (induction s) auto

lemma Cut_append: "sep \<notin> set b \<Longrightarrow> Cut (b @ sep # a) sep = Some (b, a)"
  by (induction b) auto

lemma first_line_cases:
  "(nl \<notin> set s \<and> first_line s = s) \<or>
   (\<exists>b a. s = b @ nl # a \<and> nl \<notin> set b \<and> first_line s = b @ [nl])"
proof (cases "Cut s nl")
  case None
  then have "nl \<notin> set s" by (metis Cut_None)
  with None show ?thesis by (simp add: first_line_def)
next
  case (Some p)
  then obtain b a where "Cut s nl = Some (b, a)" by (cases p) auto
  then show ?thesis by (auto simp: first_line_def dest: Cut_Some)
qed

lemma nat_digits_nonempty [simp]: "nat_digits n \<noteq> []"
  by (subst nat_digits.simps) simp

lemma nat_digits_small: "n < 10 \<Longrightarrow> nat_digits n = [char_of (48 + n)]"
  by (subst nat_digits.simps) simp

text \<open>Decimal output is injective: reading the digits back gives the number.\<close>

definition digits_value :: "string \<Rightarrow> nat" where
  "digits_value s = foldl (\<lambda>v c. 10 * v + (of_char c - 48)) 0 s"

lemma digits_value_snoc: "digits_value (s @ [c]) = 10 * digits_value s + (of_char c - 48)"
  by (simp add: digits_value_def)

lemma of_char_digit: "d < 10 \<Longrightarrow> (of_char (char_of (48 + d :: nat)) :: nat) = 48 + d"
  by (simp add: of_char_of)

lemma digits_value_nat_digits: "digits_value (nat_digits n) = n"
proof (induction n rule: nat_digits.induct)
  case (1 n)
  show ?case
  proof (cases "n < 10")
    case True
    then show ?thesis by (simp add: nat_digits_small digits_value_def of_char_digit)
  next
    case False
    then have "nat_digits n = nat_digits (n div 10) @ [char_of (48 + n mod 10)]"
      by (subst nat_digits.simps) simp
    moreover have "(of_char (char_of (48 + n mod 10)) :: nat) = 48 + n mod 10"
      by (rule of_char_digit) simp
    ultimately show ?thesis
      using "1.IH" [OF False] by (simp only: digits_value_snoc) simp
  qed
qed

lemma nat_digits_inject [simp]: "nat_digits m = nat_digits n \<longleftrightarrow> m = n"
  by (metis digits_value_nat_digits)

lemma nat_digits_head: "hd (nat_digits n) \<noteq> CHR ''-''"
proof (induction n rule: nat_digits.induct)
  case (1 n)
  show ?case
  proof (cases "n < 10")
    case True
    have "char_of (48 + n) \<noteq> CHR ''-''"
    proof
      assume "char_of (48 + n) = CHR ''-''"
      then have "(of_char (char_of (48 + n)) :: nat) = of_char (CHR ''-'')" by simp
      with True show False by (simp only: of_char_digit) (simp add: of_char_def)
    qed
    with True show ?thesis by (simp add: nat_digits_small)
  next
    case False
    then have "hd (nat_digits n) = hd (nat_digits (n div 10))"
      by (subst nat_digits.simps) simp
    with "1.IH" [OF False] show ?thesis by simp
  qed
qed

lemma Itoa_inject [simp]: "Itoa i = Itoa j \<longleftrightarrow> i = j"
proof
  assume eq: "Itoa i = Itoa j"
  show "i = j"
  proof (cases "i < 0"; cases "j < 0")
    assume "i < 0" "j < 0" with eq show ?thesis by (simp add: Itoa_def)
  next
    assume "i < 0" "\<not> j < 0"
    with eq have "hd (nat_digits (nat j)) = CHR ''-''" by (simp add: Itoa_def) (metis list.sel(1))
    then show ?thesis by (simp add: nat_digits_head)
  next
    assume "\<not> i < 0" "j < 0"
    with eq have "hd (nat_digits (nat i)) = CHR ''-''" by (simp add: Itoa_def)
    then show ?thesis by (simp add: nat_digits_head)
  next
    assume "\<not> i < 0" "\<not> j < 0" with eq show ?thesis by (simp add: Itoa_def)
  qed
qed simp

text \<open>\<open>strconv.ParseInt(s, 10, 64)\<close> (also \<open>strconv.Atoi\<close>) and \<open>strconv.ParseUint(s, 10, 64)\<close>.\<close>

definition is_decimal :: "char \<Rightarrow> bool" where [go_strings]:
  "is_decimal c \<longleftrightarrow> CHR ''0'' \<le> c \<and> c \<le> CHR ''9''"

definition parse_nat :: "string \<Rightarrow> nat option" where [go_strings]:
  "parse_nat s = (if s \<noteq> [] \<and> list_all is_decimal s then Some (digits_value s) else None)"

definition ParseUint64 :: "string \<Rightarrow> nat option" where [go_strings]:
  "ParseUint64 s = (case parse_nat s of
     None \<Rightarrow> None
   | Some n \<Rightarrow> if n < 2 ^ 64 then Some n else None)"

definition ParseInt64 :: "string \<Rightarrow> int option" where [go_strings]:
  "ParseInt64 s =
     (let neg = (take 1 s = ''-'');
          digits = (if take 1 s = ''-'' \<or> take 1 s = ''+'' then drop 1 s else s)
      in case parse_nat digits of
           None \<Rightarrow> None
         | Some n \<Rightarrow> if neg then (if n \<le> 2 ^ 63 then Some (- int n) else None)
                     else (if n < 2 ^ 63 then Some (int n) else None))"

text \<open>
  \<open>%.1f\<close> and \<open>%.0f\<close> of a byte count in GiB: the exact quotient rounded half to even.
\<close>

definition round_half_even :: "nat \<Rightarrow> nat \<Rightarrow> nat" where [go_strings]:
  "round_half_even a b =
     (let q = a div b; r = a mod b in
      if 2 * r < b then q else if 2 * r > b then Suc q else if even q then q else Suc q)"

definition gib :: nat where "gib = 2 ^ 30"

definition show_GiB1 :: "int \<Rightarrow> string" where [go_strings]:
  "show_GiB1 bytes =
     (let t = round_half_even (10 * nat \<bar>bytes\<bar>) gib in
      (if bytes < 0 then ''-'' else []) @ nat_digits (t div 10) @ ''.'' @ nat_digits (t mod 10))"

text \<open>\<open>hex.EncodeToString\<close>.\<close>

definition hex_digit :: "nat \<Rightarrow> char" where [go_strings]:
  "hex_digit n = (if n < 10 then char_of (48 + n) else char_of (87 + n))"

definition hex_encode :: "string \<Rightarrow> string" where [go_strings]:
  "hex_encode s = concat (map (\<lambda>c. [hex_digit (of_char c div 16), hex_digit (of_char c mod 16)]) s)"

lemma length_hex_encode: "length (hex_encode s) = 2 * length s"
  by (induction s) (simp_all add: hex_encode_def)

section \<open>Sums as results\<close>

text \<open>A Go function that may fail returns \<open>Inl\<close> of the error or \<open>Inr\<close> of the value.\<close>

definition bindS :: "'e + 'a \<Rightarrow> ('a \<Rightarrow> 'e + 'b) \<Rightarrow> 'e + 'b" where
  "bindS r f = (case r of Inl e \<Rightarrow> Inl e | Inr x \<Rightarrow> f x)"

lemma bindS_simps [simp]:
  "bindS (Inl e) f = Inl e"
  "bindS (Inr x) f = f x"
  by (simp_all add: bindS_def)

lemma bindS_Inr_iff: "bindS r f = Inr y \<longleftrightarrow> (\<exists>x. r = Inr x \<and> f x = Inr y)"
  by (cases r) auto

section \<open>Sorted lists\<close>

text \<open>
  \<open>slices.Sort\<close> returns the sorted permutation of its argument, which is \<^const>\<open>sort\<close>. A list
  sorted by a key whose keys are distinct does not depend on the order of the input.
\<close>

lemma sort_key_unique:
  assumes "distinct (map f xs)" and "mset xs = mset ys"
  shows "sort_key f xs = sort_key f ys"
proof -
  let ?s = "sort_key f"
  have same: "set xs = set ys" using assms(2) by (rule mset_eq_setD)
  have dist: "distinct (map f ys)" using assms by (metis mset_eq_imp_distinct_iff mset_map)
  have "map f (?s xs) = map f (?s ys)"
    using assms(1) dist same
    by (intro sorted_distinct_set_unique) (auto simp: distinct_map)
  moreover have "inj_on f (set (?s xs) \<union> set (?s ys))"
    using assms(1) same by (simp add: distinct_map)
  ultimately show ?thesis by (rule map_inj_on)
qed

lemma distinct_map_sort_key [simp]: "distinct (map f (sort_key f xs)) = distinct (map f xs)"
  by (metis mset_eq_imp_distinct_iff mset_map mset_sort)

section \<open>Errors\<close>

text \<open>
  Go's errors as values. \<open>Errorf\<close> is \<open>fmt.Errorf\<close>: a list of literal text (\<open>T\<close>), wrapped
  errors (\<open>W\<close>, the verb \<open>%w\<close>) and errors printed without being wrapped (\<open>V\<close>, the verb
  \<open>%v\<close>). The sentinels and error types of the repository are constructors;
  \<open>Foreign text chain\<close> is any other error, known by its text and by the errors its
  \<open>Unwrap\<close> chain holds. An API error carries what
  \<open>apierrors.IsNotFound\<close> and \<open>apierrors.IsConflict\<close> read of it.
\<close>

datatype api_reason = NotFound | Conflict | OtherReason

datatype gerr =
    Errorf "gpart list"
  | ErrPrerequisite
  | ErrConflict
  | ErrCanceled
  | ContextCanceled
  | ContextDeadlineExceeded
  | ErrNotExist
  | ApiError api_reason string
  | ConfigError string string string string int int "gerr option"
  | ExitError int gerr
  | Foreign string "gerr list"
and gpart = T string | W gerr | V gerr

definition errorsNew :: "string \<Rightarrow> gerr" where [go_errors]:
  "errorsNew s = Errorf [T s]"

text \<open>\<open>errors.Is\<close>/\<open>errors.As\<close>: the error itself or one it wraps satisfies the test.\<close>

fun errors_any :: "(gerr \<Rightarrow> bool) \<Rightarrow> gerr \<Rightarrow> bool"
  and part_any :: "(gerr \<Rightarrow> bool) \<Rightarrow> gpart \<Rightarrow> bool" where
  "errors_any p (Errorf ps) = (p (Errorf ps) \<or> list_ex (part_any p) ps)"
| "errors_any p (ConfigError a b c d l k cause) =
     (p (ConfigError a b c d l k cause) \<or> (case cause of None \<Rightarrow> False | Some e \<Rightarrow> errors_any p e))"
| "errors_any p (ExitError n e) = (p (ExitError n e) \<or> errors_any p e)"
| "errors_any p (Foreign t es) = (p (Foreign t es) \<or> list_ex (errors_any p) es)"
| "errors_any p e = p e"
| "part_any p (T s) = False"
| "part_any p (W e) = errors_any p e"
| "part_any p (V e) = False"

definition errors_Is :: "gerr \<Rightarrow> gerr \<Rightarrow> bool" where
  "errors_Is e target = errors_any ((=) target) e"

fun is_ConfigError :: "gerr \<Rightarrow> bool" where
  "is_ConfigError (ConfigError a b c d l k cause) = True"
| "is_ConfigError _ = False"

fun is_ExitError :: "gerr \<Rightarrow> bool" where
  "is_ExitError (ExitError n e) = True"
| "is_ExitError _ = False"

text \<open>\<open>apierrors.IsNotFound\<close> and \<open>apierrors.IsConflict\<close> use \<open>errors.As\<close> on the status error.\<close>

fun has_reason :: "api_reason \<Rightarrow> gerr \<Rightarrow> bool" where
  "has_reason r (ApiError r' t) = (r = r')"
| "has_reason r _ = False"

definition IsNotFound :: "gerr \<Rightarrow> bool" where
  "IsNotFound e = errors_any (has_reason NotFound) e"

definition IsConflict :: "gerr \<Rightarrow> bool" where
  "IsConflict e = errors_any (has_reason Conflict) e"

text \<open>
  \<open>%q\<close>, \<open>strconv.Quote\<close>: quotes, backslashes, control characters and bytes that are no UTF-8 are
  escaped; a rune of several bytes is taken to be printable.
\<close>

definition quote_rune :: "string \<Rightarrow> string" where [go_strings]:
  "quote_rune r =
     (case r of
        [c] \<Rightarrow>
          (case map_of [(CHR 0x07, CHR ''a''), (CHR 0x08, CHR ''b''), (CHR 0x0C, CHR ''f''), (CHR 0x0A, CHR ''n''),
                        (CHR 0x0D, CHR ''r''), (CHR 0x09, CHR ''t''), (CHR 0x0B, CHR ''v''),
                        (CHR 0x22, CHR 0x22), (CHR 0x5C, CHR 0x5C)] c of
             Some d \<Rightarrow> [CHR 0x5C, d]
           | None \<Rightarrow> if CHR '' '' \<le> c \<and> c \<le> CHR ''~'' then [c] else [CHR 0x5C, CHR ''x''] @ hex_encode [c])
      | _ \<Rightarrow> r)"

definition quoted :: "string \<Rightarrow> string" where [go_strings]:
  "quoted s = [CHR 0x22] @ concat (map quote_rune (runes s)) @ [CHR 0x22]"

text \<open>\<open>Error()\<close>: the text of an error.\<close>

fun error_text :: "gerr \<Rightarrow> string" and part_text :: "gpart \<Rightarrow> string" where
  "error_text (Errorf ps) = concat (map part_text ps)"
| "error_text ErrPrerequisite = ''cluster prerequisite is not satisfied''"
| "error_text ErrConflict = ''safe cluster conflict''"
| "error_text ErrCanceled = ''operation canceled''"
| "error_text ContextCanceled = ''context canceled''"
| "error_text ContextDeadlineExceeded = ''context deadline exceeded''"
| "error_text ErrNotExist = ''file does not exist''"
| "error_text (ApiError r t) = t"
| "error_text (ConfigError path field expected actual line column cause) =
     path @ (if line > 0 then '':'' @ Itoa line @ '':'' @ Itoa column else []) @
     '': field '' @ quoted field @ '': expected '' @ expected @
     (if actual \<noteq> [] then '', got '' @ actual else []) @
     (case cause of None \<Rightarrow> [] | Some e \<Rightarrow> '': '' @ error_text e)"
| "error_text (ExitError n e) = error_text e"
| "error_text (Foreign t es) = t"
| "part_text (T s) = s"
| "part_text (W e) = error_text e"
| "part_text (V e) = error_text e"

text \<open>The two error classes of the lifecycle packages, the way the code builds them.\<close>

definition prerequisite :: "gpart list \<Rightarrow> gerr" where [go_errors]:
  "prerequisite ps = Errorf (W ErrPrerequisite # ps)"

definition conflict :: "gpart list \<Rightarrow> gerr" where [go_errors]:
  "conflict ps = Errorf (W ErrConflict # ps)"

lemma errors_Is_prerequisite [simp]: "errors_Is (prerequisite ps) ErrPrerequisite"
  by (simp add: errors_Is_def prerequisite_def)

lemma errors_Is_conflict [simp]: "errors_Is (conflict ps) ErrConflict"
  by (simp add: errors_Is_def conflict_def)

lemma errors_Is_self [simp]: "errors_Is e e"
  by (cases e) (simp_all add: errors_Is_def)

end
