(* ===== verification/World.thy ===== *)
theory World
  imports Prelude "HOL-Library.Sublist"
begin

text \<open>
  The outside of \<open>tripgoctl\<close> and the way the code talks to it. A command is a state
  transformer over a world that holds the files, whether this process holds the operation lock,
  and the trace of everything the process did so far. What Docker, kind, the Kubernetes API, the
  scheduler of timeouts and failing system calls answer is not code of the repository: it is the
  argument \<open>E\<close> of every definition, a record of functions from the trace so far to an answer, so
  a theorem for every \<open>E\<close> holds for every behaviour of the outside. The file system itself (what
  \<open>os.Rename\<close>, \<open>os.Remove\<close>, \<open>os.MkdirAll\<close> and so on do when they succeed) is modelled.

  The second half is the program logic of the development: \<open>wp G m Q w\<close> says that running \<open>m\<close>
  from \<open>w\<close> only appends events that the guarantee \<open>G\<close> allows in the trace they occur in, and
  ends in \<open>Q\<close>; the rules in \<open>wp_rules\<close> decompose a command along its structure.
\<close>

section \<open>Kubernetes objects\<close>

text \<open>
  The resources of \<open>internal/lab/service.go\<close> (\<open>schema.GroupVersionResource\<close> variables).
\<close>

datatype gvr = Namespaces | ConfigMaps | Secrets | PersistentVolumeClaims | Services | Pods
  | Events | Deployments | StatefulSets

text \<open>
  An \<open>unstructured.Unstructured\<close> object as the code reads it: one field per accessor call of
  the repository (\<open>GetLabels\<close>, \<open>NestedInt64(o, "spec", "replicas")\<close>, ...), holding what that
  call returns, Go's zero value where the field is absent or has another type. An element of a
  slice that is not of the asserted type is \<open>None\<close>; \<open>data_map\<close> is \<open>None\<close> when the nested
  string map is not found or invalid.
\<close>

record kport =
  kp_name :: string
  kp_port :: int
  kp_nodePort :: int
  kp_targetPort :: string

record kcontainer =
  kc_image :: string
  kc_args :: "string option list"

record kobj =
  GetAPIVersion :: string
  GetKind :: string
  GetName :: string
  GetNamespace :: string
  GetLabels :: "(string \<times> string) list"
  GetAnnotations :: "(string \<times> string) list"
  GetGeneration :: int
  HasDeletionTimestamp :: bool
  spec_replicas :: int
  status_readyReplicas :: int
  status_observedGeneration :: int
  status_updatedReplicas :: int
  status_availableReplicas :: int
  spec_type :: string
  spec_selector :: "(string \<times> string) list"
  spec_ports :: "kport option list"
  template_containers :: "kcontainer option list"
  data_map :: "(string \<times> string) list option"
  data_cluster_id :: string

definition empty_obj :: kobj where
  "empty_obj = \<lparr>GetAPIVersion = [], GetKind = [], GetName = [], GetNamespace = [], GetLabels = [],
     GetAnnotations = [], GetGeneration = 0, HasDeletionTimestamp = False, spec_replicas = 0,
     status_readyReplicas = 0, status_observedGeneration = 0, status_updatedReplicas = 0,
     status_availableReplicas = 0, spec_type = [], spec_selector = [], spec_ports = [],
     template_containers = [], data_map = None, data_cluster_id = []\<rparr>"

text \<open>Indexing a Go map of strings: the zero value where the key is absent.\<close>

definition lookup_str :: "(string \<times> string) list \<Rightarrow> string \<Rightarrow> string" where
  "lookup_str m k = (case map_of m k of None \<Rightarrow> [] | Some v \<Rightarrow> v)"

section \<open>Events and the outside\<close>

type_synonym path = "string list"

text \<open>The text of an absolute path, as it is passed to a process.\<close>

definition path_text :: "path \<Rightarrow> string" where
  "path_text p = concat (map (\<lambda>c. ''/'' @ c) p)"

datatype fsop =
    Lstat path
  | ReadFile path
  | ReadDir path
  | OpenPath path
  | MkdirAll path
  | CreateTemp path
  | MkdirTemp path
  | WriteFile path
  | Chmod path
  | Sync path
  | CloseFile path
  | Rename path path
  | Remove path
  | RemoveAll path

datatype progress_kind = Stage | Activity | Readiness | Warning

datatype event =
    ERun string "string list" "gerr + string"
  | EGet gvr string string "gerr + kobj"
  | EList gvr string string "gerr + kobj list"
  | EPatch gvr string string kobj "gerr option"
  | EDelete gvr string string "gerr option"
  | EHttp string "gerr + int \<times> string \<times> gerr option"
  | EFs fsop "gerr option"
  | ELock
  | EUnlock
  | EReport progress_kind string
  | EOut string
  | EErr string
  | EListen int bool
  | ETick

type_synonym history = "event list"

record outside =
  env_run :: "history \<Rightarrow> string \<Rightarrow> string list \<Rightarrow> gerr + string"
  env_get :: "history \<Rightarrow> gvr \<Rightarrow> string \<Rightarrow> string \<Rightarrow> gerr + kobj"
  env_list :: "history \<Rightarrow> gvr \<Rightarrow> string \<Rightarrow> string \<Rightarrow> gerr + kobj list"
  env_patch :: "history \<Rightarrow> gvr \<Rightarrow> string \<Rightarrow> string \<Rightarrow> kobj \<Rightarrow> gerr option"
  env_delete :: "history \<Rightarrow> gvr \<Rightarrow> string \<Rightarrow> string \<Rightarrow> gerr option"
  env_fault :: "history \<Rightarrow> fsop \<Rightarrow> gerr option"
  env_written :: "history \<Rightarrow> nat"
  env_temp :: "history \<Rightarrow> string"
  env_link :: "history \<Rightarrow> path \<Rightarrow> gerr + string"
  env_flock :: "history \<Rightarrow> gerr option"
  env_ctx :: "history \<Rightarrow> gerr option"
  env_random :: "history \<Rightarrow> gerr + string"
  env_listen :: "history \<Rightarrow> int \<Rightarrow> bool"
  env_http :: "history \<Rightarrow> string \<Rightarrow> gerr + int \<times> string \<times> gerr option"
  env_sha256 :: "string \<Rightarrow> string"
  env_statfs :: "history \<Rightarrow> gerr + nat"
  env_restconfig :: "string \<Rightarrow> gerr option"
  env_client :: "history \<Rightarrow> gerr option"
  env_reporter :: bool
  env_clock :: "history \<Rightarrow> nat"

section \<open>Files\<close>

datatype node = RegFile string nat | Dir | Symlink | Special

type_synonym files = "(path \<times> node) list"

text \<open>The file mode 0600.\<close>

abbreviation mode0600 :: nat where
  "mode0600 \<equiv> 384"

definition fs_get :: "files \<Rightarrow> path \<Rightarrow> node option" where
  "fs_get f p = map_of f p"

definition fs_del :: "path \<Rightarrow> files \<Rightarrow> files" where
  "fs_del p f = filter (\<lambda>(q, _). q \<noteq> p) f"

definition fs_put :: "path \<Rightarrow> node \<Rightarrow> files \<Rightarrow> files" where
  "fs_put p n f = (p, n) # fs_del p f"

definition fs_del_tree :: "path \<Rightarrow> files \<Rightarrow> files" where
  "fs_del_tree p f = filter (\<lambda>(q, _). \<not> prefix p q) f"

definition fs_children :: "path \<Rightarrow> files \<Rightarrow> path list" where
  "fs_children p f = map fst (filter (\<lambda>(q, _). q \<noteq> [] \<and> butlast q = p) f)"

definition fs_move_tree :: "path \<Rightarrow> path \<Rightarrow> files \<Rightarrow> files" where
  "fs_move_tree a b f =
     map (\<lambda>(q, n). (b @ drop (length a) q, n)) (filter (\<lambda>(q, _). prefix a q) f) @
     fs_del_tree b (fs_del_tree a f)"

definition is_dir :: "files \<Rightarrow> path \<Rightarrow> bool" where
  "is_dir f p \<longleftrightarrow> p = [] \<or> fs_get f p = Some Dir \<or> fs_get f p = Some Symlink"

definition path_prefixes :: "path \<Rightarrow> path list" where
  "path_prefixes p = map (\<lambda>n. take n p) [1..<Suc (length p)]"

lemma fs_get_put [simp]: "fs_get (fs_put p n f) q = (if q = p then Some n else fs_get f q)"
  by (simp add: fs_get_def fs_put_def fs_del_def map_of_filter_in map_of_eq_None_iff)
     (induction f, auto)

lemma fs_get_del [simp]: "fs_get (fs_del p f) q = (if q = p then None else fs_get f q)"
  by (induction f) (auto simp: fs_get_def fs_del_def)

lemma fs_get_del_tree [simp]:
  "fs_get (fs_del_tree p f) q = (if prefix p q then None else fs_get f q)"
  by (induction f) (auto simp: fs_get_def fs_del_tree_def)

section \<open>Commands\<close>

record world =
  trace :: history
  files :: files
  held :: bool

type_synonym 'a io = "world \<Rightarrow> (gerr + 'a) \<times> world"

definition log :: "event \<Rightarrow> world \<Rightarrow> world" where
  "log e w = w\<lparr>trace := trace w @ [e]\<rparr>"

lemma log_sel [simp]:
  "trace (log e w) = trace w @ [e]" "files (log e w) = files w" "held (log e w) = held w"
  by (simp_all add: log_def)

definition retE :: "'a \<Rightarrow> 'a io" where
  "retE x = (\<lambda>w. (Inr x, w))"

definition failE :: "gerr \<Rightarrow> 'a io" where
  "failE e = (\<lambda>w. (Inl e, w))"

text \<open>\<open>tryE m h\<close>: run \<open>m\<close> and continue with its result or error, Go's \<open>x, err := m\<close>.\<close>

definition tryE :: "'a io \<Rightarrow> (gerr + 'a \<Rightarrow> 'b io) \<Rightarrow> 'b io" where
  "tryE m h = (\<lambda>w. case m w of (r, w') \<Rightarrow> h r w')"

text \<open>\<open>bindE m f\<close>: \<open>if err != nil { return err }\<close>.\<close>

definition bindE :: "'a io \<Rightarrow> ('a \<Rightarrow> 'b io) \<Rightarrow> 'b io" where
  "bindE m f = tryE m (\<lambda>r. case r of Inl e \<Rightarrow> failE e | Inr x \<Rightarrow> f x)"

text \<open>\<open>wrapE g m\<close>: return the error of \<open>m\<close> wrapped by \<open>g\<close>.\<close>

definition wrapE :: "(gerr \<Rightarrow> gerr) \<Rightarrow> 'a io \<Rightarrow> 'a io" where
  "wrapE g m = tryE m (\<lambda>r. case r of Inl e \<Rightarrow> failE (g e) | Inr x \<Rightarrow> retE x)"

text \<open>\<open>deferE fin m\<close>: \<open>defer fin\<close> before \<open>m\<close>; the result of \<open>fin\<close> is ignored.\<close>

definition deferE :: "unit io \<Rightarrow> 'a io \<Rightarrow> 'a io" where
  "deferE fin m = tryE m (\<lambda>r. tryE fin (\<lambda>_. (\<lambda>w. (r, w))))"

text \<open>\<open>ignoreE m\<close>: \<open>_ = m\<close>.\<close>

definition ignoreE :: "'a io \<Rightarrow> unit io" where
  "ignoreE m = tryE m (\<lambda>_. retE ())"

definition whenE :: "bool \<Rightarrow> unit io \<Rightarrow> unit io" where
  "whenE b m = (if b then m else retE ())"

text \<open>\<open>onFailE cleanup m\<close>: run \<open>cleanup\<close> when \<open>m\<close> returns an error, and return that error.\<close>

definition onFailE :: "unit io \<Rightarrow> 'a io \<Rightarrow> 'a io" where
  "onFailE cleanup m = tryE m (\<lambda>r. case r of Inl e \<Rightarrow> tryE cleanup (\<lambda>_. failE e) | Inr x \<Rightarrow> retE x)"

text \<open>A pure result, and a loop over a slice that stops at the first error.\<close>

definition liftE :: "gerr + 'a \<Rightarrow> 'a io" where
  "liftE r = (\<lambda>w. (r, w))"

primrec forE :: "'b list \<Rightarrow> ('b \<Rightarrow> unit io) \<Rightarrow> unit io" where
  "forE [] f = retE ()"
| "forE (x # xs) f = bindE (f x) (\<lambda>_. forE xs f)"

subsection \<open>Processes, the Kubernetes API, output\<close>

definition runE :: "outside \<Rightarrow> string \<Rightarrow> string list \<Rightarrow> string io" where
  "runE E name args = (\<lambda>w. let r = env_run E (trace w) name args in (r, log (ERun name args r) w))"

definition kget :: "outside \<Rightarrow> gvr \<Rightarrow> string \<Rightarrow> string \<Rightarrow> kobj io" where
  "kget E g ns name = (\<lambda>w. let r = env_get E (trace w) g ns name in (r, log (EGet g ns name r) w))"

definition klist :: "outside \<Rightarrow> gvr \<Rightarrow> string \<Rightarrow> string \<Rightarrow> kobj list io" where
  "klist E g ns sel = (\<lambda>w. let r = env_list E (trace w) g ns sel in (r, log (EList g ns sel r) w))"

definition opt_result :: "gerr option \<Rightarrow> gerr + unit" where
  "opt_result r = (case r of None \<Rightarrow> Inr () | Some e \<Rightarrow> Inl e)"

definition kpatch :: "outside \<Rightarrow> gvr \<Rightarrow> string \<Rightarrow> string \<Rightarrow> kobj \<Rightarrow> unit io" where
  "kpatch E g ns name payload = (\<lambda>w. let r = env_patch E (trace w) g ns name payload
     in (opt_result r, log (EPatch g ns name payload r) w))"

definition kdelete :: "outside \<Rightarrow> gvr \<Rightarrow> string \<Rightarrow> string \<Rightarrow> unit io" where
  "kdelete E g ns name = (\<lambda>w. let r = env_delete E (trace w) g ns name
     in (opt_result r, log (EDelete g ns name r) w))"

text \<open>\<open>progress.Report\<close>: an event when the operation's context has a reporter.\<close>

definition report :: "outside \<Rightarrow> progress_kind \<Rightarrow> string \<Rightarrow> unit io" where
  "report E k msg = (\<lambda>w. (Inr (), if env_reporter E then log (EReport k msg) w else w))"

definition errE :: "string \<Rightarrow> unit io" where
  "errE s = (\<lambda>w. (Inr (), log (EErr s) w))"

text \<open>\<open>net.Listen\<close> on a loopback port, closed at once.\<close>

definition listenE :: "outside \<Rightarrow> int \<Rightarrow> bool io" where
  "listenE E port = (\<lambda>w. let r = env_listen E (trace w) port in (Inr r, log (EListen port r) w))"

definition outE :: "string \<Rightarrow> unit io" where
  "outE s = (\<lambda>w. (Inr (), log (EOut s) w))"

text \<open>
  \<open>client.Do\<close> on a GET request and reading its body: the status code, the bytes received and the
  error that ended the reading, if any.
\<close>

definition httpGet :: "outside \<Rightarrow> string \<Rightarrow> (int \<times> string \<times> gerr option) io" where
  "httpGet E url = (\<lambda>w. let r = env_http E (trace w) url in (r, log (EHttp url r) w))"

text \<open>\<open>ctx.Err()\<close>.\<close>

definition ctxErr :: "outside \<Rightarrow> unit io" where
  "ctxErr E = (\<lambda>w. (opt_result (env_ctx E (trace w)), w))"

subsection \<open>System calls on files\<close>

definition fsE :: "outside \<Rightarrow> fsop \<Rightarrow> (files \<Rightarrow> gerr + 'a \<times> files) \<Rightarrow> 'a io" where
  "fsE E op act = (\<lambda>w.
     case env_fault E (trace w) op of
       Some e \<Rightarrow> (Inl e, log (EFs op (Some e)) w)
     | None \<Rightarrow> (case act (files w) of
         Inl e \<Rightarrow> (Inl e, log (EFs op (Some e)) w)
       | Inr (x, f) \<Rightarrow> (Inr x, log (EFs op None) (w\<lparr>files := f\<rparr>))))"

definition lstat :: "outside \<Rightarrow> path \<Rightarrow> node io" where
  "lstat E p = fsE E (Lstat p) (\<lambda>f. case fs_get f p of None \<Rightarrow> Inl ErrNotExist | Some n \<Rightarrow> Inr (n, f))"

text \<open>
  \<open>os.ReadFile\<close>, and \<open>os.Open\<close> followed by reading: through a symbolic link or from a special
  file the outside decides what is read.
\<close>

definition readFile :: "outside \<Rightarrow> path \<Rightarrow> string io" where
  "readFile E p = (\<lambda>w. fsE E (ReadFile p) (\<lambda>f.
     case fs_get f p of
       None \<Rightarrow> Inl ErrNotExist
     | Some (RegFile c m) \<Rightarrow> Inr (c, f)
     | Some Dir \<Rightarrow> Inl (Foreign ''is a directory'' [])
     | Some _ \<Rightarrow> (case env_link E (trace w) p of Inl e \<Rightarrow> Inl e | Inr c \<Rightarrow> Inr (c, f))) w)"

definition readDir :: "outside \<Rightarrow> path \<Rightarrow> path list io" where
  "readDir E p = fsE E (ReadDir p) (\<lambda>f.
     if is_dir f p then Inr (fs_children p f, f) else Inl ErrNotExist)"

definition mkdirAll :: "outside \<Rightarrow> path \<Rightarrow> unit io" where
  "mkdirAll E p = fsE E (MkdirAll p) (\<lambda>f.
     if list_ex (\<lambda>q. fs_get f q \<noteq> None \<and> \<not> is_dir f q) (path_prefixes p)
     then Inl (Foreign ''not a directory'' [])
     else Inr ((), fold (\<lambda>q f'. if fs_get f' q = None then fs_put q Dir f' else f') (path_prefixes p) f))"

text \<open>
  \<open>os.CreateTemp(dir, prefix + "*" + suffix)\<close>: the outside chooses the random part; the file is
  created exclusively with mode 0600.
\<close>

definition temp_path :: "outside \<Rightarrow> history \<Rightarrow> path \<Rightarrow> string \<Rightarrow> string \<Rightarrow> path" where
  "temp_path E tr dir pre suf = dir @ [pre @ env_temp E tr @ suf]"

definition createTemp :: "outside \<Rightarrow> path \<Rightarrow> string \<Rightarrow> string \<Rightarrow> path io" where
  "createTemp E dir pre suf = (\<lambda>w. let p = temp_path E (trace w) dir pre suf in
     fsE E (CreateTemp p) (\<lambda>f.
       if fs_get f p \<noteq> None then Inl (Foreign ''file exists'' [])
       else if \<not> is_dir f dir then Inl ErrNotExist
       else Inr (p, fs_put p (RegFile [] mode0600) f)) w)"

definition mkdirTemp :: "outside \<Rightarrow> path \<Rightarrow> string \<Rightarrow> path io" where
  "mkdirTemp E dir pre = (\<lambda>w. let p = temp_path E (trace w) dir pre [] in
     fsE E (MkdirTemp p) (\<lambda>f.
       if fs_get f p \<noteq> None then Inl (Foreign ''file exists'' [])
       else if \<not> is_dir f dir then Inl ErrNotExist
       else Inr (p, fs_put p Dir f)) w)"

text \<open>Writing an open regular file; a failing write may leave a part of the data.\<close>

definition set_content :: "path \<Rightarrow> string \<Rightarrow> files \<Rightarrow> files" where
  "set_content p c f = (case fs_get f p of Some (RegFile _ m) \<Rightarrow> fs_put p (RegFile c m) f | _ \<Rightarrow> f)"

definition writeFile :: "outside \<Rightarrow> path \<Rightarrow> string \<Rightarrow> unit io" where
  "writeFile E p c = (\<lambda>w.
     case env_fault E (trace w) (WriteFile p) of
       Some e \<Rightarrow> (Inl e, log (EFs (WriteFile p) (Some e))
                    (w\<lparr>files := set_content p (take (env_written E (trace w)) c) (files w)\<rparr>))
     | None \<Rightarrow> (Inr (), log (EFs (WriteFile p) None) (w\<lparr>files := set_content p c (files w)\<rparr>)))"

definition chmodFile :: "outside \<Rightarrow> path \<Rightarrow> nat \<Rightarrow> unit io" where
  "chmodFile E p m = fsE E (Chmod p) (\<lambda>f.
     case fs_get f p of Some (RegFile c _) \<Rightarrow> Inr ((), fs_put p (RegFile c m) f) | _ \<Rightarrow> Inr ((), f))"

definition syncFile :: "outside \<Rightarrow> path \<Rightarrow> unit io" where
  "syncFile E p = fsE E (Sync p) (\<lambda>f. Inr ((), f))"

definition closeFile :: "outside \<Rightarrow> path \<Rightarrow> unit io" where
  "closeFile E p = fsE E (CloseFile p) (\<lambda>f. Inr ((), f))"

definition openDir :: "outside \<Rightarrow> path \<Rightarrow> unit io" where
  "openDir E p = fsE E (OpenPath p) (\<lambda>f. if is_dir f p then Inr ((), f) else Inl ErrNotExist)"

text \<open>\<open>rename(2)\<close>: a file replaces a file, a directory replaces nothing or an empty directory.\<close>

definition rename_act :: "path \<Rightarrow> path \<Rightarrow> files \<Rightarrow> gerr + unit \<times> files" where
  "rename_act a b f =
     (case fs_get f a of
        None \<Rightarrow> Inl ErrNotExist
      | Some Dir \<Rightarrow>
          (case fs_get f b of
             None \<Rightarrow> Inr ((), fs_move_tree a b f)
           | Some Dir \<Rightarrow> if fs_children b f = [] then Inr ((), fs_move_tree a b f)
                         else Inl (Foreign ''directory not empty'' [])
           | Some _ \<Rightarrow> Inl (Foreign ''not a directory'' []))
      | Some n \<Rightarrow> if fs_get f b = Some Dir then Inl (Foreign ''is a directory'' [])
                  else Inr ((), fs_put b n (fs_del a f)))"

definition renameE :: "outside \<Rightarrow> path \<Rightarrow> path \<Rightarrow> unit io" where
  "renameE E a b = fsE E (Rename a b) (rename_act a b)"

text \<open>\<open>os.Remove\<close>: a file, a link, or an empty directory.\<close>

definition removeE :: "outside \<Rightarrow> path \<Rightarrow> unit io" where
  "removeE E p = fsE E (Remove p) (\<lambda>f.
     case fs_get f p of
       None \<Rightarrow> Inl ErrNotExist
     | Some Dir \<Rightarrow> if fs_children p f = [] then Inr ((), fs_del p f)
                   else Inl (Foreign ''directory not empty'' [])
     | Some _ \<Rightarrow> Inr ((), fs_del p f))"

text \<open>
  \<open>os.RemoveAll\<close> of a tree; where it fails, the outside decides (by \<open>env_written\<close>) how many of
  the entries below the path are already gone.
\<close>

definition removeAll :: "outside \<Rightarrow> path \<Rightarrow> unit io" where
  "removeAll E p = (\<lambda>w.
     case env_fault E (trace w) (RemoveAll p) of
       Some e \<Rightarrow>
         (let gone = take (env_written E (trace w)) (filter (prefix p) (map fst (files w)))
          in (Inl e, log (EFs (RemoveAll p) (Some e))
                (w\<lparr>files := filter (\<lambda>(q, _). q \<notin> set gone) (files w)\<rparr>)))
     | None \<Rightarrow> (Inr (), log (EFs (RemoveAll p) None) (w\<lparr>files := fs_del_tree p (files w)\<rparr>)))"

text \<open>
  \<open>os.OpenFile\<close> for writing with \<open>O_CREATE\<close> and \<open>O_EXCL\<close> (\<open>excl\<close>) or \<open>O_TRUNC\<close>, and \<open>os.WriteFile\<close>,
  which returns the error of the write or else that of the close.
\<close>

definition openCreate :: "outside \<Rightarrow> path \<Rightarrow> nat \<Rightarrow> bool \<Rightarrow> unit io" where
  "openCreate E p m excl = fsE E (OpenPath p) (\<lambda>f.
     case fs_get f p of
       None \<Rightarrow> if is_dir f (butlast p) then Inr ((), fs_put p (RegFile [] m) f) else Inl ErrNotExist
     | Some n \<Rightarrow>
         if excl then Inl (Foreign ''file exists'' [])
         else (case n of
                 RegFile c m' \<Rightarrow> Inr ((), fs_put p (RegFile [] m') f)
               | Dir \<Rightarrow> Inl (Foreign ''is a directory'' [])
               | _ \<Rightarrow> Inr ((), f)))"

definition osWriteFile :: "outside \<Rightarrow> path \<Rightarrow> string \<Rightarrow> nat \<Rightarrow> unit io" where
  "osWriteFile E p c m =
     bindE (openCreate E p m False) (\<lambda>_.
     tryE (writeFile E p c) (\<lambda>written.
     tryE (closeFile E p) (\<lambda>closed.
     case written of Inl e \<Rightarrow> failE e | Inr _ \<Rightarrow> liftE closed)))"

section \<open>Program logic\<close>

text \<open>
  \<open>guar G tr es\<close>: each event of \<open>es\<close>, appended one by one to the history \<open>tr\<close>, is allowed by \<open>G\<close>
  in the history it occurs in.
\<close>

primrec guar :: "(history \<Rightarrow> event \<Rightarrow> bool) \<Rightarrow> history \<Rightarrow> event list \<Rightarrow> bool" where
  "guar G tr [] = True"
| "guar G tr (e # es) = (G tr e \<and> guar G (tr @ [e]) es)"

definition wp :: "(history \<Rightarrow> event \<Rightarrow> bool) \<Rightarrow> 'a io \<Rightarrow> (gerr + 'a \<Rightarrow> world \<Rightarrow> bool) \<Rightarrow> world \<Rightarrow> bool" where
  "wp G m Q w \<longleftrightarrow>
     (\<exists>es. trace (snd (m w)) = trace w @ es \<and> guar G (trace w) es \<and> Q (fst (m w)) (snd (m w)))"

lemma guar_append: "guar G tr (es @ fs) \<longleftrightarrow> guar G tr es \<and> guar G (tr @ es) fs"
  by (induction es arbitrary: tr) auto

lemma guar_nth: "guar G tr es \<longleftrightarrow> (\<forall>i < length es. G (tr @ take i es) (es ! i))"
proof (induction es arbitrary: tr)
  case (Cons e es)
  show ?case
    by (simp add: All_less_Suc2 Cons.IH)
qed simp

named_theorems wp_rules \<open>decomposition of a command for \<open>wp\<close>\<close>

lemma wpD: "wp G m Q w \<Longrightarrow> m w = (r, w') \<Longrightarrow> Q r w'"
  by (auto simp: wp_def)

lemma wp_mono:
  assumes "wp G m Q w" and "\<And>r w'. Q r w' \<Longrightarrow> Q' r w'"
  shows "wp G m Q' w"
  using assms by (auto simp: wp_def)

text \<open>The history only grows: a postcondition may assume that.\<close>

lemma wp_extends:
  assumes "wp G m (\<lambda>r w'. prefix (trace w) (trace w') \<longrightarrow> Q r w') w"
  shows "wp G m Q w"
  using assms by (auto simp: wp_def)

lemma wp_ret [wp_rules]: "Q (Inr x) w \<Longrightarrow> wp G (retE x) Q w"
  by (simp add: wp_def retE_def)

lemma wp_fail [wp_rules]: "Q (Inl e) w \<Longrightarrow> wp G (failE e) Q w"
  by (simp add: wp_def failE_def)

lemma wp_lift [wp_rules]: "Q r w \<Longrightarrow> wp G (liftE r) Q w"
  by (simp add: wp_def liftE_def)

lemma wp_const [wp_rules]: "Q r w \<Longrightarrow> wp G (\<lambda>w. (r, w)) Q w"
  by (simp add: wp_def)

lemma wp_try [wp_rules]:
  assumes "wp G m (\<lambda>r w'. wp G (h r) Q w') w"
  shows "wp G (tryE m h) Q w"
proof -
  obtain r w' where m: "m w = (r, w')" by (cases "m w")
  with assms obtain es where es: "trace w' = trace w @ es" "guar G (trace w) es" "wp G (h r) Q w'"
    by (auto simp: wp_def)
  then obtain fs where "trace (snd (h r w')) = trace w' @ fs" "guar G (trace w') fs"
    "Q (fst (h r w')) (snd (h r w'))"
    by (auto simp: wp_def)
  with es m show ?thesis
    by (auto simp: wp_def tryE_def guar_append intro!: exI [of _ "es @ fs"])
qed

lemma wp_bind [wp_rules]:
  assumes "wp G m (\<lambda>r w'. case r of Inl e \<Rightarrow> Q (Inl e) w' | Inr x \<Rightarrow> wp G (f x) Q w') w"
  shows "wp G (bindE m f) Q w"
  unfolding bindE_def
  by (rule wp_try, rule wp_mono [OF assms]) (auto simp: wp_fail split: sum.splits)

lemma wp_wrap [wp_rules]:
  assumes "wp G m (\<lambda>r w'. case r of Inl e \<Rightarrow> Q (Inl (g e)) w' | Inr x \<Rightarrow> Q (Inr x) w') w"
  shows "wp G (wrapE g m) Q w"
  unfolding wrapE_def
  by (rule wp_try, rule wp_mono [OF assms]) (auto simp: wp_fail wp_ret split: sum.splits)

lemma wp_defer [wp_rules]:
  assumes "wp G m (\<lambda>r w'. wp G fin (\<lambda>_. Q r) w') w"
  shows "wp G (deferE fin m) Q w"
  unfolding deferE_def
  by (rule wp_try, rule wp_mono [OF assms], rule wp_try, erule wp_mono) (rule wp_const)

lemma wp_onFail [wp_rules]:
  assumes "wp G m (\<lambda>r w'. case r of Inl e \<Rightarrow> wp G cleanup (\<lambda>_. Q (Inl e)) w' | Inr x \<Rightarrow> Q (Inr x) w') w"
  shows "wp G (onFailE cleanup m) Q w"
  unfolding onFailE_def
  by (rule wp_try, rule wp_mono [OF assms])
     (auto intro!: wp_try wp_ret elim!: wp_mono intro: wp_fail split: sum.splits)

lemma wp_ignore [wp_rules]:
  assumes "wp G m (\<lambda>_. Q (Inr ())) w"
  shows "wp G (ignoreE m) Q w"
  unfolding ignoreE_def by (rule wp_try, rule wp_mono [OF assms], rule wp_ret)

lemma wp_when [wp_rules]:
  assumes "b \<Longrightarrow> wp G m Q w" and "\<not> b \<Longrightarrow> Q (Inr ()) w"
  shows "wp G (whenE b m) Q w"
  using assms by (simp add: whenE_def wp_ret)

lemma wp_if [wp_rules]:
  assumes "b \<Longrightarrow> wp G m Q w" and "\<not> b \<Longrightarrow> wp G m' Q w"
  shows "wp G (if b then m else m') Q w"
  using assms by simp

lemma wp_case_sum [wp_rules]:
  assumes "\<And>e. r = Inl e \<Longrightarrow> wp G (f e) Q w" and "\<And>x. r = Inr x \<Longrightarrow> wp G (g x) Q w"
  shows "wp G (case r of Inl e \<Rightarrow> f e | Inr x \<Rightarrow> g x) Q w"
  using assms by (cases r) auto

lemma wp_case_option [wp_rules]:
  assumes "x = None \<Longrightarrow> wp G m Q w" and "\<And>y. x = Some y \<Longrightarrow> wp G (f y) Q w"
  shows "wp G (case x of None \<Rightarrow> m | Some y \<Rightarrow> f y) Q w"
  using assms by (cases x) auto

lemma wp_case_prod [wp_rules]:
  assumes "\<And>a b. p = (a, b) \<Longrightarrow> wp G (f a b) Q w"
  shows "wp G (case p of (a, b) \<Rightarrow> f a b) Q w"
  using assms by (cases p) auto

text \<open>A loop: an invariant of the world that every iteration keeps, and leaves in \<open>Q\<close> on error.\<close>

lemma wp_for:
  assumes "I w"
    and "\<And>x w. x \<in> set xs \<Longrightarrow> I w \<Longrightarrow>
           wp G (f x) (\<lambda>r w'. case r of Inl e \<Rightarrow> Q (Inl e) w' | Inr _ \<Rightarrow> I w') w"
    and "\<And>w. I w \<Longrightarrow> Q (Inr ()) w"
  shows "wp G (forE xs f) Q w"
  using assms
proof (induction xs arbitrary: w)
  case Nil
  then show ?case by (simp add: wp_ret)
next
  case (Cons x xs)
  have rest: "wp G (forE xs f) Q w'" if "I w'" for w'
    by (rule Cons.IH [OF that]) (simp_all add: Cons.prems(2,3))
  have "wp G (f x) (\<lambda>r w'. case r of Inl e \<Rightarrow> Q (Inl e) w' | Inr _ \<Rightarrow> wp G (forE xs f) Q w') w"
    by (rule wp_mono [OF Cons.prems(2) [of x w]])
       (auto simp: Cons.prems(1) split: sum.splits intro: rest)
  then show ?case by (simp add: wp_bind)
qed

text \<open>The primitive commands: one event each, allowed by the guarantee.\<close>

lemma wp_run [wp_rules]:
  assumes "\<And>r. r = env_run E (trace w) n a \<Longrightarrow> G (trace w) (ERun n a r) \<and> Q r (log (ERun n a r) w)"
  shows "wp G (runE E n a) Q w"
  using assms by (simp add: wp_def runE_def Let_def)

lemma wp_kget [wp_rules]:
  assumes "\<And>r. r = env_get E (trace w) g ns n \<Longrightarrow> G (trace w) (EGet g ns n r) \<and> Q r (log (EGet g ns n r) w)"
  shows "wp G (kget E g ns n) Q w"
  using assms by (simp add: wp_def kget_def Let_def)

lemma wp_klist [wp_rules]:
  assumes "\<And>r. r = env_list E (trace w) g ns s \<Longrightarrow> G (trace w) (EList g ns s r) \<and> Q r (log (EList g ns s r) w)"
  shows "wp G (klist E g ns s) Q w"
  using assms by (simp add: wp_def klist_def Let_def)

lemma wp_kpatch [wp_rules]:
  assumes "\<And>r. r = env_patch E (trace w) g ns n obj \<Longrightarrow>
     G (trace w) (EPatch g ns n obj r) \<and> Q (opt_result r) (log (EPatch g ns n obj r) w)"
  shows "wp G (kpatch E g ns n obj) Q w"
  using assms by (simp add: wp_def kpatch_def Let_def)

lemma wp_kdelete [wp_rules]:
  assumes "\<And>r. r = env_delete E (trace w) g ns n \<Longrightarrow>
     G (trace w) (EDelete g ns n r) \<and> Q (opt_result r) (log (EDelete g ns n r) w)"
  shows "wp G (kdelete E g ns n) Q w"
  using assms by (simp add: wp_def kdelete_def Let_def)

lemma wp_http [wp_rules]:
  assumes "\<And>r. r = env_http E (trace w) url \<Longrightarrow> G (trace w) (EHttp url r) \<and> Q r (log (EHttp url r) w)"
  shows "wp G (httpGet E url) Q w"
  using assms by (simp add: wp_def httpGet_def Let_def)

lemma wp_report [wp_rules]:
  assumes "G (trace w) (EReport k s) \<and> Q (Inr ()) (log (EReport k s) w)" and "Q (Inr ()) w"
  shows "wp G (report E k s) Q w"
  using assms by (simp add: wp_def report_def)

lemma wp_err [wp_rules]:
  assumes "G (trace w) (EErr s) \<and> Q (Inr ()) (log (EErr s) w)"
  shows "wp G (errE s) Q w"
  using assms by (simp add: wp_def errE_def)

lemma wp_listen [wp_rules]:
  assumes "\<And>r. G (trace w) (EListen port r) \<and> Q (Inr r) (log (EListen port r) w)"
  shows "wp G (listenE E port) Q w"
  using assms by (simp add: wp_def listenE_def Let_def)

lemma wp_out [wp_rules]:
  assumes "G (trace w) (EOut s) \<and> Q (Inr ()) (log (EOut s) w)"
  shows "wp G (outE s) Q w"
  using assms by (simp add: wp_def outE_def)

lemma wp_ctxErr [wp_rules]:
  assumes "\<And>r. r = opt_result (env_ctx E (trace w)) \<Longrightarrow> Q r w"
  shows "wp G (ctxErr E) Q w"
  using assms by (simp add: wp_def ctxErr_def)

lemma wp_fs:
  assumes "\<And>e. G (trace w) (EFs op (Some e)) \<and> Q (Inl e) (log (EFs op (Some e)) w)"
    and "\<And>x f. env_fault E (trace w) op = None \<Longrightarrow> act (files w) = Inr (x, f) \<Longrightarrow>
           G (trace w) (EFs op None) \<and> Q (Inr x) (log (EFs op None) (w\<lparr>files := f\<rparr>))"
  shows "wp G (fsE E op act) Q w"
  using assms
  by (auto simp: wp_def fsE_def split: option.splits sum.splits prod.splits)

subsection \<open>System calls\<close>

text \<open>Each rule gives the exact files after a successful call; a failing call changes no file.\<close>

lemma wp_lstat [wp_rules]:
  assumes "\<And>e. G (trace w) (EFs (Lstat p) (Some e)) \<and> Q (Inl e) (log (EFs (Lstat p) (Some e)) w)"
    and "\<And>n. fs_get (files w) p = Some n \<Longrightarrow>
           G (trace w) (EFs (Lstat p) None) \<and> Q (Inr n) (log (EFs (Lstat p) None) w)"
  shows "wp G (lstat E p) Q w"
  unfolding lstat_def by (rule wp_fs) (use assms in \<open>auto split: option.splits\<close>)

lemma wp_readFile [wp_rules]:
  assumes "\<And>e. G (trace w) (EFs (ReadFile p) (Some e)) \<and> Q (Inl e) (log (EFs (ReadFile p) (Some e)) w)"
    and "\<And>c. (\<forall>c' m. fs_get (files w) p = Some (RegFile c' m) \<longrightarrow> c' = c) \<Longrightarrow> fs_get (files w) p \<noteq> None \<Longrightarrow>
           G (trace w) (EFs (ReadFile p) None) \<and> Q (Inr c) (log (EFs (ReadFile p) None) w)"
  shows "wp G (readFile E p) Q w"
proof -
  have "wp G (\<lambda>w'. fsE E (ReadFile p) (\<lambda>f.
     case fs_get f p of
       None \<Rightarrow> Inl ErrNotExist
     | Some (RegFile c m) \<Rightarrow> Inr (c, f)
     | Some Dir \<Rightarrow> Inl (Foreign ''is a directory'' [])
     | Some _ \<Rightarrow> (case env_link E (trace w) p of Inl e \<Rightarrow> Inl e | Inr c \<Rightarrow> Inr (c, f))) w') Q w"
    by (rule wp_fs) (use assms in \<open>auto split: option.splits node.splits sum.splits\<close>)
  then show ?thesis by (simp add: wp_def readFile_def)
qed

lemma wp_readDir [wp_rules]:
  assumes "\<And>e. G (trace w) (EFs (ReadDir p) (Some e)) \<and> Q (Inl e) (log (EFs (ReadDir p) (Some e)) w)"
    and "G (trace w) (EFs (ReadDir p) None) \<and>
         Q (Inr (fs_children p (files w))) (log (EFs (ReadDir p) None) w)"
  shows "wp G (readDir E p) Q w"
  unfolding readDir_def by (rule wp_fs) (use assms in \<open>auto split: if_splits\<close>)

lemma fold_mkdir_get:
  "fs_get (fold (\<lambda>q f'. if fs_get f' q = None then fs_put q Dir f' else f') ps f) q =
     (if q \<in> set ps \<and> fs_get f q = None then Some Dir else fs_get f q)"
  by (induction ps arbitrary: f) auto

lemma path_prefixes_length: "q \<in> set (path_prefixes p) \<Longrightarrow> length q \<le> length p"
  by (auto simp: path_prefixes_def)

lemma wp_mkdirAll [wp_rules]:
  assumes "\<And>e. G (trace w) (EFs (MkdirAll p) (Some e)) \<and> Q (Inl e) (log (EFs (MkdirAll p) (Some e)) w)"
    and "\<And>f. (\<And>q. fs_get f q = (if q \<in> set (path_prefixes p) \<and> fs_get (files w) q = None
                                then Some Dir else fs_get (files w) q)) \<Longrightarrow>
           G (trace w) (EFs (MkdirAll p) None) \<and> Q (Inr ()) (log (EFs (MkdirAll p) None) (w\<lparr>files := f\<rparr>))"
  shows "wp G (mkdirAll E p) Q w"
  unfolding mkdirAll_def
proof (rule wp_fs)
  fix x f assume "(if list_ex (\<lambda>q. fs_get (files w) q \<noteq> None \<and> \<not> is_dir (files w) q) (path_prefixes p)
     then Inl (Foreign ''not a directory'' [])
     else Inr ((), fold (\<lambda>q f'. if fs_get f' q = None then fs_put q Dir f' else f')
       (path_prefixes p) (files w))) = Inr (x, f)"
  then show "G (trace w) (EFs (MkdirAll p) None) \<and> Q (Inr x) (log (EFs (MkdirAll p) None) (w\<lparr>files := f\<rparr>))"
    using assms(2) [of f] by (auto simp: fold_mkdir_get split: if_splits)
qed (rule assms(1))

lemma temp_path_shape:
  "temp_path E tr dir pre suf \<noteq> []" "butlast (temp_path E tr dir pre suf) = dir"
  "HasPrefix (last (temp_path E tr dir pre suf)) pre"
  by (simp_all add: temp_path_def)

lemma wp_createTemp [wp_rules]:
  assumes "\<And>p e. G (trace w) (EFs (CreateTemp p) (Some e)) \<and> Q (Inl e) (log (EFs (CreateTemp p) (Some e)) w)"
    and "\<And>p. p \<noteq> [] \<Longrightarrow> butlast p = dir \<Longrightarrow> HasPrefix (last p) pre \<Longrightarrow> fs_get (files w) p = None \<Longrightarrow>
           G (trace w) (EFs (CreateTemp p) None) \<and>
           Q (Inr p) (log (EFs (CreateTemp p) None) (w\<lparr>files := fs_put p (RegFile [] mode0600) (files w)\<rparr>))"
  shows "wp G (createTemp E dir pre suf) Q w"
proof -
  let ?p = "temp_path E (trace w) dir pre suf"
  have "wp G (fsE E (CreateTemp ?p) (\<lambda>f.
       if fs_get f ?p \<noteq> None then Inl (Foreign ''file exists'' [])
       else if \<not> is_dir f dir then Inl ErrNotExist
       else Inr (?p, fs_put ?p (RegFile [] mode0600) f))) Q w"
    by (rule wp_fs) (use assms(1) assms(2) [of ?p] temp_path_shape [of E "trace w" dir pre suf]
      in \<open>auto split: if_splits\<close>)
  then show ?thesis by (simp add: wp_def createTemp_def Let_def)
qed

lemma wp_mkdirTemp [wp_rules]:
  assumes "\<And>p e. G (trace w) (EFs (MkdirTemp p) (Some e)) \<and> Q (Inl e) (log (EFs (MkdirTemp p) (Some e)) w)"
    and "\<And>p. p \<noteq> [] \<Longrightarrow> butlast p = dir \<Longrightarrow> HasPrefix (last p) pre \<Longrightarrow> fs_get (files w) p = None \<Longrightarrow>
           G (trace w) (EFs (MkdirTemp p) None) \<and>
           Q (Inr p) (log (EFs (MkdirTemp p) None) (w\<lparr>files := fs_put p Dir (files w)\<rparr>))"
  shows "wp G (mkdirTemp E dir pre) Q w"
proof -
  let ?p = "temp_path E (trace w) dir pre []"
  have "wp G (fsE E (MkdirTemp ?p) (\<lambda>f.
       if fs_get f ?p \<noteq> None then Inl (Foreign ''file exists'' [])
       else if \<not> is_dir f dir then Inl ErrNotExist
       else Inr (?p, fs_put ?p Dir f))) Q w"
    by (rule wp_fs) (use assms(1) assms(2) [of ?p] temp_path_shape [of E "trace w" dir pre "[]"]
      in \<open>auto split: if_splits\<close>)
  then show ?thesis by (simp add: wp_def mkdirTemp_def Let_def)
qed

lemma fs_get_set_content [simp]:
  "fs_get (set_content p c f) q =
     (case fs_get f p of Some (RegFile _ m) \<Rightarrow> (if q = p then Some (RegFile c m) else fs_get f q)
      | _ \<Rightarrow> fs_get f q)"
  by (auto simp: set_content_def split: option.splits node.splits)

lemma wp_writeFile [wp_rules]:
  assumes "\<And>e n. G (trace w) (EFs (WriteFile p) (Some e)) \<and>
             Q (Inl e) (log (EFs (WriteFile p) (Some e)) (w\<lparr>files := set_content p (take n c) (files w)\<rparr>))"
    and "G (trace w) (EFs (WriteFile p) None) \<and>
         Q (Inr ()) (log (EFs (WriteFile p) None) (w\<lparr>files := set_content p c (files w)\<rparr>))"
  shows "wp G (writeFile E p c) Q w"
  using assms by (auto simp: wp_def writeFile_def split: option.splits)

lemma wp_chmodFile [wp_rules]:
  assumes "\<And>e. G (trace w) (EFs (Chmod p) (Some e)) \<and> Q (Inl e) (log (EFs (Chmod p) (Some e)) w)"
    and "\<And>f. (\<And>q. fs_get f q = (case fs_get (files w) p of
              Some (RegFile c _) \<Rightarrow> (if q = p then Some (RegFile c m) else fs_get (files w) q)
            | _ \<Rightarrow> fs_get (files w) q)) \<Longrightarrow>
           G (trace w) (EFs (Chmod p) None) \<and> Q (Inr ()) (log (EFs (Chmod p) None) (w\<lparr>files := f\<rparr>))"
  shows "wp G (chmodFile E p m) Q w"
  unfolding chmodFile_def
proof (rule wp_fs)
  fix x f assume "(case fs_get (files w) p of
      Some (RegFile c _) \<Rightarrow> Inr ((), fs_put p (RegFile c m) (files w))
    | _ \<Rightarrow> Inr ((), files w)) = Inr (x, f)"
  then show "G (trace w) (EFs (Chmod p) None) \<and> Q (Inr x) (log (EFs (Chmod p) None) (w\<lparr>files := f\<rparr>))"
    using assms(2) [of f] by (auto split: option.splits node.splits)
qed (rule assms(1))

lemma wp_syncFile [wp_rules]:
  assumes "\<And>e. G (trace w) (EFs (Sync p) (Some e)) \<and> Q (Inl e) (log (EFs (Sync p) (Some e)) w)"
    and "G (trace w) (EFs (Sync p) None) \<and> Q (Inr ()) (log (EFs (Sync p) None) w)"
  shows "wp G (syncFile E p) Q w"
  unfolding syncFile_def by (rule wp_fs) (use assms in auto)

lemma wp_closeFile [wp_rules]:
  assumes "\<And>e. G (trace w) (EFs (CloseFile p) (Some e)) \<and> Q (Inl e) (log (EFs (CloseFile p) (Some e)) w)"
    and "G (trace w) (EFs (CloseFile p) None) \<and> Q (Inr ()) (log (EFs (CloseFile p) None) w)"
  shows "wp G (closeFile E p) Q w"
  unfolding closeFile_def by (rule wp_fs) (use assms in auto)

lemma wp_openDir [wp_rules]:
  assumes "\<And>e. G (trace w) (EFs (OpenPath p) (Some e)) \<and> Q (Inl e) (log (EFs (OpenPath p) (Some e)) w)"
    and "G (trace w) (EFs (OpenPath p) None) \<and> Q (Inr ()) (log (EFs (OpenPath p) None) w)"
  shows "wp G (openDir E p) Q w"
  unfolding openDir_def by (rule wp_fs) (use assms in \<open>auto split: if_splits\<close>)

lemma rename_get:
  assumes "rename_act a b f = Inr ((), f')" and "fs_get f a \<noteq> Some Dir"
  shows "fs_get f' q = (if q = b then fs_get f a else if q = a then None else fs_get f q)"
  using assms by (auto simp: rename_act_def split: if_splits option.splits node.splits)

lemma wp_renameE [wp_rules]:
  assumes "\<And>e. G (trace w) (EFs (Rename a b) (Some e)) \<and> Q (Inl e) (log (EFs (Rename a b) (Some e)) w)"
    and "\<And>f. fs_get (files w) a \<noteq> None \<Longrightarrow>
           (fs_get (files w) a \<noteq> Some Dir \<Longrightarrow> \<forall>q. fs_get f q =
              (if q = b then fs_get (files w) a else if q = a then None else fs_get (files w) q)) \<Longrightarrow>
           G (trace w) (EFs (Rename a b) None) \<and> Q (Inr ()) (log (EFs (Rename a b) None) (w\<lparr>files := f\<rparr>))"
  shows "wp G (renameE E a b) Q w"
  unfolding renameE_def
proof (rule wp_fs)
  fix x f assume act: "rename_act a b (files w) = Inr (x, f)"
  then have "fs_get (files w) a \<noteq> None"
    by (cases "fs_get (files w) a") (simp_all add: rename_act_def)
  then have "G (trace w) (EFs (Rename a b) None) \<and> Q (Inr ()) (log (EFs (Rename a b) None) (w\<lparr>files := f\<rparr>))"
    using act by (intro assms(2)) (auto simp: rename_get)
  then show "G (trace w) (EFs (Rename a b) None) \<and> Q (Inr x) (log (EFs (Rename a b) None) (w\<lparr>files := f\<rparr>))"
    by simp
qed (rule assms(1))

lemma wp_removeE [wp_rules]:
  assumes "\<And>e. G (trace w) (EFs (Remove p) (Some e)) \<and> Q (Inl e) (log (EFs (Remove p) (Some e)) w)"
    and "fs_get (files w) p \<noteq> None \<Longrightarrow>
         G (trace w) (EFs (Remove p) None) \<and>
         Q (Inr ()) (log (EFs (Remove p) None) (w\<lparr>files := fs_del p (files w)\<rparr>))"
  shows "wp G (removeE E p) Q w"
  unfolding removeE_def
  by (rule wp_fs) (use assms in \<open>auto split: option.splits node.splits if_splits\<close>)

lemma wp_openExcl:
  assumes "\<And>e. G (trace w) (EFs (OpenPath p) (Some e)) \<and> Q (Inl e) (log (EFs (OpenPath p) (Some e)) w)"
    and "fs_get (files w) p = None \<Longrightarrow>
         G (trace w) (EFs (OpenPath p) None) \<and>
         Q (Inr ()) (log (EFs (OpenPath p) None) (w\<lparr>files := fs_put p (RegFile [] m) (files w)\<rparr>))"
  shows "wp G (openCreate E p m True) Q w"
  unfolding openCreate_def
  by (rule wp_fs) (use assms in \<open>auto split: option.splits node.splits if_splits\<close>)

section \<open>Disciplines\<close>

text \<open>
  A command that changes something outside the process: a Docker or kind command that is not a
  query, or a Kubernetes patch or delete.
\<close>

definition query_command :: "string list \<Rightarrow> bool" where
  "query_command args \<longleftrightarrow>
     take 1 args \<in> {[''version''], [''info''], [''inspect''], [''ps''], [''get'']} \<or>
     take 2 args = [''image'', ''inspect''] \<or>
     take 1 args = [''exec''] \<and> take 1 (drop 2 args) = [''cat'']"

fun mutates :: "event \<Rightarrow> bool" where
  "mutates (ERun name args r) = (\<not> query_command args)"
| "mutates (EPatch g ns n obj r) = True"
| "mutates (EDelete g ns n r) = True"
| "mutates _ = False"

fun lock_event :: "event \<Rightarrow> bool" where
  "lock_event ELock = True"
| "lock_event EUnlock = True"
| "lock_event _ = False"

text \<open>\<open>calm G I m\<close>: every run of \<open>m\<close> from \<open>I\<close> obeys the guarantee \<open>G\<close> and ends in \<open>I\<close>.\<close>

definition calm :: "(history \<Rightarrow> event \<Rightarrow> bool) \<Rightarrow> (world \<Rightarrow> bool) \<Rightarrow> 'a io \<Rightarrow> bool" where
  "calm G I m \<longleftrightarrow> (\<forall>w. I w \<longrightarrow> wp G m (\<lambda>_. I) w)"

named_theorems calm_rules \<open>decomposition of a command for \<open>calm\<close>\<close>

lemma calmD: "calm G I m \<Longrightarrow> I w \<Longrightarrow> wp G m (\<lambda>_. I) w"
  by (simp add: calm_def)

lemma calm_structure [calm_rules]:
  "calm G I (retE x)" "calm G I (failE e)" "calm G I (liftE r)" "calm G I (\<lambda>w. (h w, w))"
  by (auto simp: calm_def wp_def retE_def failE_def liftE_def)

lemma calm_try [calm_rules]:
  "calm G I m \<Longrightarrow> (\<And>r. calm G I (h r)) \<Longrightarrow> calm G I (tryE m h)"
  by (auto simp: calm_def intro!: wp_try elim!: wp_mono)

lemma calm_case_sum [calm_rules]:
  "(\<And>e. r = Inl e \<Longrightarrow> calm G I (f e)) \<Longrightarrow> (\<And>x. r = Inr x \<Longrightarrow> calm G I (g x)) \<Longrightarrow>
   calm G I (case r of Inl e \<Rightarrow> f e | Inr x \<Rightarrow> g x)"
  by (cases r) auto

lemma calm_case_option [calm_rules]:
  "(x = None \<Longrightarrow> calm G I m) \<Longrightarrow> (\<And>y. x = Some y \<Longrightarrow> calm G I (f y)) \<Longrightarrow>
   calm G I (case x of None \<Rightarrow> m | Some y \<Rightarrow> f y)"
  by (cases x) auto

lemma calm_case_prod [calm_rules]:
  "(\<And>a b. p = (a, b) \<Longrightarrow> calm G I (f a b)) \<Longrightarrow> calm G I (case p of (a, b) \<Rightarrow> f a b)"
  by (cases p) auto

lemma calm_if [calm_rules]:
  "(b \<Longrightarrow> calm G I m) \<Longrightarrow> (\<not> b \<Longrightarrow> calm G I m') \<Longrightarrow> calm G I (if b then m else m')"
  by simp

lemma calm_when [calm_rules]: "(b \<Longrightarrow> calm G I m) \<Longrightarrow> calm G I (whenE b m)"
  by (simp add: whenE_def calm_structure)

lemma calm_bind [calm_rules]:
  "calm G I m \<Longrightarrow> (\<And>x. calm G I (f x)) \<Longrightarrow> calm G I (bindE m f)"
  unfolding bindE_def by (intro calm_rules)

lemma calm_wrap [calm_rules]: "calm G I m \<Longrightarrow> calm G I (wrapE g m)"
  unfolding wrapE_def by (intro calm_rules)

lemma calm_defer [calm_rules]: "calm G I fin \<Longrightarrow> calm G I m \<Longrightarrow> calm G I (deferE fin m)"
  unfolding deferE_def by (intro calm_rules)

lemma calm_ignore [calm_rules]: "calm G I m \<Longrightarrow> calm G I (ignoreE m)"
  unfolding ignoreE_def by (intro calm_rules)

lemma calm_onFail [calm_rules]: "calm G I c \<Longrightarrow> calm G I m \<Longrightarrow> calm G I (onFailE c m)"
  unfolding onFailE_def by (intro calm_rules)

lemma calm_for [calm_rules]: "(\<And>x. x \<in> set xs \<Longrightarrow> calm G I (f x)) \<Longrightarrow> calm G I (forE xs f)"
  by (induction xs) (auto intro!: calm_rules)

lemma calm_ctxErr [calm_rules]: "calm G I (ctxErr E)"
  by (simp add: ctxErr_def calm_structure)

text \<open>A command depending on the world's history only.\<close>

lemma calm_history: "(\<And>tr. calm G I (m tr)) \<Longrightarrow> calm G I (\<lambda>w. m (trace w) w)"
  by (auto simp: calm_def wp_def)

text \<open>
  The contract under which the read-only parts of the program are proved once: a guarantee \<open>G\<close>
  and an invariant \<open>I\<close> that every permitted event respects, where everything that neither
  mutates the outside nor touches the lock is permitted.
\<close>

locale discipline =
  fixes G :: "history \<Rightarrow> event \<Rightarrow> bool" and I :: "world \<Rightarrow> bool" and P :: "event \<Rightarrow> bool"
  assumes step: "I w \<Longrightarrow> P e \<Longrightarrow> G (trace w) e \<and> I (log e w)"
    and files_free: "I w \<Longrightarrow> I (w\<lparr>files := f\<rparr>)"
    and queries: "\<not> mutates e \<Longrightarrow> \<not> lock_event e \<Longrightarrow> P e"
begin

lemma step_quiet: "I w \<Longrightarrow> \<not> mutates e \<Longrightarrow> \<not> lock_event e \<Longrightarrow> G (trace w) e \<and> I (log e w)"
  by (rule step) (auto intro: queries)

lemmas step_G = step_quiet [THEN conjunct1]
lemmas step_I = step_quiet [THEN conjunct2]

lemma calm_run: "(\<And>r. P (ERun n a r)) \<Longrightarrow> calm G I (runE E n a)"
  by (auto simp: calm_def intro!: wp_run step)

lemma calm_patch: "(\<And>r. P (EPatch g ns n obj r)) \<Longrightarrow> calm G I (kpatch E g ns n obj)"
  by (auto simp: calm_def intro!: wp_kpatch step)

lemma calm_delete: "(\<And>r. P (EDelete g ns n r)) \<Longrightarrow> calm G I (kdelete E g ns n)"
  by (auto simp: calm_def intro!: wp_kdelete step)

lemma calm_query: "query_command a \<Longrightarrow> calm G I (runE E n a)"
  by (rule calm_run) (simp add: queries)

lemma calm_fs: "calm G I (fsE E op act)"
proof -
  have "G (trace w) (EFs op r) \<and> I (log (EFs op r) (w\<lparr>files := f\<rparr>))" if "I w" for w r f
    using step_quiet [OF files_free [OF that, of f], of "EFs op r"] by simp
  moreover have "G (trace w) (EFs op r) \<and> I (log (EFs op r) w)" if "I w" for w r
    using step_quiet [OF that, of "EFs op r"] by simp
  ultimately show ?thesis by (auto simp: calm_def intro!: wp_fs)
qed

lemma calm_reads:
  "calm G I (kget E g ns n)" "calm G I (klist E g ns s)" "calm G I (httpGet E url)"
  "calm G I (outE s)" "calm G I (errE s)" "calm G I (listenE E port)"
  by (auto simp: calm_def intro!: wp_kget wp_klist wp_http wp_out wp_err wp_listen step_G step_I)

lemma calm_report: "calm G I (report E k s)"
  by (auto simp: calm_def intro!: wp_report step_G step_I)

lemma calm_files:
  "calm G I (lstat E p)" "calm G I (readFile E p)" "calm G I (readDir E p)"
  "calm G I (mkdirAll E p)" "calm G I (createTemp E d a b)" "calm G I (mkdirTemp E d a)"
  "calm G I (chmodFile E p m)" "calm G I (syncFile E p)" "calm G I (closeFile E p)"
  "calm G I (openDir E p)" "calm G I (renameE E p q)" "calm G I (removeE E p)"
  "calm G I (openCreate E p m x)"
  unfolding openCreate_def lstat_def readFile_def readDir_def mkdirAll_def createTemp_def mkdirTemp_def
    chmodFile_def syncFile_def closeFile_def openDir_def renameE_def removeE_def Let_def
  by (rule calm_fs calm_history)+

lemma calm_write: "calm G I (writeFile E p c)" "calm G I (removeAll E p)"
proof -
  have "G (trace w) (EFs op r) \<and> I (log (EFs op r) (w\<lparr>files := f\<rparr>))" if "I w" for w op r f
    using step_quiet [OF files_free [OF that, of f], of "EFs op r"] by simp
  then show "calm G I (writeFile E p c)" "calm G I (removeAll E p)"
    by (auto simp: calm_def wp_def writeFile_def removeAll_def Let_def split: option.splits)
qed

lemma calm_osWriteFile: "calm G I (osWriteFile E p c m)"
  unfolding osWriteFile_def by (intro calm_rules calm_files calm_write)

lemmas calm_prims = calm_osWriteFile calm_rules calm_reads calm_report calm_files calm_write calm_fs calm_query

end

lemma calm_wp: "calm G I m \<Longrightarrow> I w \<Longrightarrow> (\<And>r w'. I w' \<Longrightarrow> Q r w') \<Longrightarrow> wp G m Q w"
  by (rule wp_mono [OF calmD])

text \<open>Nothing outside the process is changed.\<close>

interpretation reading: discipline "\<lambda>_ e. \<not> mutates e" "\<lambda>_. True" "\<lambda>e. \<not> mutates e"
  by unfold_locales auto

text \<open>No restriction.\<close>

interpretation free: discipline "\<lambda>_ _. True" "\<lambda>_. True" "\<lambda>_. True"
  by unfold_locales auto

text \<open>Changes are made under a condition \<open>J\<close> on the history; everything else is free.\<close>

interpretation careful: discipline "\<lambda>tr e. mutates e \<longrightarrow> J tr e" "\<lambda>_. True" "\<lambda>e. \<not> mutates e"
  for J :: "history \<Rightarrow> event \<Rightarrow> bool"
  by unfold_locales auto

text \<open>What a run did, event by event.\<close>

lemma wp_trace:
  assumes "wp G m Q w" and "m w = (r, w')"
  shows "\<exists>es. trace w' = trace w @ es \<and> (\<forall>i < length es. G (trace w @ take i es) (es ! i)) \<and> Q r w'"
  using assms by (auto simp: wp_def guar_nth)

text \<open>
  The operation lock as the history shows it, the operations that need it, and the discipline
  that they run while it is held.
\<close>

definition lock_step :: "bool \<Rightarrow> event \<Rightarrow> bool" where
  "lock_step b e = (case e of ELock \<Rightarrow> True | EUnlock \<Rightarrow> False | _ \<Rightarrow> b)"

definition lock_held :: "history \<Rightarrow> bool" where
  "lock_held tr = foldl lock_step False tr"

fun external :: "event \<Rightarrow> bool" where
  "external (ERun n a r) = True"
| "external (EGet g ns n r) = True"
| "external (EList g ns s r) = True"
| "external (EPatch g ns n obj r) = True"
| "external (EDelete g ns n r) = True"
| "external _ = False"

definition under_lock :: "history \<Rightarrow> event \<Rightarrow> bool" where
  "under_lock tr e \<longleftrightarrow> (external e \<longrightarrow> lock_held tr) \<and> (lock_event e \<longrightarrow> (lock_held tr \<longleftrightarrow> e = EUnlock))"

lemma lock_held_snoc [simp]: "lock_held (tr @ [e]) = lock_step (lock_held tr) e"
  by (simp add: lock_held_def)

lemma lock_step_other: "\<not> lock_event e \<Longrightarrow> lock_step b e = b"
  by (cases e) (simp_all add: lock_step_def)

lemma external_no_lock: "external e \<Longrightarrow> \<not> lock_event e"
  by (cases e) simp_all

definition lock_ok :: "world \<Rightarrow> bool" where
  "lock_ok w \<longleftrightarrow> held w = lock_held (trace w)"

interpretation holding: discipline under_lock "\<lambda>w. held w \<and> lock_ok w" "\<lambda>e. \<not> lock_event e"
  by unfold_locales (auto simp: under_lock_def lock_ok_def lock_step_other)

section \<open>Concrete runs\<close>

text \<open>An outside in which every call succeeds and every query has an empty answer.\<close>

definition quiet :: outside where
  "quiet = \<lparr>env_run = (\<lambda>_ _ _. Inr []), env_get = (\<lambda>_ _ _ _. Inr empty_obj),
     env_list = (\<lambda>_ _ _ _. Inr []), env_patch = (\<lambda>_ _ _ _ _. None), env_delete = (\<lambda>_ _ _ _. None),
     env_fault = (\<lambda>_ _. None), env_written = (\<lambda>_. 0), env_temp = (\<lambda>_. ''1''),
     env_link = (\<lambda>_ _. Inr []), env_flock = (\<lambda>_. None), env_ctx = (\<lambda>_. None),
     env_random = (\<lambda>_. Inr ''0123456789abcdef''), env_listen = (\<lambda>_ _. True),
     env_http = (\<lambda>_ _. Inr (200, [], None)), env_sha256 = (\<lambda>_. []),
     env_statfs = (\<lambda>_. Inr (2 ^ 40)), env_restconfig = (\<lambda>_. None), env_client = (\<lambda>_. None),
     env_reporter = False, env_clock = length\<rparr>"

definition empty_world :: world where
  "empty_world = \<lparr>trace = [], files = [], held = False\<rparr>"

text \<open>Running a concrete command: the definitions of the commands, and evaluation of files.\<close>

lemmas io_defs = tryE_def bindE_def wrapE_def deferE_def ignoreE_def whenE_def retE_def failE_def
  liftE_def runE_def kget_def klist_def kpatch_def kdelete_def report_def outE_def errE_def listenE_def onFailE_def ctxErr_def
  httpGet_def fsE_def lstat_def readFile_def readDir_def mkdirAll_def createTemp_def mkdirTemp_def
  writeFile_def chmodFile_def syncFile_def closeFile_def openDir_def renameE_def removeE_def
  removeAll_def openCreate_def osWriteFile_def log_def opt_result_def Let_def

lemmas fs_defs = fs_get_def fs_put_def fs_del_def fs_del_tree_def fs_children_def is_dir_def
  path_prefixes_def temp_path_def set_content_def rename_act_def fs_move_tree_def

end
