(* ===== verification/Lab_Model.thy ===== *)
theory Lab_Model
  imports Catalog World
begin

text \<open>
  The pure part of \<open>internal/lab/service.go\<close>: which workloads and services a lab has, when an
  object is owned, when a workload is ready, whether a service matches the catalog, what a pod is
  waiting for, and how a namespace name gives back its lab. An \<open>unstructured\<close> object is a
  \<^typ>\<open>kobj\<close>; a typed pod or event has the fields the code reads. The theorems show that every
  endpoint of the catalog is served by exactly one expected service port, and that
  \<open>labFromNamespace\<close> is the inverse of \<open>catalog.Namespace\<close>.
\<close>

section \<open>Data\<close>

definition envMarker :: string where
  "envMarker = ''# Generated by tripgoctl. Do not edit manually.''"

record component_status =
  cs_Name :: string
  cs_Desired :: int
  cs_Ready :: int
  cs_ImageDigest :: string

record runtime_status =
  rs_Lab :: int
  rs_Namespace :: string
  rs_State :: string
  rs_Components :: "component_status list"

record endpoint_port =
  epp_name :: string
  epp_catalogName :: string
  epp_servicePort :: int
  epp_targetPort :: string

record endpoint_service =
  es_name :: string
  es_selectorName :: string
  es_serviceType :: string
  es_ports :: "endpoint_port list"

record workload =
  wl_name :: string
  wl_resource :: gvr

definition mk_workload :: "gvr \<Rightarrow> string \<Rightarrow> workload" where
  "mk_workload g n = \<lparr>wl_name = n, wl_resource = g\<rparr>"

definition workloads :: "int \<Rightarrow> workload list" where
  "workloads lab =
     [mk_workload Deployments ''postgres''] @
     (if lab \<ge> 2 then map (mk_workload Deployments)
        [''otel-collector'', ''jaeger'', ''prometheus'', ''grafana'', ''loki''] else []) @
     (if lab \<ge> 3 then [mk_workload Deployments ''push-service''] else []) @
     (if lab \<ge> 4 then [mk_workload StatefulSets ''redpanda'', mk_workload Deployments ''redpanda-console'',
        mk_workload Deployments ''redpanda-topic-reconciler''] else [])"

definition mk_eport :: "string \<Rightarrow> string \<Rightarrow> int \<Rightarrow> string \<Rightarrow> endpoint_port" where
  "mk_eport n c s t = \<lparr>epp_name = n, epp_catalogName = c, epp_servicePort = s, epp_targetPort = t\<rparr>"

definition mk_service :: "string \<Rightarrow> string \<Rightarrow> string \<Rightarrow> endpoint_port list \<Rightarrow> endpoint_service" where
  "mk_service n sel ty ps = \<lparr>es_name = n, es_selectorName = sel, es_serviceType = ty, es_ports = ps\<rparr>"

definition endpointServices :: "int \<Rightarrow> endpoint_service list" where
  "endpointServices lab =
     [mk_service ''postgres'' [] [] [mk_eport ''postgres'' ''postgres'' 5432 ''postgres'']] @
     (if lab \<ge> 2 then
       [mk_service ''otel-collector'' [] [] [mk_eport ''otlp-grpc'' ''otel-grpc'' 4317 ''otlp-grpc'',
          mk_eport ''otlp-http'' ''otel-http'' 4318 ''otlp-http''],
        mk_service ''jaeger'' [] [] [mk_eport ''ui'' ''jaeger'' 16686 ''ui''],
        mk_service ''prometheus'' [] [] [mk_eport ''http'' ''prometheus'' 9090 ''http''],
        mk_service ''grafana'' [] [] [mk_eport ''http'' ''grafana'' 3000 ''http''],
        mk_service ''otel-collector-metrics'' ''otel-collector'' ''ClusterIP''
          [mk_eport ''prometheus'' [] 8889 ''prometheus''],
        mk_service ''jaeger-otlp'' ''jaeger'' ''ClusterIP'' [mk_eport ''otlp-grpc'' [] 4317 ''otlp-grpc''],
        mk_service ''loki'' [] ''ClusterIP'' [mk_eport ''http'' [] 3100 ''http'']]
      else []) @
     (if lab \<ge> 3 then
       [mk_service ''push-service'' [] [] [mk_eport ''http'' ''push-http'' 8090 ''http'',
          mk_eport ''grpc'' ''push-grpc'' 9095 ''grpc'']]
      else []) @
     (if lab \<ge> 4 then
       [mk_service ''redpanda-external'' ''redpanda'' [] [mk_eport ''kafka-external'' ''redpanda-kafka'' 19092 ''kafka-external''],
        mk_service ''redpanda-console'' [] [] [mk_eport ''http'' ''redpanda-console'' 8080 ''http'']]
      else [])"

section \<open>Ownership\<close>

definition verifyResourceOwnership :: "kobj \<Rightarrow> int \<Rightarrow> string \<Rightarrow> string \<Rightarrow> gerr + unit" where
  "verifyResourceOwnership object lab namespace clusterID =
     (let labels = GetLabels object in
      if lookup_str labels ''app.kubernetes.io/managed-by'' \<noteq> ''tripgoctl'' \<or>
         lookup_str labels ''app.kubernetes.io/part-of'' \<noteq> ''tripgo-local'' \<or>
         lookup_str labels ''tripgo.course/lab'' \<noteq> pad02 lab \<or>
         lookup_str labels ''tripgo.course/environment'' \<noteq> namespace \<or>
         lookup_str (GetAnnotations object) ''tripgo.course/cluster-id'' \<noteq> clusterID
      then Inl (conflict [T ('': '' @ GetKind object @ '' '' @ GetName object @
             '' does not have matching tripgoctl ownership'')])
      else Inr ())"

definition resourceFor :: "string \<Rightarrow> string \<Rightarrow> gerr + gvr" where
  "resourceFor apiVersion kind =
     (let k = apiVersion @ ''/'' @ kind in
      if k = ''v1/Namespace'' then Inr Namespaces
      else if k = ''v1/ConfigMap'' then Inr ConfigMaps
      else if k = ''v1/Secret'' then Inr Secrets
      else if k = ''v1/PersistentVolumeClaim'' then Inr PersistentVolumeClaims
      else if k = ''v1/Service'' then Inr Services
      else if k = ''apps/v1/Deployment'' then Inr Deployments
      else if k = ''apps/v1/StatefulSet'' then Inr StatefulSets
      else Inl (errorsNew (''unsupported Kubernetes resource '' @ apiVersion @ '' '' @ kind)))"

section \<open>Workloads and services\<close>

definition workloadImageReference :: "kobj \<Rightarrow> string" where
  "workloadImageReference d =
     (case template_containers d of
        [] \<Rightarrow> []
      | None # _ \<Rightarrow> []
      | Some c # _ \<Rightarrow> kc_image c)"

definition workloadImageDigest :: "kobj \<Rightarrow> string" where
  "workloadImageDigest d =
     (case Cut (workloadImageReference d) (CHR ''@'') of None \<Rightarrow> [] | Some (_, digest) \<Rightarrow> digest)"

definition workloadReady :: "kobj \<Rightarrow> int \<Rightarrow> bool" where
  "workloadReady d expected \<longleftrightarrow>
     spec_replicas d = expected \<and> status_observedGeneration d \<ge> GetGeneration d \<and>
     status_updatedReplicas d = expected \<and> status_readyReplicas d = expected \<and>
     status_availableReplicas d = expected"

definition port_matches :: "endpoint_port \<Rightarrow> int \<Rightarrow> kport option \<Rightarrow> bool" where
  "port_matches wanted nodePort item =
     (case item of
        None \<Rightarrow> False
      | Some p \<Rightarrow> kp_name p = epp_name wanted \<and> kp_port p = epp_servicePort wanted \<and>
          kp_nodePort p = nodePort \<and> kp_targetPort p = epp_targetPort wanted)"

fun check_ports :: "int \<Rightarrow> string \<Rightarrow> bool \<Rightarrow> kport option list \<Rightarrow> endpoint_port list \<Rightarrow> gerr + unit" where
  "check_ports lab name isNodePort ports [] = Inr ()"
| "check_ports lab name isNodePort ports (wanted # rest) =
     (case (if isNodePort then PortByName lab (epp_catalogName wanted) else None) of
        None \<Rightarrow>
          if isNodePort then Inl (errorsNew (''unknown catalog endpoint '' @ epp_catalogName wanted))
          else if list_ex (port_matches wanted 0) ports then check_ports lab name isNodePort ports rest
          else Inl (conflict [T ('': '' @ name @ '' service port '' @ epp_name wanted @ '' does not match the catalog endpoint'')])
      | Some catalogPort \<Rightarrow>
          if list_ex (port_matches wanted (NodePort catalogPort)) ports
          then check_ports lab name isNodePort ports rest
          else Inl (conflict [T ('': '' @ name @ '' service port '' @ epp_name wanted @ '' does not match the catalog endpoint'')]))"

definition selector_name :: "endpoint_service \<Rightarrow> string" where
  "selector_name expected = (if es_selectorName expected = [] then es_name expected else es_selectorName expected)"

definition service_type :: "endpoint_service \<Rightarrow> string" where
  "service_type expected = (if es_serviceType expected = [] then ''NodePort'' else es_serviceType expected)"

definition verifyEndpointService :: "kobj \<Rightarrow> int \<Rightarrow> string \<Rightarrow> string \<Rightarrow> endpoint_service \<Rightarrow> gerr + unit" where
  "verifyEndpointService service lab namespace clusterID expected =
     bindS (verifyResourceOwnership service lab namespace clusterID) (\<lambda>_.
     if spec_type service \<noteq> service_type expected \<or>
        lookup_str (spec_selector service) ''app.kubernetes.io/name'' \<noteq> selector_name expected \<or>
        lookup_str (spec_selector service) ''app.kubernetes.io/instance'' \<noteq>
          namespace @ ''-'' @ selector_name expected \<or>
        length (spec_ports service) \<noteq> length (es_ports expected)
     then Inl (conflict [T ('': '' @ es_name expected @ '' service does not match the catalog endpoint'')])
     else check_ports lab (es_name expected) (service_type expected = ''NodePort'') (spec_ports service)
            (es_ports expected))"

section \<open>Pods\<close>

record container_waiting =
  cw_Reason :: string
  cw_Message :: string

record container_terminated =
  ct_Reason :: string
  ct_ExitCode :: int

record container_status =
  ks_Name :: string
  ks_Waiting :: "container_waiting option"
  ks_Terminated :: "container_terminated option"
  ks_LastTerminated :: "container_terminated option"

record pod_condition =
  pc_Type :: string
  pc_Status :: string
  pc_Message :: string

record pod =
  pd_UID :: string
  pd_Labels :: "(string \<times> string) list"
  pd_Deleted :: bool
  pd_Created :: int
  pd_Phase :: string
  pd_Conditions :: "pod_condition list"
  pd_InitContainerStatuses :: "container_status list"
  pd_ContainerStatuses :: "container_status list"

text \<open>
  Times are instants with 0 for Go's zero time; \<open>pe_Series\<close> is \<open>None\<close> for an event without a series.
\<close>

record pod_event =
  pe_UID :: string
  pe_Reason :: string
  pe_Message :: string
  pe_LastTimestamp :: int
  pe_Series :: "int option"
  pe_EventTime :: int
  pe_Created :: int

fun container_detail :: "container_status list \<Rightarrow> string option" where
  "container_detail [] = None"
| "container_detail (c # cs) =
     (let terminated = (case ks_Terminated c of
            Some t \<Rightarrow> if ct_ExitCode t \<noteq> 0
                      then Some (''container '' @ ks_Name c @ '' exited: '' @ ct_Reason t @
                             '' (code '' @ Itoa (ct_ExitCode t) @ '')'')
                      else container_detail cs
          | None \<Rightarrow> container_detail cs)
      in case ks_Waiting c of
           None \<Rightarrow> terminated
         | Some s \<Rightarrow>
             if cw_Reason s \<noteq> ''ContainerCreating'' \<and> cw_Reason s \<noteq> ''PodInitializing''
             then (case ks_LastTerminated c of
                     Some previous \<Rightarrow>
                       if cw_Reason s = ''CrashLoopBackOff''
                       then Some (cw_Reason s @ '': last exit '' @ ct_Reason previous @ '' (code '' @
                              Itoa (ct_ExitCode previous) @ '')'')
                       else Some (cw_Reason s @ '': '' @ cw_Message s)
                   | None \<Rightarrow> Some (cw_Reason s @ '': '' @ cw_Message s))
             else terminated)"

definition podStartupDetail :: "pod \<Rightarrow> pod_event option \<Rightarrow> string" where
  "podStartupDetail p event =
     (case find (\<lambda>c. pc_Type c = ''PodScheduled'' \<and> pc_Status c = ''False'') (pd_Conditions p) of
        Some c \<Rightarrow> ''waiting for scheduling: '' @ pc_Message c
      | None \<Rightarrow>
     (case container_detail (pd_InitContainerStatuses p @ pd_ContainerStatuses p) of
        Some d \<Rightarrow> d
      | None \<Rightarrow>
          if pd_Phase p = ''Running''
          then if list_ex (\<lambda>c. pc_Type c = ''Ready'' \<and> pc_Status c = ''True'') (pd_Conditions p)
               then ''pod ready; waiting for workload update''
               else ''running; waiting for readiness probe''
          else case event of
            Some e \<Rightarrow> if pe_Reason e = ''Pulling''
                      then ''downloading image (or waiting in image pull queue)''
                      else pe_Reason e @ '': '' @ pe_Message e
          | None \<Rightarrow> if pd_Phase p = ''Pending'' then ''preparing pod (volumes, images, containers)''
                    else pd_Phase p))"

definition event_time :: "pod_event \<Rightarrow> int" where
  "event_time e =
     (let w0 = (case pe_Series e of Some t \<Rightarrow> t | None \<Rightarrow> pe_LastTimestamp e);
          w1 = (if w0 = 0 then pe_EventTime e else w0)
      in if w1 = 0 then pe_Created e else w1)"

text \<open>The newest pod per workload name, the latest event per pod; the first wins a tie.\<close>

fun newest_pods :: "string \<Rightarrow> (string \<times> pod) list \<Rightarrow> pod list \<Rightarrow> (string \<times> pod) list" where
  "newest_pods ns acc [] = acc"
| "newest_pods ns acc (p # ps) =
     (let name = lookup_str (pd_Labels p) ''app.kubernetes.io/name'' in
      if pd_Deleted p \<or> lookup_str (pd_Labels p) ''app.kubernetes.io/instance'' \<noteq> ns @ ''-'' @ name
      then newest_pods ns acc ps
      else case map_of acc name of
        None \<Rightarrow> newest_pods ns ((name, p) # acc) ps
      | Some previous \<Rightarrow>
          if pd_Created p > pd_Created previous
          then newest_pods ns ((name, p) # filter (\<lambda>(n, _). n \<noteq> name) acc) ps
          else newest_pods ns acc ps)"

fun latest_events :: "(string \<times> pod_event) list \<Rightarrow> pod_event list \<Rightarrow> (string \<times> pod_event) list" where
  "latest_events acc [] = acc"
| "latest_events acc (e # es) =
     (case map_of acc (pe_UID e) of
        None \<Rightarrow> latest_events ((pe_UID e, e) # acc) es
      | Some previous \<Rightarrow>
          if event_time e > event_time previous
          then latest_events ((pe_UID e, e) # filter (\<lambda>(u, _). u \<noteq> pe_UID e) acc) es
          else latest_events acc es)"

section \<open>Namespaces\<close>

text \<open>
  \<open>fmt.Sscanf(namespace, "tripgo-lab-%02d", &lab)\<close>: the literal prefix, blanks, then a number of at
  most two characters with an optional sign; what follows is not looked at.
\<close>

definition lab_prefix :: string where "lab_prefix = ''tripgo-lab-''"

definition is_blank :: "char \<Rightarrow> bool" where
  "is_blank c \<longleftrightarrow> is_space c \<and> c \<noteq> nl"

definition is_decimal :: "char \<Rightarrow> bool" where
  "is_decimal c \<longleftrightarrow> CHR ''0'' \<le> c \<and> c \<le> CHR ''9''"

definition scan_lab :: "string \<Rightarrow> int option" where
  "scan_lab s =
     (if \<not> HasPrefix s lab_prefix then None
      else let tok = take 2 (dropWhile is_blank (drop (length lab_prefix) s));
               neg = (take 1 tok = ''-'');
               ds = takeWhile is_decimal (if take 1 tok = ''-'' \<or> take 1 tok = ''+'' then drop 1 tok else tok)
           in if ds = [] then None
              else Some (if neg then - int (digits_value ds) else int (digits_value ds)))"

definition labFromNamespace :: "string \<Rightarrow> int option" where
  "labFromNamespace namespace =
     (case scan_lab namespace of
        None \<Rightarrow> None
      | Some lab \<Rightarrow> if lab < 1 \<or> lab > 5 then None
                    else if Namespace lab = Some namespace then Some lab else None)"

section \<open>Theorems\<close>

lemma scan_lab_namespace: "1 \<le> lab \<Longrightarrow> lab \<le> 5 \<Longrightarrow> scan_lab (''tripgo-lab-'' @ pad02 lab) = Some lab"
  by (cases lab rule: lab_cases)
     (simp_all add: scan_lab_def lab_prefix_def HasPrefix_def pad02_def Itoa_def nat_digits_small is_blank_def
       is_space_def is_decimal_def less_eq_char_def digits_value_def char_of_def bit_0)

text \<open>
  \<open>labFromNamespace\<close> recognises exactly the namespaces of the catalog and gives back their lab:
  names with another prefix, more digits, blanks, a sign or trailing text are refused although
  the scanner it uses would accept them.
\<close>
theorem labFromNamespace_inverse:
  "labFromNamespace ns = Some lab \<longleftrightarrow> Namespace lab = Some ns"
proof
  assume "labFromNamespace ns = Some lab"
  then show "Namespace lab = Some ns"
    by (auto simp: labFromNamespace_def split: option.splits if_splits)
next
  assume ns: "Namespace lab = Some ns"
  then have lab: "1 \<le> lab" "lab \<le> 5"
    using componentsByLab_dom [of lab] by (auto simp: Namespace_def split: option.splits)
  with ns have "ns = ''tripgo-lab-'' @ pad02 lab" by (simp add: Namespace_eq)
  with scan_lab_namespace [OF lab] ns lab show "labFromNamespace ns = Some lab"
    by (simp add: labFromNamespace_def)
qed

text \<open>The catalog names behind the node ports that a lab's services are checked for.\<close>

definition served_names :: "int \<Rightarrow> string list" where
  "served_names lab = concat (map (\<lambda>s. if service_type s = ''NodePort'' then map epp_catalogName (es_ports s) else [])
     (endpointServices lab))"

lemma served_names_eq:
  "served_names lab = [''postgres''] @
     (if lab \<ge> 2 then [''otel-grpc'', ''otel-http'', ''jaeger'', ''prometheus'', ''grafana''] else []) @
     (if lab \<ge> 3 then [''push-http'', ''push-grpc''] else []) @
     (if lab \<ge> 4 then [''redpanda-kafka'', ''redpanda-console''] else [])"
  by (simp add: served_names_def endpointServices_def mk_service_def mk_eport_def service_type_def)

lemma component_endpoints:
  "map ep_Name (filter (\<lambda>e. ep_Component e \<in> set cs) endpoints) =
     (if Redpanda \<in> set cs then [''redpanda-console'', ''redpanda-kafka''] else []) @
     (if Postgres \<in> set cs then [''postgres''] else []) @
     (if Observability \<in> set cs then [''grafana'', ''otel-grpc'', ''otel-http'', ''jaeger''] else []) @
     (if Push \<in> set cs then [''push-http'', ''push-grpc''] else []) @
     (if Observability \<in> set cs then [''prometheus''] else [])"
  by (simp add: endpoints_def mk_endpoint_def)

lemma lab_components:
  assumes "1 \<le> lab" and "lab \<le> 5" and "Components lab = Some cs"
  shows "Postgres \<in> set cs" "Observability \<in> set cs \<longleftrightarrow> lab \<ge> 2" "Push \<in> set cs \<longleftrightarrow> lab \<ge> 3"
    "Redpanda \<in> set cs \<longleftrightarrow> lab \<ge> 4"
  using assms by (cases lab rule: lab_cases; force simp: Components_def componentsByLab_def
      Postgres_def Observability_def Push_def Redpanda_def)+

lemma check_ports_conflict:
  assumes "check_ports lab n b ports ws = Inl e"
    and "b \<Longrightarrow> \<forall>x \<in> set ws. PortByName lab (epp_catalogName x) \<noteq> None"
  shows "errors_Is e ErrConflict"
  using assms by (induction ws) (auto split: if_splits option.splits)

lemma PortByName_endpoint:
  assumes "1 \<le> lab" and "lab \<le> 5" and "name \<in> set (map ep_Name endpoints)"
  shows "PortByName lab name \<noteq> None"
  using assms by (auto simp: PortByName_def Ports_eq find_None_iff)

text \<open>
  The services a lab is checked against are those of the catalog: the node ports they expect
  belong, without repetition, to exactly the endpoints of the lab's components, every one of them
  resolves, and so checking a service fails only with a conflict, never for an unknown endpoint.
\<close>
theorem endpointServices_match_catalog:
  assumes "1 \<le> lab" and "lab \<le> 5" and "Components lab = Some cs"
  shows "distinct (served_names lab) \<and>
     set (served_names lab) = ep_Name ` {e \<in> set endpoints. ep_Component e \<in> set cs} \<and>
     (\<forall>s \<in> set (endpointServices lab). case verifyEndpointService service lab ns i s of
        Inl e \<Rightarrow> errors_Is e ErrConflict | Inr _ \<Rightarrow> True)"
proof -
  have "ep_Name ` {e \<in> set endpoints. ep_Component e \<in> set cs} =
      set (map ep_Name (filter (\<lambda>e. ep_Component e \<in> set cs) endpoints))"
    by simp
  then have names: "distinct (served_names lab)"
    "set (served_names lab) = ep_Name ` {e \<in> set endpoints. ep_Component e \<in> set cs}"
    by (auto simp add: component_endpoints served_names_eq lab_components [OF assms])
  have "errors_Is e ErrConflict"
    if "s \<in> set (endpointServices lab)" and "verifyEndpointService service lab ns i s = Inl e" for s e
  proof -
    have "\<forall>x \<in> set (es_ports s). PortByName lab (epp_catalogName x) \<noteq> None"
      if "service_type s = ''NodePort''"
    proof
      fix x assume "x \<in> set (es_ports s)"
      with that \<open>s \<in> set (endpointServices lab)\<close> have "epp_catalogName x \<in> set (served_names lab)"
        by (auto simp: served_names_def)
      then have "epp_catalogName x \<in> set (map ep_Name endpoints)"
        by (auto simp: names(2))
      then show "PortByName lab (epp_catalogName x) \<noteq> None"
        by (rule PortByName_endpoint [OF assms(1,2)])
    qed
    then show ?thesis
      using that(2) by (auto simp: verifyEndpointService_def verifyResourceOwnership_def Let_def
          split: if_splits intro: check_ports_conflict)
  qed
  with names show ?thesis by (auto split: sum.splits)
qed

theorem endpointServices_match_catalog_witness:
  "distinct (served_names 4) \<and> ''redpanda-kafka'' \<in> set (served_names 4) \<and>
   list_all (\<lambda>s. case verifyEndpointService empty_obj 4 ''tripgo-lab-04'' ''id'' s of
      Inl e \<Rightarrow> errors_Is e ErrConflict | Inr _ \<Rightarrow> True) (endpointServices 4)"
proof -
  have "''redpanda-kafka'' \<in> set (served_names 4)"
    by (simp add: served_names_eq)
  with endpointServices_match_catalog [of 4 "[Postgres, Observability, Push, Redpanda]" empty_obj
      "''tripgo-lab-04''" "''id''"]
  show ?thesis by (simp add: Components_def componentsByLab_def list_all_iff)
qed

end
