(* ===== verification/Environment_Config.thy ===== *)
theory Environment_Config
  imports Catalog
begin

text \<open>
  Package \<open>internal/environment\<close>: validation and normalisation of \<open>environment.toml\<close>. The TOML
  decoder (\<open>go-toml/v2\<close>) and reading the file are arguments: \<open>decode\<close> gives a document or one
  of the decoder's error values, \<open>read_file\<close> the bytes or the error of \<open>os.ReadFile\<close>. A Go map
  is iterated in no fixed order, so the \<open>env\<close> table is a list of pairs with distinct keys in
  the order the iteration happens to take. The lemmas characterise exactly which documents are
  accepted, that an accepted configuration is normalised and collision free, and that it does
  not depend on the order of components or of the \<open>env\<close> table.
\<close>

section \<open>Data\<close>

definition SchemaVersion :: int where "SchemaVersion = 1"

record config =
  cf_SchemaVersion :: int
  cf_Lab :: int
  cf_Components :: "component list"
  cf_CustomEnv :: "env_variable list"

record document =
  doc_SchemaVersion :: int
  doc_Lab :: int
  doc_Components :: "string list"
  doc_Env :: "(string \<times> string) list"

text \<open>The error values of the TOML decoder that \<open>decodeError\<close> tells apart.\<close>

record toml_position =
  tp_Line :: int
  tp_Column :: int
  tp_Key :: "string list"

datatype toml_error =
    StrictMissingError "toml_position list" gerr
  | DecodeError toml_position gerr
  | OtherTomlError gerr

section \<open>Operations\<close>

definition EnvironmentVariables :: "config \<Rightarrow> env_variable list" where
  "EnvironmentVariables c =
     (case environment_entry (cf_Lab c) of
        None \<Rightarrow> []
      | Some entry \<Rightarrow> en_Env entry @ cf_CustomEnv c)"

definition is_letter :: "char \<Rightarrow> bool" where
  "is_letter c \<longleftrightarrow> (CHR ''A'' \<le> c \<and> c \<le> CHR ''Z'') \<or> (CHR ''a'' \<le> c \<and> c \<le> CHR ''z'')"

definition is_digit :: "char \<Rightarrow> bool" where
  "is_digit c \<longleftrightarrow> CHR ''0'' \<le> c \<and> c \<le> CHR ''9''"

text \<open>The pattern \<^verbatim>\<open>^[A-Za-z_][A-Za-z0-9_]*$\<close>.\<close>

definition envNamePattern :: "string \<Rightarrow> bool" where
  "envNamePattern s =
     (case s of
        [] \<Rightarrow> False
      | c # cs \<Rightarrow> (is_letter c \<or> c = CHR ''_'') \<and>
          list_all (\<lambda>d. is_letter d \<or> is_digit d \<or> d = CHR ''_'') cs)"

definition quoted_list :: "string list \<Rightarrow> string" where
  "quoted_list xs = ''['' @ Join (map quoted xs) '' '' @ '']''"

definition validationError :: "string \<Rightarrow> string \<Rightarrow> string \<Rightarrow> string \<Rightarrow> gerr" where
  "validationError path field expected actual = ConfigError path field expected actual 0 0 None"

definition keyName :: "string list \<Rightarrow> string" where
  "keyName key = (if key = [] then ''<document>'' else Join key ''.'')"

definition expectedType :: "string \<Rightarrow> string" where
  "expectedType field =
     (if field = ''schema_version'' \<or> field = ''lab'' then ''an integer''
      else if field = ''components'' then ''an array of strings''
      else ''valid TOML'')"

fun decodeError :: "string \<Rightarrow> toml_error \<Rightarrow> gerr" where
  "decodeError path (StrictMissingError (first # rest) err) =
     ConfigError path (keyName (tp_Key first)) ''only schema_version, lab, components, and env fields''
       [] (tp_Line first) (tp_Column first) (Some (errorsNew ''unknown field''))"
| "decodeError path (DecodeError pos err) =
     ConfigError path (keyName (tp_Key pos)) (expectedType (keyName (tp_Key pos)))
       [] (tp_Line pos) (tp_Column pos) (Some err)"
| "decodeError path (StrictMissingError [] err) =
     ConfigError path ''<document>'' ''valid TOML'' [] 0 0 (Some err)"
| "decodeError path (OtherTomlError err) =
     ConfigError path ''<document>'' ''valid TOML'' [] 0 0 (Some err)"

text \<open>The loop over \<open>decoded.Components\<close>: the index, the names seen, the names left.\<close>

fun check_components :: "string \<Rightarrow> nat \<Rightarrow> string list \<Rightarrow> string list \<Rightarrow> gerr option" where
  "check_components path index seen [] = None"
| "check_components path index seen (name # names) =
     (let field = ''components['' @ Itoa (int index) @ '']'' in
      if \<not> IsComponent name
      then Some (validationError path field ''one of postgres, observability, push, redpanda'' (quoted name))
      else if name \<in> set seen
      then Some (validationError path field ''a component that is not already listed''
             (''duplicate '' @ quoted name))
      else check_components path (Suc index) (name # seen) names)"

text \<open>The loop over \<open>decoded.Env\<close>.\<close>

fun check_env :: "string \<Rightarrow> (string \<times> string) list \<Rightarrow> gerr + env_variable list" where
  "check_env path [] = Inr []"
| "check_env path ((name, value) # rest) =
     (let field = ''env.'' @ name in
      if \<not> envNamePattern name
      then Inl (validationError path field ''a name matching [A-Za-z_][A-Za-z0-9_]*'' (quoted name))
      else if IsBuiltInEnvName name
      then Inl (validationError path field ''a name that does not override a built-in variable''
             (''reserved name '' @ quoted name))
      else if ContainsAny value [CHR 0x00, CHR 0x0D, CHR 0x0A]
      then Inl (validationError path field ''a literal single-line string without NUL'' (quoted value))
      else bindS (check_env path rest) (\<lambda>vs. Inr (\<lparr>ev_Name = name, ev_Value = value\<rparr> # vs)))"

definition validate_document :: "string \<Rightarrow> document \<Rightarrow> gerr + config" where
  "validate_document path decoded =
     (if doc_SchemaVersion decoded \<noteq> SchemaVersion
      then Inl (validationError path ''schema_version'' ''integer 1'' (Itoa (doc_SchemaVersion decoded)))
      else case Components (doc_Lab decoded) of
        None \<Rightarrow> Inl (validationError path ''lab'' ''an integer from 1 through 5'' (Itoa (doc_Lab decoded)))
      | Some expected \<Rightarrow>
          if doc_Components decoded = []
          then Inl (validationError path ''components'' ''a non-empty array'' ''empty array'')
          else case check_components path 0 [] (doc_Components decoded) of
            Some e \<Rightarrow> Inl e
          | None \<Rightarrow>
              bindS (check_env path (doc_Env decoded)) (\<lambda>customEnv.
                let sortedEnv = sort_key ev_Name customEnv;
                    actualNames = sort (doc_Components decoded);
                    expectedSorted = sort expected
                in if actualNames \<noteq> expectedSorted
                   then Inl (validationError path ''components''
                          (''set '' @ quoted_list expected @ '' for lab '' @ Itoa (doc_Lab decoded))
                          (''set '' @ quoted_list (doc_Components decoded)))
                   else Inr \<lparr>cf_SchemaVersion = doc_SchemaVersion decoded, cf_Lab = doc_Lab decoded,
                             cf_Components = expected, cf_CustomEnv = sortedEnv\<rparr>))"

definition Parse :: "(string \<Rightarrow> toml_error + document) \<Rightarrow> string \<Rightarrow> string \<Rightarrow> gerr + config" where
  "Parse decode path data =
     (case decode data of
        Inl err \<Rightarrow> Inl (decodeError path err)
      | Inr decoded \<Rightarrow> validate_document path decoded)"

definition ParseFile ::
    "(string \<Rightarrow> gerr + string) \<Rightarrow> (string \<Rightarrow> toml_error + document) \<Rightarrow> string \<Rightarrow> gerr + config" where
  "ParseFile read_file decode path =
     (case read_file path of
        Inl err \<Rightarrow> Inl (ConfigError path ''<file>'' ''a readable environment.toml'' [] 0 0 (Some err))
      | Inr data \<Rightarrow> Parse decode path data)"

section \<open>What is accepted\<close>

definition valid_env :: "string \<times> string \<Rightarrow> bool" where
  "valid_env nv \<longleftrightarrow> envNamePattern (fst nv) \<and> \<not> IsBuiltInEnvName (fst nv) \<and>
     \<not> ContainsAny (snd nv) [CHR 0x00, CHR 0x0D, CHR 0x0A]"

lemma check_components_None:
  "check_components path i seen names = None \<longleftrightarrow>
     list_all IsComponent names \<and> distinct names \<and> set names \<inter> set seen = {}"
  by (induction path i seen names rule: check_components.induct) (auto simp: Let_def)

lemma check_env_Inr:
  "check_env path xs = Inr vs \<longleftrightarrow>
     list_all valid_env xs \<and> vs = map (\<lambda>(n, v). \<lparr>ev_Name = n, ev_Value = v\<rparr>) xs"
  by (induction path xs arbitrary: vs rule: check_env.induct)
     (auto simp: Let_def valid_env_def bindS_Inr_iff)

lemma check_env_total: "(\<exists>vs. check_env path xs = Inr vs) \<longleftrightarrow> list_all valid_env xs"
  by (simp add: check_env_Inr)

lemma Components_valid:
  assumes "Components lab = Some cs"
  shows "cs \<noteq> []" and "distinct cs" and "list_all IsComponent cs"
  using assms
  by (auto simp: Components_def componentsByLab_def IsComponent_def component_defs split: if_splits)

lemma names_env_variables:
  "map ev_Name (map (\<lambda>(n, v). \<lparr>ev_Name = n, ev_Value = v\<rparr>) xs) = map fst xs"
  by (induction xs) auto

lemma validate_document_Inr_iff:
  "validate_document path d = Inr c \<longleftrightarrow>
     doc_SchemaVersion d = SchemaVersion \<and>
     (\<exists>cs. Components (doc_Lab d) = Some cs \<and> distinct (doc_Components d) \<and>
        set (doc_Components d) = set cs \<and> list_all valid_env (doc_Env d) \<and>
        c = \<lparr>cf_SchemaVersion = SchemaVersion, cf_Lab = doc_Lab d, cf_Components = cs,
             cf_CustomEnv = sort_key ev_Name
               (map (\<lambda>(n, v). \<lparr>ev_Name = n, ev_Value = v\<rparr>) (doc_Env d))\<rparr>)"
proof -
  have same: "distinct xs \<and> sort xs = sort cs \<longleftrightarrow> distinct xs \<and> set xs = set cs"
    if "distinct cs" for xs cs :: "string list"
  proof
    assume "distinct xs \<and> sort xs = sort cs"
    then show "distinct xs \<and> set xs = set cs" by (metis set_sort)
  next
    assume "distinct xs \<and> set xs = set cs"
    with that show "distinct xs \<and> sort xs = sort cs"
      by (metis distinct_sort set_sort sorted_distinct_set_unique sorted_sort)
  qed
  show ?thesis
  proof (cases "Components (doc_Lab d)")
    case None
    then show ?thesis by (auto simp: validate_document_def)
  next
    case (Some cs)
    note cs = Components_valid [OF Some]
    have comp: "list_all IsComponent xs \<and> xs \<noteq> [] \<and> distinct xs \<and> sort xs = sort cs \<longleftrightarrow>
        distinct xs \<and> set xs = set cs" for xs
      using same [OF cs(2), of xs] cs(1,3) by (auto simp: list_all_iff)
    show ?thesis
    proof (cases "check_components path 0 [] (doc_Components d)")
      case None
      then have "list_all IsComponent (doc_Components d)" "distinct (doc_Components d)"
        by (simp_all add: check_components_None)
      with None Some comp [of "doc_Components d"] show ?thesis
        by (auto simp: validate_document_def check_env_Inr bindS_Inr_iff Let_def)
    next
      case (Some e)
      then have "\<not> (list_all IsComponent (doc_Components d) \<and> distinct (doc_Components d))"
        using check_components_None [of path 0 "[]" "doc_Components d"] by auto
      with Some \<open>Components (doc_Lab d) = Some cs\<close> comp [of "doc_Components d"] show ?thesis
        by (auto simp: validate_document_def)
    qed
  qed
qed

text \<open>
  C19: \<open>Parse\<close> accepts a decoded document exactly when its schema version is 1, its lab is in
  the catalog, its components are that lab's set without repetition, and every custom variable
  has a well-formed name that no lab reserves and a value without NUL, CR and LF; the result then
  holds the catalog's components and the custom variables sorted by name.
\<close>
theorem Parse_accepts_iff:
  "Parse decode path data = Inr c \<longleftrightarrow>
     (\<exists>d cs. decode data = Inr d \<and> doc_SchemaVersion d = SchemaVersion \<and>
        Components (doc_Lab d) = Some cs \<and> distinct (doc_Components d) \<and>
        set (doc_Components d) = set cs \<and> list_all valid_env (doc_Env d) \<and>
        c = \<lparr>cf_SchemaVersion = SchemaVersion, cf_Lab = doc_Lab d, cf_Components = cs,
             cf_CustomEnv = sort_key ev_Name
               (map (\<lambda>(n, v). \<lparr>ev_Name = n, ev_Value = v\<rparr>) (doc_Env d))\<rparr>)"
  by (auto simp: Parse_def validate_document_Inr_iff split: sum.splits)

text \<open>A configuration as the parser leaves it, the contract its callers rely on.\<close>

definition normalized :: "config \<Rightarrow> bool" where
  "normalized c \<longleftrightarrow>
     cf_SchemaVersion c = SchemaVersion \<and> 1 \<le> cf_Lab c \<and> cf_Lab c \<le> 5 \<and>
     Components (cf_Lab c) = Some (cf_Components c) \<and>
     sorted (map ev_Name (cf_CustomEnv c)) \<and> distinct (map ev_Name (cf_CustomEnv c)) \<and>
     list_all (\<lambda>v. valid_env (ev_Name v, ev_Value v)) (cf_CustomEnv c)"

lemma validate_document_normalized:
  assumes "validate_document path d = Inr c" and "distinct (map fst (doc_Env d))"
  shows "normalized c"
proof -
  let ?vs = "map (\<lambda>(n, v). \<lparr>ev_Name = n, ev_Value = v\<rparr>) (doc_Env d)"
  from assms(1) obtain cs where cs: "Components (doc_Lab d) = Some cs"
    and env: "list_all valid_env (doc_Env d)"
    and c: "c = \<lparr>cf_SchemaVersion = SchemaVersion, cf_Lab = doc_Lab d, cf_Components = cs,
             cf_CustomEnv = sort_key ev_Name ?vs\<rparr>"
    by (auto simp: validate_document_Inr_iff)
  have lab: "1 \<le> doc_Lab d \<and> doc_Lab d \<le> 5" using cs Components_iff by blast
  have "distinct (map ev_Name (sort_key ev_Name ?vs))"
    using assms(2) by (simp only: distinct_map_sort_key names_env_variables)
  moreover have "list_all (\<lambda>v. valid_env (ev_Name v, ev_Value v)) (sort_key ev_Name ?vs)"
    using env by (auto simp: list_all_iff)
  ultimately show ?thesis using cs lab by (simp add: normalized_def c)
qed

lemma normalized_names:
  assumes "normalized c"
  shows "map ev_Name (EnvironmentVariables c) = env_names (cf_Lab c) @ map ev_Name (cf_CustomEnv c)"
proof -
  have "1 \<le> cf_Lab c" "cf_Lab c \<le> 5" using assms by (auto simp: normalized_def)
  then obtain e where "environment_entry (cf_Lab c) = Some e" by (rule environment_entry_Some)
  then show ?thesis by (simp add: EnvironmentVariables_def env_names_def)
qed

lemma env_names_reserved:
  assumes "1 \<le> lab" and "lab \<le> 5" and "name \<in> set (env_names lab)"
  shows "IsBuiltInEnvName name"
  using assms(3) by (auto simp: IsBuiltInEnvName_iff env_names_take [OF assms(1,2)] dest: in_set_takeD)

lemma distinct_env_names:
  assumes "1 \<le> lab" and "lab \<le> 5"
  shows "distinct (env_names lab)"
  by (subst env_names_take [OF assms]) (simp add: distinct_env_names_5)

text \<open>
  The variables of an accepted configuration, the built-in ones of its lab followed by the
  custom ones, have pairwise distinct names, whatever the document: the \<open>.env\<close> file never
  defines a name twice and a custom variable never overrides a built-in one.
\<close>
theorem EnvironmentVariables_distinct:
  assumes "decode data = Inr d" and "distinct (map fst (doc_Env d))"
    and "Parse decode path data = Inr c"
  shows "distinct (map ev_Name (EnvironmentVariables c))"
proof -
  from assms have "validate_document path d = Inr c" by (simp add: Parse_def)
  then have norm: "normalized c" using assms(2) by (rule validate_document_normalized)
  then have lab: "1 \<le> cf_Lab c" "cf_Lab c \<le> 5" by (auto simp: normalized_def)
  have "\<not> IsBuiltInEnvName name" if "name \<in> set (map ev_Name (cf_CustomEnv c))" for name
    using norm that by (auto simp: normalized_def list_all_iff valid_env_def)
  then have "set (env_names (cf_Lab c)) \<inter> set (map ev_Name (cf_CustomEnv c)) = {}"
    using env_names_reserved [OF lab] by blast
  moreover have "distinct (env_names (cf_Lab c))" using lab by (rule distinct_env_names)
  moreover have "distinct (map ev_Name (cf_CustomEnv c))" using norm by (simp only: normalized_def)
  ultimately show ?thesis by (simp only: normalized_names [OF norm] distinct_append)
qed

definition sample_document :: document where
  "sample_document = \<lparr>doc_SchemaVersion = 1, doc_Lab = 2,
     doc_Components = [''observability'', ''postgres''],
     doc_Env = [(''ZETA'', ''1''), (''ALPHA'', ''two words'')]\<rparr>"

lemma sample_parse:
  "Parse (\<lambda>_. Inr sample_document) path data = Inr
     \<lparr>cf_SchemaVersion = 1, cf_Lab = 2, cf_Components = [''postgres'', ''observability''],
      cf_CustomEnv = [\<lparr>ev_Name = ''ALPHA'', ev_Value = ''two words''\<rparr>,
                      \<lparr>ev_Name = ''ZETA'', ev_Value = ''1''\<rparr>]\<rparr>"
proof -
  have "list_all valid_env (doc_Env sample_document)"
    by (simp add: sample_document_def valid_env_def IsBuiltInEnvName_iff env_names_5
        envNamePattern_def is_letter_def ContainsAny_def)
  then show ?thesis
    by (simp add: Parse_def validate_document_Inr_iff)
       (simp add: sample_document_def SchemaVersion_def Components_def componentsByLab_def
         component_defs insert_commute)
qed

theorem EnvironmentVariables_distinct_witness:
  "distinct (map ev_Name (EnvironmentVariables
     \<lparr>cf_SchemaVersion = 1, cf_Lab = 2, cf_Components = [''postgres'', ''observability''],
      cf_CustomEnv = [\<lparr>ev_Name = ''ALPHA'', ev_Value = ''two words''\<rparr>,
                      \<lparr>ev_Name = ''ZETA'', ev_Value = ''1''\<rparr>]\<rparr>))"
  by (rule EnvironmentVariables_distinct [of "\<lambda>_. Inr sample_document" _ sample_document, OF _ _ sample_parse])
     (simp_all add: sample_document_def)

text \<open>
  The result does not depend on the order in which the document lists its components nor on
  the order in which the iteration over the \<open>env\<close> map happens to visit its entries.
\<close>
theorem Parse_order_independent:
  assumes "decode data = Inr d" and "decode' data' = Inr (d\<lparr>doc_Components := cs', doc_Env := env'\<rparr>)"
    and "mset cs' = mset (doc_Components d)" and "mset env' = mset (doc_Env d)"
    and "distinct (map fst (doc_Env d))"
    and "Parse decode path data = Inr c"
  shows "Parse decode' path data' = Inr c"
proof -
  let ?f = "\<lambda>(n, v). \<lparr>ev_Name = n, ev_Value = v :: string\<rparr>"
  from assms(1,6) obtain cs where ok: "doc_SchemaVersion d = SchemaVersion"
    "Components (doc_Lab d) = Some cs" "distinct (doc_Components d)" "set (doc_Components d) = set cs"
    "list_all valid_env (doc_Env d)"
    and c: "c = \<lparr>cf_SchemaVersion = SchemaVersion, cf_Lab = doc_Lab d, cf_Components = cs,
             cf_CustomEnv = sort_key ev_Name (map ?f (doc_Env d))\<rparr>"
    by (auto simp: Parse_def validate_document_Inr_iff)
  have "sort_key ev_Name (map ?f (doc_Env d)) = sort_key ev_Name (map ?f env')"
    using assms(4,5) by (intro sort_key_unique) (simp_all only: names_env_variables mset_map)
  moreover have "distinct cs'" "set cs' = set cs"
    using assms(3) ok(3,4) by (metis mset_eq_imp_distinct_iff, metis mset_eq_setD)
  moreover have "list_all valid_env env'"
    using assms(4) ok(5) by (metis list_all_iff mset_eq_setD)
  ultimately show ?thesis using assms(2) ok by (simp add: Parse_def validate_document_Inr_iff c)
qed

theorem Parse_order_independent_witness:
  "Parse (\<lambda>_. Inr (sample_document\<lparr>doc_Components := [''postgres'', ''observability''],
       doc_Env := [(''ALPHA'', ''two words''), (''ZETA'', ''1'')]\<rparr>)) ''environment.toml'' [] = Inr
     \<lparr>cf_SchemaVersion = 1, cf_Lab = 2, cf_Components = [''postgres'', ''observability''],
      cf_CustomEnv = [\<lparr>ev_Name = ''ALPHA'', ev_Value = ''two words''\<rparr>,
                      \<lparr>ev_Name = ''ZETA'', ev_Value = ''1''\<rparr>]\<rparr>"
  by (rule Parse_order_independent [where d = sample_document and
        decode = "\<lambda>_. Inr sample_document" and cs' = "[''postgres'', ''observability'']" and
        env' = "[(''ALPHA'', ''two words''), (''ZETA'', ''1'')]", OF _ _ _ _ _ sample_parse])
     (simp_all add: sample_document_def add_mset_commute)

text \<open>Every failure of the parser is a configuration error.\<close>

lemma check_components_ConfigError:
  "check_components path i seen xs = Some e \<Longrightarrow> is_ConfigError e"
  by (induction path i seen xs rule: check_components.induct)
     (auto simp: Let_def validationError_def split: if_splits)

lemma check_env_ConfigError: "check_env path xs = Inl e \<Longrightarrow> is_ConfigError e"
  by (induction path xs rule: check_env.induct)
     (auto simp: Let_def validationError_def bindS_def split: if_splits sum.splits)

lemma decodeError_ConfigError [simp]: "is_ConfigError (decodeError path e)"
  by (induction path e rule: decodeError.induct) simp_all

lemma validate_document_ConfigError:
  "validate_document path d = Inl e \<Longrightarrow> is_ConfigError e"
  by (auto simp: validate_document_def validationError_def bindS_def Let_def
      dest: check_components_ConfigError check_env_ConfigError
      split: if_splits option.splits sum.splits)

lemma ParseFile_ConfigError: "ParseFile read_file decode path = Inl e \<Longrightarrow> is_ConfigError e"
  by (auto simp: ParseFile_def Parse_def dest: validate_document_ConfigError split: sum.splits)

end
