(* ===== verification/Redpanda_Config.thy ===== *)
theory Redpanda_Config
  imports Prelude
begin

text \<open>
  \<open>internal/redpanda/config.go\<close>: the topic table, the reconciliation script and the data of the
  ConfigMap that carries both. The script is shell code that runs in a pod; here it is the text
  the Go code embeds and compares, its behaviour is not modelled.
\<close>

definition dq :: string where "dq = [CHR 0x22]"
definition sq :: string where "sq = [CHR 0x27]"

definition unlines :: "string list \<Rightarrow> string" where
  "unlines ls = concat (map (\<lambda>l. l @ [nl]) ls)"

definition Topics :: string where
  "Topics = unlines [''trip.events.v1=3'', ''trip.commands.v1=3'', ''trip.commands.v1.dlq=1'']"

definition ReconcileScript :: string where
  "ReconcileScript = unlines
    [''#!/bin/bash'',
     ''set -euo pipefail'',
     ''broker=redpanda:9092'',
     ''reconcile() {'',
     ''  rm -f /tmp/topics-ready'',
     ''  while IFS== read -r topic desired; do'',
     ''    [ -n '' @ dq @ ''$topic'' @ dq @ '' ] || continue'',
     ''    if ! rpk topic list --brokers '' @ dq @ ''$broker'' @ dq @ '' | awk -v wanted='' @ dq @ ''$topic'' @ dq @
       '' '' @ sq @ ''$1 == wanted {found=1} END {exit !found}'' @ sq @ ''; then'',
     ''      rpk topic create '' @ dq @ ''$topic'' @ dq @ '' --partitions '' @ dq @ ''$desired'' @ dq @
       '' --replicas 1 --brokers '' @ dq @ ''$broker'' @ dq,
     ''      current=$desired'',
     ''    else'',
     ''      rpk topic describe '' @ dq @ ''$topic'' @ dq @ '' -p --brokers '' @ dq @ ''$broker'' @ dq @ '' >/tmp/partitions'',
     ''      # The partition table has one numeric data row per partition.'',
     ''      current=$(awk '' @ sq @ ''$1 ~ /^[0-9]+$/ {count++} END {print count+0}'' @ sq @ '' /tmp/partitions)'',
     ''    fi'',
     ''    if [ '' @ dq @ ''$current'' @ dq @ '' -lt '' @ dq @ ''$desired'' @ dq @ '' ]; then'',
     ''      rpk topic add-partitions '' @ dq @ ''$topic'' @ dq @ '' --num '' @ dq @ ''$((desired-current))'' @ dq @
       '' --brokers '' @ dq @ ''$broker'' @ dq,
     ''    elif [ '' @ dq @ ''$current'' @ dq @ '' -gt '' @ dq @ ''$desired'' @ dq @ '' ]; then'',
     ''      echo '' @ dq @ ''topic $topic has $current partitions; refusing destructive reduction to $desired'' @ dq @ '' >&2'',
     ''      return 1'',
     ''    fi'',
     ''  done </config/topics'',
     ''  touch /tmp/topics-ready'',
     ''}'',
     ''while true; do'',
     ''  reconcile'',
     ''  sleep 15'',
     ''done'']"

definition ConfigMapData :: "(string \<times> string) list" where
  "ConfigMapData = [(''topics'', Topics), (''reconcile.sh'', ReconcileScript)]"

end
