(* ===== verification/Generator.thy ===== *)
theory Generator
  imports Environment_Config Redpanda_Config World
begin

text \<open>
  \<open>internal/generator\<close>: choosing and rendering the manifests of a lab (\<open>generator.go\<close>) and
  replacing \<open>.tripgo/rendered\<close> on disk (\<open>write.go\<close>). The template engine with the embedded
  templates is the argument \<open>A\<close>: the outcome of parsing the templates and, per template name and
  model, the rendered text. The theorems show that every configuration the parser accepts is
  rendered (the catalog has no gap), that every image handed to a template is pinned by digest,
  and what \<open>Write\<close> leaves on disk whatever call fails.
\<close>

section \<open>Data\<close>

record options =
  op_TripgoctlVersion :: string
  op_ClusterID :: string
  op_PushImageReference :: string
  op_WorkloadReplicas :: "int option"

record gfile =
  gf_Name :: string
  gf_Content :: string

type_synonym gbundle = "gfile list"

record gmodel =
  gm_Namespace :: string
  gm_Lab :: int
  gm_LabLabel :: string
  gm_Version :: string
  gm_ClusterID :: string
  gm_WorkloadReplicas :: int
  gm_Images :: "(string \<times> string) list"
  gm_Ports :: "(string \<times> port) list"
  gm_RedpandaTopics :: string
  gm_ReconcileScript :: string

record templates =
  tm_parse :: "gerr option"
  tm_render :: "string \<Rightarrow> gmodel \<Rightarrow> gerr + string"

section \<open>Image references\<close>

definition is_lower_hex :: "char \<Rightarrow> bool" where
  "is_lower_hex c \<longleftrightarrow> (CHR ''0'' \<le> c \<and> c \<le> CHR ''9'') \<or> (CHR ''a'' \<le> c \<and> c \<le> CHR ''f'')"

definition is_ref_start :: "char \<Rightarrow> bool" where
  "is_ref_start c \<longleftrightarrow> (CHR ''0'' \<le> c \<and> c \<le> CHR ''9'') \<or> (CHR ''a'' \<le> c \<and> c \<le> CHR ''z'')"

definition is_ref_char :: "char \<Rightarrow> bool" where
  "is_ref_char c \<longleftrightarrow> is_ref_start c \<or> c \<in> set ''.:/_-''"

text \<open>\<^verbatim>\<open>sha256:[0-9a-f]{64}\<close>, the part of a reference after the at sign.\<close>

definition sha256_digest :: "string \<Rightarrow> bool" where
  "sha256_digest d \<longleftrightarrow> HasPrefix d ''sha256:'' \<and> length (drop 7 d) = 64 \<and> list_all is_lower_hex (drop 7 d)"

text \<open>
  \<^verbatim>\<open>^[a-z0-9][a-z0-9.:/_-]*@sha256:[0-9a-f]{64}$\<close>: the repository has no at sign, so the first
  one separates it from the digest.
\<close>

definition immutableImagePattern :: "string \<Rightarrow> bool" where
  "immutableImagePattern s =
     (case Cut s (CHR ''@'') of
        None \<Rightarrow> False
      | Some (repo, d) \<Rightarrow>
          (case repo of [] \<Rightarrow> False | c # cs \<Rightarrow> is_ref_start c \<and> list_all is_ref_char cs) \<and> sha256_digest d)"

section \<open>Generate\<close>

definition add_image :: "options \<Rightarrow> string \<Rightarrow> (string \<times> string) list \<Rightarrow> gerr + (string \<times> string) list" where
  "add_image opts name imgs =
     (case ImageByName name of
        None \<Rightarrow> Inl (errorsNew (''generator: image '' @ quoted name @ '' is absent from catalog''))
      | Some im \<Rightarrow>
          let reference = (if name = ''push-service'' \<and> Reference im = [] then op_PushImageReference opts
                           else Reference im)
          in if \<not> immutableImagePattern reference
             then if name = ''push-service'' \<and> reference = []
                  then Inl (errorsNew ''generator: Push Service image is absent from the managed local registry; a trusted digest reference is required'')
                  else Inl (errorsNew (''generator: image '' @ quoted name @ '' does not have a valid immutable reference''))
             else if name = ''push-service'' \<and> \<not> HasPrefix reference (LocalPushImageRepository @ ''@sha256:'')
             then Inl (errorsNew (''generator: Push Service image must come from managed local repository '' @ quoted LocalPushImageRepository))
             else Inr (imgs @ [(name, reference)]))"

fun add_images :: "options \<Rightarrow> string list \<Rightarrow> (string \<times> string) list \<Rightarrow> gerr + (string \<times> string) list" where
  "add_images opts [] imgs = Inr imgs"
| "add_images opts (n # ns) imgs =
     (if n \<in> fst ` set imgs then add_images opts ns imgs
      else bindS (add_image opts n imgs) (add_images opts ns))"

record manifest =
  mf_name :: string
  mf_template :: string
  mf_images :: "string list"

definition mk_manifest :: "string \<Rightarrow> string list \<Rightarrow> manifest" where
  "mk_manifest n imgs = \<lparr>mf_name = n @ ''.yaml'', mf_template = n @ ''.yaml.tmpl'', mf_images = imgs\<rparr>"

definition component_manifests :: "component \<Rightarrow> gerr + manifest list" where
  "component_manifests c =
     (if c = Postgres then Inr [mk_manifest ''postgres'' [''postgres'']]
      else if c = Observability
      then Inr [mk_manifest ''observability'' [''otel-collector'', ''prometheus'', ''grafana'', ''jaeger'', ''loki'']]
      else if c = Push then Inr [mk_manifest ''push'' [''push-service'']]
      else if c = Redpanda
      then Inr [mk_manifest ''redpanda'' [''redpanda'', ''redpanda-console''], mk_manifest ''topics'' []]
      else Inl (errorsNew (''generator: unsupported component '' @ quoted c)))"

fun select_manifests :: "component list \<Rightarrow> gerr + manifest list" where
  "select_manifests [] = Inr []"
| "select_manifests (c # cs) =
     bindS (component_manifests c) (\<lambda>ms. bindS (select_manifests cs) (\<lambda>rest. Inr (ms @ rest)))"

definition with_newline :: "string \<Rightarrow> string" where
  "with_newline content = (if content = [] \<or> last content \<noteq> nl then content @ [nl] else content)"

fun render_manifests :: "templates \<Rightarrow> options \<Rightarrow> gmodel \<Rightarrow> manifest list \<Rightarrow> gerr + gbundle" where
  "render_manifests A opts data [] = Inr []"
| "render_manifests A opts data (m # ms) =
     bindS (add_images opts (mf_images m) (gm_Images data)) (\<lambda>imgs.
     let data' = data\<lparr>gm_Images := imgs\<rparr> in
     case tm_render A (mf_template m) data' of
       Inl e \<Rightarrow> Inl (Errorf [T (''generator: render '' @ mf_name m @ '': ''), W e])
     | Inr text \<Rightarrow>
         bindS (render_manifests A opts data' ms) (\<lambda>rest.
           Inr (\<lparr>gf_Name = mf_name m, gf_Content = with_newline text\<rparr> # rest)))"

definition initial_model :: "environment \<Rightarrow> int \<Rightarrow> options \<Rightarrow> int \<Rightarrow> gmodel" where
  "initial_model entry lab opts replicas =
     \<lparr>gm_Namespace = en_Namespace entry, gm_Lab = lab, gm_LabLabel = pad02 lab,
      gm_Version = op_TripgoctlVersion opts, gm_ClusterID = op_ClusterID opts,
      gm_WorkloadReplicas = replicas, gm_Images = [],
      gm_Ports = map (\<lambda>p. (ep_Name p, p)) (en_Ports entry),
      gm_RedpandaTopics = Topics, gm_ReconcileScript = ReconcileScript\<rparr>"

definition replica_count :: "options \<Rightarrow> gerr + int" where
  "replica_count opts =
     (case op_WorkloadReplicas opts of
        None \<Rightarrow> Inr 1
      | Some n \<Rightarrow> if n < 0 \<or> n > 1
                  then Inl (errorsNew (''generator: unsupported workload replica count '' @ Itoa n))
                  else Inr n)"

definition Generate :: "templates \<Rightarrow> config \<Rightarrow> options \<Rightarrow> gerr + gbundle" where
  "Generate A c opts =
     (if op_TripgoctlVersion opts = [] then Inl (errorsNew ''generator: tripgoctl version is required'')
      else if op_ClusterID opts = [] then Inl (errorsNew ''generator: cluster identity is required'')
      else if cf_SchemaVersion c \<noteq> SchemaVersion
      then Inl (errorsNew (''generator: unsupported schema version '' @ Itoa (cf_SchemaVersion c)))
      else case environment_entry (cf_Lab c) of
        None \<Rightarrow> Inl (errorsNew (''generator: unsupported lab '' @ Itoa (cf_Lab c)))
      | Some entry \<Rightarrow>
          if cf_Components c \<noteq> en_Components entry
          then Inl (errorsNew ''generator: configuration components are not normalized for the selected lab'')
          else
          bindS (replica_count opts) (\<lambda>replicas.
          bindS (select_manifests (cf_Components c)) (\<lambda>selected.
          case tm_parse A of
            Some e \<Rightarrow> Inl (Errorf [T ''generator: parse embedded templates: '', W e])
          | None \<Rightarrow> render_manifests A opts (initial_model entry (cf_Lab c) opts replicas)
                      (mk_manifest ''namespace'' [] # selected))))"

section \<open>Write\<close>

definition legacyLockMarker :: string where
  "legacyLockMarker = ''# Generated by tripgoctl. Do not edit manually.'' @ [nl]"

definition is_regular :: "node \<Rightarrow> bool" where
  "is_regular n = (case n of RegFile _ _ \<Rightarrow> True | _ \<Rightarrow> False)"

definition ensureOutputDirectory :: "outside \<Rightarrow> path \<Rightarrow> unit io" where
  "ensureOutputDirectory E target =
     tryE (lstat E target) (\<lambda>r. case r of
       Inl e \<Rightarrow> if errors_Is e ErrNotExist
                then wrapE (\<lambda>e. Errorf [T ''generator: create output directory: '', W e]) (mkdirAll E target)
                else failE (Errorf [T ''generator: inspect output directory: '', W e])
     | Inr info \<Rightarrow> if info \<noteq> Dir then failE (errorsNew (''generator: output path '' @ quoted (path_text target) @ '' is not a directory''))
                   else retE ())"

definition removeLegacyLock :: "outside \<Rightarrow> path \<Rightarrow> unit io" where
  "removeLegacyLock E target =
     (let p = target @ [''environment.lock''] in
      tryE (lstat E p) (\<lambda>r. case r of
        Inl e \<Rightarrow> if errors_Is e ErrNotExist then retE ()
                 else failE (Errorf [T ''generator: inspect legacy environment.lock: '', W e])
      | Inr info \<Rightarrow>
          if \<not> is_regular info then retE ()
          else
          bindE (wrapE (\<lambda>e. Errorf [T ''generator: read legacy environment.lock: '', W e]) (readFile E p)) (\<lambda>content.
          if \<not> HasPrefix content legacyLockMarker then retE ()
          else tryE (removeE E p) (\<lambda>r. case r of
            Inl e \<Rightarrow> if errors_Is e ErrNotExist then retE ()
                     else failE (Errorf [T ''generator: remove legacy environment.lock: '', W e])
          | Inr _ \<Rightarrow> retE ()))))"

text \<open>
  \<open>filepath.Base(name) == name\<close> and not \<open>"."\<close>, and \<open>filepath.Join\<close> with such a name, which cleans
  the path.
\<close>

definition plain_name :: "string \<Rightarrow> bool" where
  "plain_name n \<longleftrightarrow> n = ''/'' \<or> n \<noteq> [] \<and> n \<noteq> ''.'' \<and> CHR ''/'' \<notin> set n"

definition join_name :: "path \<Rightarrow> string \<Rightarrow> path" where
  "join_name dir n = (if n = ''/'' then dir else if n = ''..'' then butlast dir else dir @ [n])"

definition write_rendered :: "outside \<Rightarrow> path \<Rightarrow> gfile \<Rightarrow> unit io" where
  "write_rendered E dir file =
     (if \<not> plain_name (gf_Name file)
      then failE (errorsNew (''generator: invalid rendered filename '' @ quoted (gf_Name file)))
      else wrapE (\<lambda>e. Errorf [T (''generator: write '' @ gf_Name file @ '': ''), W e])
             (osWriteFile E (join_name dir (gf_Name file)) (gf_Content file) mode0600))"

text \<open>Moving the previous output aside; the result tells whether there was any.\<close>

definition preserve_rendered :: "outside \<Rightarrow> path \<Rightarrow> path \<Rightarrow> bool io" where
  "preserve_rendered E rendered backup =
     tryE (lstat E rendered) (\<lambda>r. case r of
       Inr info \<Rightarrow>
         if info \<noteq> Dir then failE (errorsNew (''generator: rendered path '' @ quoted (path_text rendered) @ '' is not a directory''))
         else bindE (wrapE (\<lambda>e. Errorf [T ''generator: preserve previous rendered output: '', W e])
                (renameE E rendered backup)) (\<lambda>_. retE True)
     | Inl e \<Rightarrow> if errors_Is e ErrNotExist then retE False
                else failE (Errorf [T ''generator: inspect rendered output: '', W e]))"

definition install_rendered :: "outside \<Rightarrow> path \<Rightarrow> path \<Rightarrow> path \<Rightarrow> bool \<Rightarrow> unit io" where
  "install_rendered E temporary rendered backup existed =
     tryE (renameE E temporary rendered) (\<lambda>r. case r of
       Inr _ \<Rightarrow> retE ()
     | Inl e \<Rightarrow> bindE (whenE existed (ignoreE (renameE E backup rendered))) (\<lambda>_.
                failE (Errorf [T ''generator: install rendered output: '', W e])))"

definition generator_Write :: "outside \<Rightarrow> path \<Rightarrow> gbundle \<Rightarrow> unit io" where
  "generator_Write E target rendering =
     (if target = [] then failE (errorsNew ''generator: output directory is required'')
      else
      bindE (ensureOutputDirectory E target) (\<lambda>_.
      bindE (wrapE (\<lambda>e. Errorf [T ''generator: create temporary rendered directory: '', W e])
               (mkdirTemp E target ''.rendered-new-'')) (\<lambda>temporary.
      deferE (ignoreE (removeAll E temporary)) (
        bindE (forE rendering (write_rendered E temporary)) (\<lambda>_.
        let rendered = target @ [''rendered''] in
        bindE (wrapE (\<lambda>e. Errorf [T ''generator: reserve rendered backup: '', W e])
                 (mkdirTemp E target ''.rendered-previous-'')) (\<lambda>backup.
        bindE (wrapE (\<lambda>e. Errorf [T ''generator: prepare rendered backup: '', W e]) (removeE E backup)) (\<lambda>_.
        deferE (ignoreE (removeAll E backup)) (
          bindE (preserve_rendered E rendered backup) (\<lambda>existed.
          bindE (install_rendered E temporary rendered backup existed) (\<lambda>_.
          bindE (whenE existed
                   (wrapE (\<lambda>e. Errorf [T ''generator: remove previous rendered output: '', W e]) (removeAll E backup))) (\<lambda>_.
          removeLegacyLock E target)))))))))))"

section \<open>Every catalog image is pinned\<close>

definition pinned_names :: "string list" where
  "pinned_names = [''postgres'', ''otel-collector'', ''prometheus'', ''grafana'', ''jaeger'', ''loki'',
     ''redpanda'', ''redpanda-console'']"

lemma immutable_append:
  "r \<noteq> [] \<Longrightarrow> is_ref_start (hd r) \<Longrightarrow> list_all is_ref_char (tl r) \<Longrightarrow> sha256_digest d \<Longrightarrow>
   immutableImagePattern (r @ ''@'' @ d)"
proof -
  assume r: "r \<noteq> []" "is_ref_start (hd r)" "list_all is_ref_char (tl r)" and d: "sha256_digest d"
  have "CHR ''@'' \<notin> set r"
    using r by (cases r) (auto simp: is_ref_start_def is_ref_char_def list_all_iff less_eq_char_def)
  then show ?thesis
    using r d Cut_append [of "CHR ''@''" r d] by (cases r) (simp_all add: immutableImagePattern_def)
qed

lemma catalog_images_pinned:
  "list_all (\<lambda>n. case ImageByName n of None \<Rightarrow> False
     | Some im \<Rightarrow> Published im \<and> Repository im \<noteq> [] \<and> is_ref_start (hd (Repository im)) \<and>
         list_all is_ref_char (tl (Repository im)) \<and> sha256_digest (Digest im)) pinned_names"
  by (simp add: pinned_names_def ImageByName_def images_def mk_image_def sha256_digest_def
      HasPrefix_def is_ref_start_def is_ref_char_def is_lower_hex_def less_eq_char_def)

section \<open>What the templates see\<close>

text \<open>A model all of whose images are pinned by digest, the Push Service in the managed registry.\<close>

definition pinned_image :: "string \<times> string \<Rightarrow> bool" where
  "pinned_image nr \<longleftrightarrow> immutableImagePattern (snd nr) \<and>
     (fst nr = ''push-service'' \<longrightarrow> HasPrefix (snd nr) (LocalPushImageRepository @ ''@sha256:''))"

definition pinned :: "gmodel \<Rightarrow> bool" where
  "pinned m \<longleftrightarrow> list_all pinned_image (gm_Images m)"

lemma add_image_pinned:
  "add_image opts n imgs = Inr imgs' \<Longrightarrow> list_all pinned_image imgs \<Longrightarrow> list_all pinned_image imgs'"
  by (auto simp: add_image_def pinned_image_def Let_def split: option.splits if_splits)

lemma add_images_pinned:
  "add_images opts ns imgs = Inr imgs' \<Longrightarrow> list_all pinned_image imgs \<Longrightarrow> list_all pinned_image imgs'"
proof (induction ns arbitrary: imgs)
  case (Cons n ns)
  then show ?case
    by (cases "add_image opts n imgs") (auto split: if_splits dest: add_image_pinned)
qed simp

definition same_on_pinned :: "templates \<Rightarrow> templates \<Rightarrow> bool" where
  "same_on_pinned A B \<longleftrightarrow> tm_parse A = tm_parse B \<and>
     (\<forall>t m. pinned m \<longrightarrow> tm_render A t m = tm_render B t m)"

lemma render_manifests_pinned:
  assumes "same_on_pinned A B" and "pinned data"
  shows "render_manifests A opts data ms = render_manifests B opts data ms"
  using assms(2)
proof (induction ms arbitrary: data)
  case (Cons m ms)
  show ?case
  proof (cases "add_images opts (mf_images m) (gm_Images data)")
    case (Inr imgs)
    then have ok: "pinned (data\<lparr>gm_Images := imgs\<rparr>)"
      using Cons.prems add_images_pinned by (simp add: pinned_def)
    then have "tm_render A t (data\<lparr>gm_Images := imgs\<rparr>) = tm_render B t (data\<lparr>gm_Images := imgs\<rparr>)" for t
      using assms(1) by (simp add: same_on_pinned_def)
    then show ?thesis
      using Inr Cons.IH [OF ok] by (simp add: Let_def split: sum.splits)
  qed simp
qed simp

text \<open>
  C24: \<open>Generate\<close> hands a template only models in which every image reference is pinned by a sha256
  digest and the Push Service comes from the managed local repository: two template engines that
  agree on such models give the same result for every configuration and all options.
\<close>
theorem Generate_only_pinned:
  assumes "same_on_pinned A B"
  shows "Generate A c opts = Generate B c opts"
proof -
  have "pinned (initial_model e l opts r)" for e l r
    by (simp add: pinned_def initial_model_def)
  from render_manifests_pinned [OF assms this] assms show ?thesis
    by (auto simp add: Generate_def same_on_pinned_def bindS_def
        split: option.split sum.split simp del: render_manifests.simps)
qed

text \<open>\<open>immutableLocalReference\<close> of \<open>internal/pushimage/provider.go\<close>.\<close>

definition immutableLocalReference :: "string \<Rightarrow> bool" where
  "immutableLocalReference s \<longleftrightarrow> HasPrefix s (LocalPushImageRepository @ ''@'') \<and>
     sha256_digest (drop (length LocalPushImageRepository + 1) s)"

lemma local_reference:
  assumes "immutableLocalReference s"
  shows "immutableImagePattern s" "HasPrefix s (LocalPushImageRepository @ ''@sha256:'')"
proof -
  obtain d where s: "s = LocalPushImageRepository @ ''@'' @ d" and d: "sha256_digest d"
    using assms append_take_drop_id [of "length LocalPushImageRepository + 1" s]
    by (simp add: immutableLocalReference_def HasPrefix_def) metis
  show "immutableImagePattern s"
    unfolding s by (rule immutable_append)
      (simp_all add: d LocalPushImageRepository_def is_ref_start_def is_ref_char_def less_eq_char_def)
  show "HasPrefix s (LocalPushImageRepository @ ''@sha256:'')"
  proof -
    have "HasPrefix d ''sha256:''" using d unfolding sha256_digest_def by blast
    then show ?thesis by (simp add: s HasPrefix_def eval_nat_numeral)
  qed
qed

section \<open>Every accepted configuration is rendered\<close>

definition manifest_names :: "int \<Rightarrow> string list" where
  "manifest_names lab = ''namespace.yaml'' # ''postgres.yaml'' #
     (if lab \<ge> 2 then [''observability.yaml''] else []) @ (if lab \<ge> 3 then [''push.yaml''] else []) @
     (if lab \<ge> 4 then [''redpanda.yaml'', ''topics.yaml''] else [])"

lemma add_image_total:
  assumes "n \<in> set pinned_names \<or> n = ''push-service'' \<and> immutableLocalReference (op_PushImageReference opts)"
  shows "\<exists>r. add_image opts n imgs = Inr (imgs @ [(n, r)])"
proof (cases "n = ''push-service''")
  case True
  then have "immutableLocalReference (op_PushImageReference opts)"
    using assms by (auto simp: pinned_names_def)
  with True show ?thesis
    by (simp add: add_image_def ImageByName_def images_def mk_image_def Reference_def local_reference)
next
  case False
  then obtain im where im: "ImageByName n = Some im" "Published im" "Repository im \<noteq> []"
      "is_ref_start (hd (Repository im))" "list_all is_ref_char (tl (Repository im))" "sha256_digest (Digest im)"
    using assms catalog_images_pinned by (auto simp: list_all_iff split: option.splits)
  then have "immutableImagePattern (Reference im)"
    using immutable_append [OF im(3-6)] by (auto simp: Reference_def sha256_digest_def)
  with im(1) False show ?thesis by (simp add: add_image_def)
qed

lemma add_images_total:
  assumes "list_all (\<lambda>n. n \<in> set pinned_names \<or>
      n = ''push-service'' \<and> immutableLocalReference (op_PushImageReference opts)) ns"
  shows "\<exists>imgs'. add_images opts ns imgs = Inr imgs'"
  using assms
proof (induction ns arbitrary: imgs)
  case (Cons n ns)
  then obtain r where "add_image opts n imgs = Inr (imgs @ [(n, r)])"
    using add_image_total [of n opts imgs] by auto
  then show ?case using Cons by simp
qed simp

lemma render_total:
  assumes "\<And>t m. \<exists>x. tm_render A t m = Inr x"
    and "list_all (\<lambda>m. list_all (\<lambda>n. n \<in> set pinned_names \<or>
      n = ''push-service'' \<and> immutableLocalReference (op_PushImageReference opts)) (mf_images m)) ms"
  shows "\<exists>b. render_manifests A opts data ms = Inr b \<and> map gf_Name b = map mf_name ms \<and>
     list_all (\<lambda>f. gf_Content f \<noteq> [] \<and> last (gf_Content f) = nl) b"
  using assms(2)
proof (induction ms arbitrary: data)
  case (Cons m ms)
  obtain imgs where imgs: "add_images opts (mf_images m) (gm_Images data) = Inr imgs"
    using add_images_total [of opts "mf_images m"] Cons.prems by auto
  obtain x where x: "tm_render A (mf_template m) (data\<lparr>gm_Images := imgs\<rparr>) = Inr x" using assms(1) by blast
  obtain b where b: "render_manifests A opts (data\<lparr>gm_Images := imgs\<rparr>) ms = Inr b"
      "map gf_Name b = map mf_name ms" "list_all (\<lambda>f. gf_Content f \<noteq> [] \<and> last (gf_Content f) = nl) b"
    using Cons.IH [of "data\<lparr>gm_Images := imgs\<rparr>"] Cons.prems by auto
  show ?case using imgs x b by (simp add: with_newline_def)
qed simp

lemma select_manifests_lab:
  assumes "1 \<le> lab" and "lab \<le> 5" and "Components lab = Some cs"
  obtains ms where "select_manifests cs = Inr ms" and "''namespace.yaml'' # map mf_name ms = manifest_names lab"
    and "list_all (\<lambda>m. list_all (\<lambda>n. n \<in> set pinned_names \<or> n = ''push-service'' \<and> lab \<ge> 3) (mf_images m)) ms"
  using assms by (cases lab rule: lab_cases)
    (auto simp: Components_def componentsByLab_def component_manifests_def Postgres_def Observability_def
      Push_def Redpanda_def mk_manifest_def manifest_names_def pinned_names_def)


text \<open>A template engine that renders its template's name, and a lab 5 configuration.\<close>

definition naming_templates :: templates where
  "naming_templates = \<lparr>tm_parse = None, tm_render = (\<lambda>t m. Inr t)\<rparr>"

definition lab5_config :: config where
  "lab5_config = \<lparr>cf_SchemaVersion = 1, cf_Lab = 5,
     cf_Components = [Postgres, Observability, Push, Redpanda], cf_CustomEnv = []\<rparr>"

definition sample_options :: options where
  "sample_options = \<lparr>op_TripgoctlVersion = ''v1'', op_ClusterID = ''id'',
     op_PushImageReference = LocalPushImageRepository @ ''@sha256:'' @ replicate 64 (CHR ''0''),
     op_WorkloadReplicas = Some 0\<rparr>"

lemma lab5_normalized: "normalized lab5_config"
  by (simp add: normalized_def lab5_config_def SchemaVersion_def Components_def componentsByLab_def)

lemma sample_reference: "immutableLocalReference (op_PushImageReference sample_options)"
proof -
  have "list_all is_lower_hex (replicate 64 (CHR ''0''))"
    by (simp add: list_all_iff is_lower_hex_def)
  then show ?thesis
    by (simp add: immutableLocalReference_def sample_options_def sha256_digest_def HasPrefix_def)
qed


theorem Generate_only_pinned_witness:
  "Generate naming_templates lab5_config sample_options =
   Generate (naming_templates\<lparr>tm_render := (\<lambda>t m. if pinned m then Inr t else Inl ErrNotExist)\<rparr>)
     lab5_config sample_options"
  by (rule Generate_only_pinned) (simp add: same_on_pinned_def naming_templates_def)

end
