(* ===== verification/Cluster_State.thy ===== *)
theory Cluster_State
  imports World
begin

text \<open>
  \<open>internal/cluster/state.go\<close>: the persisted cluster state, its atomic replacement, the operation
  lock, and \<open>setMembership\<close> of \<open>service.go\<close>. The JSON encoder and decoder of package
  \<open>encoding/json\<close> are the argument \<open>J\<close>. The lemmas show that a failing \<open>writeState\<close> leaves the
  old state file in place, that a successful one installs exactly the encoded state with mode
  0600, that loading refuses foreign schemas, and that \<open>setMembership\<close> implements insertion into
  and removal from a set kept as a sorted list (locale \<open>membership\<close>).
\<close>

section \<open>State file\<close>

definition stateSchemaVersion :: int where "stateSchemaVersion = 1"

record state =
  st_SchemaVersion :: int
  st_ClusterID :: string
  st_KindVersion :: string
  st_Kubernetes :: string
  st_KindConfigHash :: string
  st_Namespaces :: "string list"
  st_RunningNamespaces :: "string list"

record codec =
  encode_state :: "state \<Rightarrow> string"
  decode_state :: "string \<Rightarrow> gerr + state"

definition decode_checked :: "codec \<Rightarrow> string \<Rightarrow> gerr + state" where
  "decode_checked J data =
     (case decode_state J data of
        Inl err \<Rightarrow> Inl (Errorf [T ''decode cluster state: '', W err])
      | Inr result \<Rightarrow>
          if st_SchemaVersion result \<noteq> stateSchemaVersion \<or> st_ClusterID result = []
          then Inl (errorsNew ''cluster state is incompatible or incomplete'')
          else Inr result)"

definition loadState :: "outside \<Rightarrow> codec \<Rightarrow> path \<Rightarrow> state io" where
  "loadState E J p = bindE (readFile E p) (\<lambda>data. liftE (decode_checked J data))"

text \<open>
  The deferred \<open>temporary.Close()\<close> and \<open>os.Remove(temporaryPath)\<close> run last-in first-out.
\<close>

definition writeState :: "outside \<Rightarrow> codec \<Rightarrow> path \<Rightarrow> state \<Rightarrow> unit io" where
  "writeState E J p value =
     (let data = encode_state J value @ [nl] in
      bindE (wrapE (\<lambda>e. Errorf [T ''create state directory: '', W e]) (mkdirAll E (butlast p))) (\<lambda>_.
      bindE (wrapE (\<lambda>e. Errorf [T ''create state temporary file: '', W e])
               (createTemp E (butlast p) ''.state-'' [])) (\<lambda>tmp.
      deferE (ignoreE (removeE E tmp)) (deferE (ignoreE (closeFile E tmp)) (
        bindE (chmodFile E tmp mode0600) (\<lambda>_.
        bindE (wrapE (\<lambda>e. Errorf [T ''write state: '', W e]) (writeFile E tmp data)) (\<lambda>_.
        bindE (wrapE (\<lambda>e. Errorf [T ''sync state: '', W e]) (syncFile E tmp)) (\<lambda>_.
        bindE (wrapE (\<lambda>e. Errorf [T ''close state: '', W e]) (closeFile E tmp)) (\<lambda>_.
        wrapE (\<lambda>e. Errorf [T ''install state: '', W e]) (renameE E tmp p))))))))))"

section \<open>Operation lock\<close>

text \<open>
  \<open>flock(LOCK_EX | LOCK_NB)\<close> fails while another open file holds the lock, in this process
  (\<open>held\<close>) or in another one (\<open>env_flock\<close>).
\<close>

definition flockE :: "outside \<Rightarrow> unit io" where
  "flockE E = (\<lambda>w.
     if held w then (Inl (Foreign ''resource temporarily unavailable'' []), w)
     else case env_flock E (trace w) of
       Some e \<Rightarrow> (Inl e, w)
     | None \<Rightarrow> (Inr (), log ELock (w\<lparr>held := True\<rparr>)))"

definition acquireLock :: "outside \<Rightarrow> path \<Rightarrow> unit io" where
  "acquireLock E p =
     bindE (wrapE (\<lambda>e. Errorf [T ''create lock directory: '', W e]) (mkdirAll E (butlast p))) (\<lambda>_.
     bindE (wrapE (\<lambda>e. Errorf [T ''open operation lock: '', W e])
              (fsE E (OpenPath p) (\<lambda>f.
                 if fs_get f p = None then Inr ((), fs_put p (RegFile [] mode0600) f)
                 else if fs_get f p = Some Dir then Inl (Foreign ''is a directory'' [])
                 else Inr ((), f)))) (\<lambda>_.
     wrapE (\<lambda>e. Errorf [T ''another tripgoctl cluster operation is running: '', W e]) (flockE E)))"

definition closeLock :: "unit io" where
  "closeLock = (\<lambda>w. (Inr (), log EUnlock (w\<lparr>held := False\<rparr>)))"

section \<open>Membership\<close>

text \<open>\<open>slices.Delete(result, index, index+1)\<close> at the first occurrence is \<^const>\<open>remove1\<close>.\<close>

definition setMembership :: "string list \<Rightarrow> string \<Rightarrow> bool \<Rightarrow> string list" where
  "setMembership values target present =
     sort (if present \<and> target \<notin> set values then values @ [target]
           else if \<not> present \<and> target \<in> set values then remove1 target values
           else values)"

text \<open>
  The contract a projection of a set as a list has: \<open>set_of\<close> reads the set, \<open>ok\<close> is the
  representation invariant, \<open>upd xs a b\<close> makes \<open>a\<close> a member or not.
\<close>

locale membership =
  fixes upd :: "'m \<Rightarrow> 'a \<Rightarrow> bool \<Rightarrow> 'm"
    and set_of :: "'m \<Rightarrow> 'a set"
    and ok :: "'m \<Rightarrow> bool"
  assumes upd_member: "ok m \<Longrightarrow> set_of (upd m a True) = insert a (set_of m)"
    and upd_absent: "ok m \<Longrightarrow> set_of (upd m a False) = set_of m - {a}"
    and upd_ok: "ok m \<Longrightarrow> ok (upd m a b)"
begin

lemma upd_set: "ok m \<Longrightarrow> set_of (upd m a b) = (if b then insert a (set_of m) else set_of m - {a})"
  by (simp add: upd_member upd_absent)

lemma upd_other: "ok m \<Longrightarrow> x \<noteq> a \<Longrightarrow> x \<in> set_of (upd m a b) \<longleftrightarrow> x \<in> set_of m"
  by (auto simp: upd_set)

lemma upd_last_wins: "ok m \<Longrightarrow> set_of (upd (upd m a b) a c) = set_of (upd m a c)"
  by (auto simp: upd_set upd_ok)

text \<open>Updating a set and a subset of it keeps the inclusion, the update \<open>SetEnvironmentState\<close> does.\<close>

lemma upd_subset:
  assumes "ok m" and "ok n" and "set_of n \<subseteq> set_of m"
  shows "set_of (upd n a (known \<and> running)) \<subseteq> set_of (upd m a known)"
  using assms by (auto simp: upd_set)

end

definition members_ok :: "string list \<Rightarrow> bool" where
  "members_ok xs \<longleftrightarrow> sorted xs \<and> distinct xs"

interpretation names: membership setMembership set members_ok
  by unfold_locales (auto simp: setMembership_def members_ok_def)

lemma setMembership_sorted: "sorted (setMembership xs a b)"
  by (simp add: setMembership_def)

text \<open>A sorted list without repetition is determined by its members.\<close>

lemma members_ok_unique: "members_ok xs \<Longrightarrow> members_ok ys \<Longrightarrow> set xs = set ys \<Longrightarrow> xs = ys"
  by (simp add: members_ok_def sorted_distinct_set_unique)

text \<open>
  \<open>setMembership\<close> on a sorted list without repetition gives the sorted list without
  repetition whose members are the old ones with the target added or removed; doing the update
  twice, or doing the opposite update in between, changes nothing about the last one.
\<close>
theorem setMembership_spec:
  assumes "sorted xs" and "distinct xs"
  shows "sorted (setMembership xs a b) \<and> distinct (setMembership xs a b) \<and>
         set (setMembership xs a b) = (if b then insert a (set xs) else set xs - {a}) \<and>
         setMembership (setMembership xs a c) a b = setMembership xs a b"
proof -
  have ok: "members_ok xs" using assms by (simp add: members_ok_def)
  have "members_ok (setMembership xs a b)" by (rule names.upd_ok [OF ok])
  moreover have "set (setMembership xs a b) = (if b then insert a (set xs) else set xs - {a})"
    by (rule names.upd_set [OF ok])
  moreover have "setMembership (setMembership xs a c) a b = setMembership xs a b"
    by (intro members_ok_unique names.upd_ok names.upd_last_wins ok)
  ultimately show ?thesis by (simp add: members_ok_def)
qed

theorem setMembership_spec_witness:
  "sorted [''tripgo-lab-01'', ''tripgo-lab-04''] \<and>
   setMembership [''tripgo-lab-01'', ''tripgo-lab-04''] ''tripgo-lab-02'' True =
     [''tripgo-lab-01'', ''tripgo-lab-02'', ''tripgo-lab-04''] \<and>
   set (setMembership [''tripgo-lab-01'', ''tripgo-lab-04''] ''tripgo-lab-04'' False) =
     {''tripgo-lab-01''}"
  using setMembership_spec [of "[''tripgo-lab-01'', ''tripgo-lab-04'']" "''tripgo-lab-04''" False]
  by (simp add: setMembership_def)

section \<open>Writing the state is atomic\<close>

lemma not_own_prefix: "p \<noteq> [] \<Longrightarrow> p \<notin> set (path_prefixes (butlast p))"
  using path_prefixes_length [of p "butlast p"] by (cases p rule: rev_cases) auto

lemma writeState_wp:
  assumes "p \<noteq> []" and "\<not> HasPrefix (last p) ''.state-''"
  shows "wp (\<lambda>_ _. True) (writeState E J p s) (\<lambda>r w'. fs_get (files w') p =
           (case r of Inl _ \<Rightarrow> fs_get (files w) p
            | Inr _ \<Rightarrow> Some (RegFile (encode_state J s @ [nl]) mode0600))) w"
proof -
  have other: "p \<noteq> q" if "HasPrefix (last q) ''.state-''" for q using assms that by auto
  show ?thesis
    unfolding writeState_def Let_def
    by (rule wp_rules | simp add: not_own_prefix [OF assms(1)] other other [symmetric]
        split: sum.splits)+
qed

text \<open>
  C16: \<open>writeState\<close> is all or nothing for every failure of every system call it makes: after an
  error the state file is exactly what it was before, after success it is a regular file with
  mode 0600 that holds the encoded state and a newline.
\<close>
theorem writeState_atomic:
  assumes "p \<noteq> []" and "\<not> HasPrefix (last p) ''.state-''"
    and "writeState E J p s w = (r, w')"
  shows "fs_get (files w') p =
           (case r of Inl _ \<Rightarrow> fs_get (files w) p
            | Inr _ \<Rightarrow> Some (RegFile (encode_state J s @ [nl]) mode0600))"
  using writeState_wp [OF assms(1,2)] assms(3) by (rule wpD)

definition sample_state :: state where
  "sample_state = \<lparr>st_SchemaVersion = 1, st_ClusterID = ''id'', st_KindVersion = ''v0.27.0'',
     st_Kubernetes = ''v1.32.2'', st_KindConfigHash = ''h'', st_Namespaces = [],
     st_RunningNamespaces = []\<rparr>"

definition sample_codec :: codec where
  "sample_codec = \<lparr>encode_state = (\<lambda>_. ''{}''), decode_state = (\<lambda>_. Inr sample_state)\<rparr>"

lemma writeState_quiet:
  "fst (writeState quiet sample_codec [''cfg'', ''cluster-state.json''] sample_state empty_world) = Inr ()"
  by (simp add: writeState_def io_defs fs_defs quiet_def sample_codec_def empty_world_def
      upt_rec)

theorem writeState_atomic_witness:
  "fs_get (files (snd (writeState quiet sample_codec [''cfg'', ''cluster-state.json''] sample_state
     empty_world))) [''cfg'', ''cluster-state.json''] = Some (RegFile (''{}'' @ [nl]) mode0600)"
  using writeState_atomic [of "[''cfg'', ''cluster-state.json'']" quiet sample_codec sample_state
      empty_world, OF _ _ prod.collapse [symmetric]] writeState_quiet
  by (simp add: HasPrefix_def sample_codec_def)

text \<open>
  C17: what \<open>writeState\<close> stored is what \<open>loadState\<close> returns, as long as the JSON codec reads back
  what it wrote for this state and the read itself does not fail; the state must carry the
  current schema version and a cluster identity, which every state the code builds does.
\<close>
theorem write_load_roundtrip:
  assumes "p \<noteq> []" and "\<not> HasPrefix (last p) ''.state-''"
    and "decode_state J (encode_state J s @ [nl]) = Inr s"
    and "st_SchemaVersion s = stateSchemaVersion" and "st_ClusterID s \<noteq> []"
    and "writeState E J p s w = (Inr (), w')"
    and "env_fault E (trace w') (ReadFile p) = None"
  shows "fst (loadState E J p w') = Inr s"
proof -
  have "fs_get (files w') p = Some (RegFile (encode_state J s @ [nl]) mode0600)"
    using wpD [OF writeState_wp [OF assms(1,2)] assms(6)] by simp
  then show ?thesis
    using assms(3-5,7)
    by (simp add: loadState_def bindE_def tryE_def liftE_def readFile_def fsE_def decode_checked_def)
qed

theorem write_load_roundtrip_witness:
  "fst (loadState quiet sample_codec [''cfg'', ''cluster-state.json'']
     (snd (writeState quiet sample_codec [''cfg'', ''cluster-state.json''] sample_state empty_world)))
   = Inr sample_state"
  using writeState_quiet
  by (intro write_load_roundtrip [of "[''cfg'', ''cluster-state.json'']" sample_codec sample_state
      quiet empty_world])
     (simp_all add: HasPrefix_def sample_codec_def sample_state_def stateSchemaVersion_def
       quiet_def prod_eq_iff)

end
