(* ===== verification/Lab_Files.thy ===== *)
theory Lab_Files
  imports Lab_Model Generator Cluster_State
begin

text \<open>
  The local outputs of \<open>internal/lab/service.go\<close>: checking, writing and removing the project's
  \<open>.env\<close> file and \<open>.tripgo\<close> directory. The theorems show that a file the student owns is neither
  overwritten nor removed, that writing is all or nothing, and that the written \<open>.env\<close> reads back
  as the variables of the configuration.
\<close>

section \<open>Checks\<close>

text \<open>\<open>os.Open\<close> for reading.\<close>

definition openFile :: "outside \<Rightarrow> path \<Rightarrow> unit io" where
  "openFile E p = fsE E (OpenPath p) (\<lambda>f. if fs_get f p = None then Inl ErrNotExist else Inr ((), f))"

definition marked :: "string \<Rightarrow> bool" where
  "marked content \<longleftrightarrow> TrimSuffix (first_line content) [nl] = envMarker"

definition ensureEnvWritable :: "outside \<Rightarrow> path \<Rightarrow> unit io" where
  "ensureEnvWritable E p =
     tryE (lstat E p) (\<lambda>r. case r of
       Inl e \<Rightarrow> if errors_Is e ErrNotExist then retE () else failE (Errorf [T ''inspect .env: '', W e])
     | Inr info \<Rightarrow>
         if \<not> is_regular info
         then failE (conflict [T '': existing .env is not a regular generated file; move it aside and retry''])
         else
         bindE (wrapE (\<lambda>e. Errorf [T ''inspect .env: '', W e]) (openFile E p)) (\<lambda>_.
         deferE (ignoreE (closeFile E p)) (
         bindE (wrapE (\<lambda>e. Errorf [T ''inspect .env marker: '', W e]) (readFile E p)) (\<lambda>content.
         if \<not> marked content
         then failE (conflict [T '': existing .env is not generated by tripgoctl; move it aside and run tripgoctl environment start again''])
         else retE ()))))"

definition ensureTripgoWritable :: "outside \<Rightarrow> path \<Rightarrow> unit io" where
  "ensureTripgoWritable E p =
     tryE (lstat E p) (\<lambda>r. case r of
       Inl e \<Rightarrow> if errors_Is e ErrNotExist then retE () else failE (Errorf [T ''inspect .tripgo: '', W e])
     | Inr info \<Rightarrow>
         if info \<noteq> Dir
         then failE (conflict [T '': existing .tripgo is not a directory; move it aside and retry''])
         else tryE (lstat E (p @ [''rendered''])) (\<lambda>r. case r of
           Inl e \<Rightarrow> if errors_Is e ErrNotExist then retE ()
                    else failE (Errorf [T ''inspect .tripgo/rendered: '', W e])
         | Inr renderedInfo \<Rightarrow>
             if renderedInfo \<noteq> Dir
             then failE (conflict [T '': existing .tripgo/rendered is not a directory; move it aside and retry''])
             else retE ()))"

section \<open>Writing .env\<close>

definition env_line :: "env_variable \<Rightarrow> string" where
  "env_line v = ev_Name v @ ''='' @ ev_Value v"

definition env_content :: "config \<Rightarrow> string \<Rightarrow> string" where
  "env_content c version =
     envMarker @ [nl] @
     ''# Source: environment.toml'' @ [nl] @
     ''# Lab: '' @ Itoa (cf_Lab c) @ [nl] @
     ''# Generator: tripgoctl '' @ version @ [nl] @
     concat (map (\<lambda>v. env_line v @ [nl]) (EnvironmentVariables c))"

definition atomicWrite :: "outside \<Rightarrow> path \<Rightarrow> string \<Rightarrow> nat \<Rightarrow> unit io" where
  "atomicWrite E p content mode =
     bindE (mkdirAll E (butlast p)) (\<lambda>_.
     bindE (wrapE (\<lambda>e. Errorf [T ''create temporary .env: '', W e])
              (createTemp E (butlast p) ''.tripgo-env-'' [])) (\<lambda>tmp.
     deferE (ignoreE (removeE E tmp)) (deferE (ignoreE (closeFile E tmp)) (
       bindE (chmodFile E tmp mode) (\<lambda>_.
       bindE (writeFile E tmp content) (\<lambda>_.
       bindE (syncFile E tmp) (\<lambda>_.
       bindE (closeFile E tmp) (\<lambda>_.
       bindE (wrapE (\<lambda>e. Errorf [T ''install .env: '', W e]) (renameE E tmp p)) (\<lambda>_.
       bindE (wrapE (\<lambda>e. Errorf [T ''open .env directory for sync: '', W e]) (openDir E (butlast p))) (\<lambda>_.
       deferE (ignoreE (closeFile E (butlast p)))
         (wrapE (\<lambda>e. Errorf [T ''sync .env directory: '', W e]) (syncFile E (butlast p)))))))))))))"

definition writeEnv :: "outside \<Rightarrow> path \<Rightarrow> config \<Rightarrow> string \<Rightarrow> unit io" where
  "writeEnv E p c version =
     bindE (ensureEnvWritable E p) (\<lambda>_. atomicWrite E p (env_content c version) mode0600)"

section \<open>Removing generated files\<close>

text \<open>The branch of \<open>removeGenerated\<close> for the \<open>.tripgo\<close> directory.\<close>

definition remove_rendered :: "outside \<Rightarrow> path \<Rightarrow> unit io" where
  "remove_rendered E p =
     (let rendered = p @ [''rendered''] in
      tryE (lstat E rendered) (\<lambda>r. case r of
        Inr info \<Rightarrow> whenE (info = Dir) (removeAll E rendered)
      | Inl e \<Rightarrow> if errors_Is e ErrNotExist then retE ()
                 else failE (Errorf [T ''inspect generated rendered directory: '', W e])))"

definition remove_legacy_lock :: "outside \<Rightarrow> path \<Rightarrow> unit io" where
  "remove_legacy_lock E p =
     (let legacyLock = p @ [''environment.lock''] in
      tryE (lstat E legacyLock) (\<lambda>r. case r of
        Inr info \<Rightarrow>
          if \<not> is_regular info then retE ()
          else
          bindE (wrapE (\<lambda>e. Errorf [T ''read legacy environment.lock: '', W e]) (readFile E legacyLock)) (\<lambda>content.
          if \<not> HasPrefix content (envMarker @ [nl]) then retE ()
          else tryE (removeE E legacyLock) (\<lambda>r. case r of
            Inl e \<Rightarrow> if errors_Is e ErrNotExist then retE ()
                     else failE (Errorf [T ''remove legacy environment.lock: '', W e])
          | Inr _ \<Rightarrow> retE ()))
      | Inl e \<Rightarrow> if errors_Is e ErrNotExist then retE ()
                 else failE (Errorf [T ''inspect legacy environment.lock: '', W e])))"

definition remove_generated_dir :: "outside \<Rightarrow> path \<Rightarrow> unit io" where
  "remove_generated_dir E p =
     tryE (lstat E p) (\<lambda>r. case r of
       Inl e \<Rightarrow> if errors_Is e ErrNotExist then retE ()
                else failE (Errorf [T ''inspect generated directory: '', W e])
     | Inr info \<Rightarrow>
         if info \<noteq> Dir then retE ()
         else
         bindE (remove_rendered E p) (\<lambda>_.
         bindE (remove_legacy_lock E p) (\<lambda>_.
         bindE (wrapE (\<lambda>e. Errorf [T ''inspect generated directory contents: '', W e]) (readDir E p)) (\<lambda>entries.
         if entries = [] then removeE E p else retE ()))))"

definition remove_generated_env :: "outside \<Rightarrow> path \<Rightarrow> unit io" where
  "remove_generated_env E p =
     tryE (lstat E p) (\<lambda>r. case r of
       Inl e \<Rightarrow> if errors_Is e ErrNotExist then retE ()
                else failE (Errorf [T ''inspect generated .env: '', W e])
     | Inr info \<Rightarrow>
         if \<not> is_regular info then retE ()
         else
         bindE (wrapE (\<lambda>e. Errorf [T ''inspect generated .env: '', W e]) (openFile E p)) (\<lambda>_.
         tryE (readFile E p) (\<lambda>line.
         tryE (closeFile E p) (\<lambda>closed.
         case line of
           Inl e \<Rightarrow> failE (Errorf [T ''inspect generated .env marker: '', W e])
         | Inr content \<Rightarrow>
             (case closed of
                Inl e \<Rightarrow> failE (Errorf [T ''close generated .env: '', W e])
              | Inr _ \<Rightarrow>
                  if \<not> marked content then retE ()
                  else tryE (removeE E p) (\<lambda>r. case r of
                    Inl e \<Rightarrow> if errors_Is e ErrNotExist then retE () else failE e
                  | Inr _ \<Rightarrow> retE ()))))))"

definition removeGenerated :: "outside \<Rightarrow> path \<Rightarrow> bool \<Rightarrow> unit io" where
  "removeGenerated E p directory = (if directory then remove_generated_dir E p else remove_generated_env E p)"

section \<open>The student's .env is safe\<close>

text \<open>A \<open>.env\<close> the code may touch: absent, or a regular file whose first line is the marker.\<close>

definition env_replaceable :: "files \<Rightarrow> path \<Rightarrow> bool" where
  "env_replaceable f p \<longleftrightarrow> (case fs_get f p of None \<Rightarrow> True | Some (RegFile c m) \<Rightarrow> marked c | Some _ \<Rightarrow> False)"

lemma wp_openFile [wp_rules]:
  assumes "\<And>e. G (trace w) (EFs (OpenPath p) (Some e)) \<and> Q (Inl e) (log (EFs (OpenPath p) (Some e)) w)"
    and "G (trace w) (EFs (OpenPath p) None) \<and> Q (Inr ()) (log (EFs (OpenPath p) None) w)"
  shows "wp G (openFile E p) Q w"
  unfolding openFile_def by (rule wp_fs) (use assms in \<open>auto split: if_splits\<close>)

text \<open>The operating system reports a missing file only where there is none.\<close>

definition honest_lstat :: "outside \<Rightarrow> bool" where
  "honest_lstat E \<longleftrightarrow> (\<forall>tr p e. env_fault E tr (Lstat p) = Some e \<longrightarrow> \<not> errors_Is e ErrNotExist)"

lemma wp_lstat_honest:
  assumes "honest_lstat E"
    and "\<And>e. \<not> errors_Is e ErrNotExist \<or> fs_get (files w) p = None \<Longrightarrow>
           G (trace w) (EFs (Lstat p) (Some e)) \<and> Q (Inl e) (log (EFs (Lstat p) (Some e)) w)"
    and "\<And>n. fs_get (files w) p = Some n \<Longrightarrow>
           G (trace w) (EFs (Lstat p) None) \<and> Q (Inr n) (log (EFs (Lstat p) None) w)"
  shows "wp G (lstat E p) Q w"
  using assms by (auto simp: wp_def lstat_def fsE_def honest_lstat_def split: option.splits)

lemma wp_ensureEnvWritable:
  assumes "honest_lstat E"
  shows "wp (\<lambda>_ _. True) (ensureEnvWritable E p)
    (\<lambda>r w'. files w' = files w \<and> (r = Inr () \<longrightarrow> env_replaceable (files w) p)) w"
  unfolding ensureEnvWritable_def
  by (rule wp_lstat_honest [OF assms] wp_rules
      | simp add: env_replaceable_def is_regular_def split: sum.splits node.splits | intro conjI impI allI)+

lemma wp_atomicWrite:
  assumes "p \<noteq> []" and "\<not> HasPrefix (last p) ''.tripgo-env-''"
  shows "wp (\<lambda>_ _. True) (atomicWrite E p content m) (\<lambda>r w'.
           fs_get (files w') p = Some (RegFile content m) \<or>
           (\<exists>e. r = Inl e) \<and> fs_get (files w') p = fs_get (files w) p) w"
proof -
  have other: "p \<noteq> q" if "HasPrefix (last q) ''.tripgo-env-''" for q using assms that by auto
  show ?thesis
    unfolding atomicWrite_def
    by (rule wp_rules | simp add: not_own_prefix [OF assms(1)] other other [symmetric]
        split: sum.splits)+
qed

text \<open>
  C21: \<open>writeEnv\<close> never touches a \<open>.env\<close> it did not generate: when the path holds anything but a
  regular file starting with the marker line it fails and leaves it as it is; otherwise, whatever
  system call fails, the path holds either what it held or the complete new content with mode
  0600, and the latter after success.
\<close>
theorem writeEnv_protects:
  assumes "honest_lstat E" and "p \<noteq> []" and "\<not> HasPrefix (last p) ''.tripgo-env-''"
    and "writeEnv E p c v w = (r, w')"
  shows "if env_replaceable (files w) p
         then fs_get (files w') p = Some (RegFile (env_content c v) mode0600) \<or>
              (\<exists>e. r = Inl e) \<and> fs_get (files w') p = fs_get (files w) p
         else (\<exists>e. r = Inl e) \<and> fs_get (files w') p = fs_get (files w) p"
proof -
  have "wp (\<lambda>_ _. True) (writeEnv E p c v) (\<lambda>r w'. if env_replaceable (files w) p
         then fs_get (files w') p = Some (RegFile (env_content c v) mode0600) \<or>
              (\<exists>e. r = Inl e) \<and> fs_get (files w') p = fs_get (files w) p
         else (\<exists>e. r = Inl e) \<and> fs_get (files w') p = fs_get (files w) p) w"
    unfolding writeEnv_def
  proof (rule wp_bind, rule wp_mono [OF wp_ensureEnvWritable [OF assms(1)]], goal_cases)
    case (1 r u)
    then show ?case
      by (cases r) (auto intro!: wp_mono [OF wp_atomicWrite [OF assms(2,3)]])
  qed
  from wpD [OF this assms(4)] show ?thesis .
qed

definition home_world :: "string \<Rightarrow> world" where
  "home_world content = \<lparr>trace = [], files = [([''home''], Dir), ([''home'', ''.env''], RegFile content mode0600)], held = False\<rparr>"

theorem writeEnv_protects_witness:
  "(\<exists>e. fst (writeEnv quiet [''home'', ''.env''] lab5_config ''v1'' (home_world ''MINE=1'')) = Inl e) \<and>
   fs_get (files (snd (writeEnv quiet [''home'', ''.env''] lab5_config ''v1'' (home_world ''MINE=1'')))) [''home'', ''.env''] =
     Some (RegFile ''MINE=1'' mode0600)"
  using writeEnv_protects [of quiet "[''home'', ''.env'']" lab5_config "''v1''" "home_world ''MINE=1''",
      OF _ _ _ prod.collapse [symmetric]]
  by (simp add: honest_lstat_def quiet_def HasPrefix_def home_world_def env_replaceable_def fs_get_def
      marked_def first_line_def TrimSuffix_def HasSuffix_def envMarker_def)

lemma wp_remove_env:
  "wp (\<lambda>_ _. True) (remove_generated_env E p) (\<lambda>r w'. files w' = files w \<or>
     (\<exists>c m. fs_get (files w) p = Some (RegFile c m) \<and> marked c) \<and> files w' = fs_del p (files w)) w"
  unfolding remove_generated_env_def
  by (rule wp_rules
      | simp add: is_regular_def split: sum.splits node.splits | intro conjI impI allI | fastforce)+

lemma wp_remove_rendered:
  "wp (\<lambda>_ _. True) (remove_rendered E p) (\<lambda>r w'. \<forall>q. prefix (p @ [''rendered'']) q \<or>
     fs_get (files w') q = fs_get (files w) q) w"
proof -
  have all: "wp (\<lambda>_ _. True) (removeAll E d) (\<lambda>r w'. \<forall>q. prefix d q \<or> fs_get (files w') q = fs_get (files w) q) w"
    for d w
  proof -
    have gone: "fs_get (filter (\<lambda>(q, _). q \<notin> S) f) q = (if q \<in> S then None else fs_get f q)" for S f q
      by (induction f) (auto simp: fs_get_def)
    show ?thesis
      by (auto simp: wp_def removeAll_def Let_def gone split: option.splits dest: in_set_takeD)
  qed
  show ?thesis
    unfolding remove_rendered_def Let_def
    by (rule wp_mono [OF all] wp_rules | simp split: sum.splits | intro conjI impI allI)+
qed

lemma wp_remove_legacy_lock:
  "wp (\<lambda>_ _. True) (remove_legacy_lock E p) (\<lambda>r w'. files w' = files w \<or>
     (\<exists>c m. fs_get (files w) (p @ [''environment.lock'']) = Some (RegFile c m) \<and>
        HasPrefix c (envMarker @ [nl])) \<and> files w' = fs_del (p @ [''environment.lock'']) (files w)) w"
  unfolding remove_legacy_lock_def Let_def
  by (rule wp_rules
      | simp add: is_regular_def split: sum.splits node.splits | intro conjI impI allI | fastforce)+

text \<open>What may go when \<open>.env\<close> at \<open>p\<close> or \<open>.tripgo\<close> at \<open>p\<close> is cleaned.\<close>

definition env_generated :: "files \<Rightarrow> path \<Rightarrow> bool" where
  "env_generated f p \<longleftrightarrow> (\<exists>c m. fs_get f p = Some (RegFile c m) \<and> marked c)"

definition tripgo_removable :: "files \<Rightarrow> path \<Rightarrow> path \<Rightarrow> bool" where
  "tripgo_removable f p q \<longleftrightarrow> prefix (p @ [''rendered'']) q \<or>
     q = p @ [''environment.lock''] \<and> (\<exists>c m. fs_get f q = Some (RegFile c m) \<and> HasPrefix c (envMarker @ [nl])) \<or>
     q = p \<and> fs_get f q = Some Dir"

lemma wp_remove_dir:
  "wp (\<lambda>_ _. True) (remove_generated_dir E p) (\<lambda>r w'. \<forall>q. tripgo_removable (files w) p q \<or>
     fs_get (files w') q = fs_get (files w) q) w"
proof -
  have tail: "wp (\<lambda>_ _. True)
      (bindE (remove_rendered E p) (\<lambda>_. bindE (remove_legacy_lock E p) (\<lambda>_.
         bindE (wrapE g (readDir E p)) (\<lambda>entries. if entries = [] then removeE E p else retE ()))))
      (\<lambda>r w'. \<forall>q. tripgo_removable (files u) p q \<or> fs_get (files w') q = fs_get (files u) q) u"
    if dir: "fs_get (files u) p = Some Dir" for g u
  proof (rule wp_bind, rule wp_mono [OF wp_remove_rendered], goal_cases)
    case (1 r v)
    have step: "wp (\<lambda>_ _. True) (bindE (remove_legacy_lock E p) (\<lambda>_.
         bindE (wrapE g (readDir E p)) (\<lambda>entries. if entries = [] then removeE E p else retE ())))
      (\<lambda>r w'. \<forall>q. tripgo_removable (files u) p q \<or> fs_get (files w') q = fs_get (files u) q) v"
    proof (rule wp_bind, rule wp_mono [OF wp_remove_legacy_lock], goal_cases)
      case (1 r x)
      have kept: "tripgo_removable (files u) p q \<or> fs_get (files x) q = fs_get (files u) q" for q
        using 1 \<open>\<forall>q. prefix (p @ [''rendered'']) q \<or> fs_get (files v) q = fs_get (files u) q\<close> [rule_format, of q]
        by (cases "q = p @ [''environment.lock'']") (auto simp: tripgo_removable_def)
      have "tripgo_removable (files u) p q \<or> fs_get (fs_del p (files x)) q = fs_get (files u) q" for q
        using kept [of q] dir by (auto simp: tripgo_removable_def)
      with kept show ?case
        by (cases r) (simp_all add: wp_bind wp_wrap wp_readDir wp_if wp_removeE wp_ret)
    qed
    have "tripgo_removable (files u) p q \<or> fs_get (files v) q = fs_get (files u) q" for q
      using 1 by (auto simp: tripgo_removable_def)
    with step show ?case by (cases r) simp_all
  qed
  show ?thesis
    unfolding remove_generated_dir_def
    by (rule wp_try, rule wp_lstat) (auto intro!: wp_ret wp_fail wp_mono [OF tail])
qed

text \<open>
  C22: \<open>removeGenerated\<close> removes a \<open>.env\<close> only when it is a regular file starting with the marker
  line, and touches nothing else; under \<open>.tripgo\<close> it removes only the \<open>rendered\<close> tree, a marked
  legacy lock, and the directory itself when it is empty. Every other file is exactly as before,
  whatever call fails.
\<close>
theorem removeGenerated_protects:
  assumes "removeGenerated E p directory w = (r, w')"
  shows "fs_get (files w') q = fs_get (files w) q \<or>
     (if directory then tripgo_removable (files w) p q else q = p \<and> env_generated (files w) p)"
proof (cases directory)
  case True
  with assms have "remove_generated_dir E p w = (r, w')" by (simp add: removeGenerated_def)
  from wpD [OF wp_remove_dir this] True show ?thesis by auto
next
  case False
  then have "files w' = files w \<or> env_generated (files w) p \<and> files w' = fs_del p (files w)"
    using wpD [OF wp_remove_env] assms by (auto simp: removeGenerated_def env_generated_def)
  with False show ?thesis by (cases "q = p") auto
qed

theorem removeGenerated_protects_witness:
  "fs_get (files (snd (removeGenerated quiet [''home'', ''.env''] False (home_world ''MINE=1'')))) [''home'', ''.env''] =
     Some (RegFile ''MINE=1'' mode0600)"
  using removeGenerated_protects [of quiet "[''home'', ''.env'']" False "home_world ''MINE=1''" _ _ "[''home'', ''.env'']",
      OF prod.collapse [symmetric]]
  by (simp add: env_generated_def home_world_def fs_get_def marked_def first_line_def TrimSuffix_def
      HasSuffix_def envMarker_def)

section \<open>The written file reads back\<close>

text \<open>
  A reader of \<open>.env\<close> files: one line after the other, comments skipped, a line split at its first
  equals sign.
\<close>

fun split_lines :: "string \<Rightarrow> string \<Rightarrow> string list" where
  "split_lines acc [] = (if acc = [] then [] else [rev acc])"
| "split_lines acc (c # cs) = (if c = nl then rev acc # split_lines [] cs else split_lines (c # acc) cs)"

definition read_env_line :: "string \<Rightarrow> (string \<times> string) option" where
  "read_env_line l = (if take 1 l = ''#'' then None else Cut l (CHR ''=''))"

definition read_env :: "string \<Rightarrow> (string \<times> string) list" where
  "read_env s = List.map_filter read_env_line (split_lines [] s)"

lemma split_lines_acc: "nl \<notin> set l \<Longrightarrow> split_lines acc (l @ nl # s) = (rev acc @ l) # split_lines [] s"
  by (induction l arbitrary: acc) auto

lemma split_lines_line: "nl \<notin> set l \<Longrightarrow> split_lines [] (l @ nl # s) = l # split_lines [] s"
  by (simp add: split_lines_acc)

lemma split_lines_concat:
  "list_all (\<lambda>l. nl \<notin> set l) ls \<Longrightarrow> split_lines [] (concat (map (\<lambda>l. l @ [nl]) ls)) = ls"
  by (induction ls) (simp_all add: split_lines_line)

text \<open>A variable that survives: a name without equals sign, newline or leading hash, a value on one line.\<close>

definition plain_variable :: "env_variable \<Rightarrow> bool" where
  "plain_variable v \<longleftrightarrow> ev_Name v \<noteq> [] \<and> hd (ev_Name v) \<noteq> CHR ''#'' \<and> CHR ''='' \<notin> set (ev_Name v) \<and>
     nl \<notin> set (ev_Name v) \<and> nl \<notin> set (ev_Value v)"

lemma read_plain_variable:
  "plain_variable v \<Longrightarrow> read_env_line (env_line v) = Some (ev_Name v, ev_Value v)"
  by (cases "ev_Name v") (auto simp: plain_variable_def read_env_line_def env_line_def Cut_append)

lemma pattern_plain: "envNamePattern n \<Longrightarrow> nl \<notin> set v \<Longrightarrow> plain_variable \<lparr>ev_Name = n, ev_Value = v\<rparr>"
  by (cases n) (auto simp: envNamePattern_def plain_variable_def list_all_iff is_letter_def is_digit_def
      less_eq_char_def)

text \<open>The built-in variables are plain: their names and values are fixed up to a port number.\<close>

lemma Itoa_no_newline: "0 \<le> i \<Longrightarrow> nl \<notin> set (Itoa i)"
proof -
  have "nl \<notin> set (nat_digits n)" for n
  proof (induction n rule: nat_digits.induct)
    case (1 n)
    have digit: "char_of (48 + d) \<noteq> nl" if "d < 10" for d :: nat
    proof
      assume "char_of (48 + d) = nl"
      then have "(of_char (char_of (48 + d) :: char) :: nat) = of_char nl" by simp
      with that show False by (simp add: of_char_digit)
    qed
    show ?case
    proof (cases "n < 10")
      case True
      then show ?thesis using digit [of n] by (simp add: nat_digits_small)
    next
      case False
      then show ?thesis
        using 1 digit [of "n mod 10"] by (subst nat_digits.simps) simp
    qed
  qed
  then show "0 \<le> i \<Longrightarrow> ?thesis" by (simp add: Itoa_def)
qed

lemma builtin_plain:
  assumes "1 \<le> lab" and "lab \<le> 5" and "environment_entry lab = Some e"
  shows "list_all plain_variable (en_Env e)"
proof -
  have "list_all plain_variable es"
    if "es \<in> {es. env_lab1 lab = Inr es} \<union> {es. env_lab2 lab = Inr es} \<union> {es. env_lab3 lab = Inr es} \<union>
        {es. env_lab4 lab = Inr es} \<union> {env_lab5}" for es
    using that assms(1,2)
    by (auto simp: env_lab1_def env_lab2_def env_lab3_def env_lab4_def env_lab5_def host_port_eq ev_def
        plain_variable_def Itoa_no_newline)
  then show ?thesis
    using assms(3)
    by (auto simp: environment_entry_def EnvironmentForLab_def Let_def bindS_Inr_iff split: option.splits sum.splits if_splits)
qed

lemma variables_plain:
  assumes "normalized c"
  shows "list_all plain_variable (EnvironmentVariables c)"
proof -
  have lab: "1 \<le> cf_Lab c" "cf_Lab c \<le> 5" using assms by (auto simp: normalized_def)
  then obtain e where e: "environment_entry (cf_Lab c) = Some e" by (rule environment_entry_Some)
  have "plain_variable v" if "v \<in> set (cf_CustomEnv c)" for v
  proof -
    have "valid_env (ev_Name v, ev_Value v)"
      using assms that by (auto simp: normalized_def list_all_iff)
    then have "envNamePattern (ev_Name v)" and "nl \<notin> set (ev_Value v)"
      by (simp_all add: valid_env_def ContainsAny_def list_ex_iff) blast
    from pattern_plain [OF this] show ?thesis by (simp add: plain_variable_def)
  qed
  then show ?thesis
    using builtin_plain [OF lab e] by (auto simp: EnvironmentVariables_def e list_all_iff)
qed

lemma map_filter_plain:
  "list_all plain_variable vs \<Longrightarrow>
   List.map_filter read_env_line (map env_line vs) = map (\<lambda>v. (ev_Name v, ev_Value v)) vs"
  by (induction vs) (simp_all add: read_plain_variable)

text \<open>
  C27: the \<open>.env\<close> file written for an accepted configuration starts with the marker line, so the next
  run recognises it as its own, and reading it back line by line gives exactly the variables of
  the configuration in their order, values with equals signs, spaces or quotes included.
\<close>
theorem env_file_roundtrip:
  assumes "normalized c" and "nl \<notin> set version"
  shows "marked (env_content c version) \<and>
         read_env (env_content c version) = map (\<lambda>v. (ev_Name v, ev_Value v)) (EnvironmentVariables c)"
proof -
  have plain: "list_all plain_variable (EnvironmentVariables c)" by (rule variables_plain [OF assms(1)])
  have nonneg: "0 \<le> cf_Lab c" using assms(1) by (auto simp: normalized_def)
  have "nl \<notin> set (env_line v)" if "v \<in> set (EnvironmentVariables c)" for v
    using plain that by (auto simp: list_all_iff plain_variable_def env_line_def)
  then have ls: "split_lines [] (concat (map (\<lambda>v. env_line v @ [nl]) (EnvironmentVariables c))) =
      map env_line (EnvironmentVariables c)"
    using split_lines_concat [of "map env_line (EnvironmentVariables c)"] by (simp add: list_all_iff comp_def)
  have lines: "split_lines [] (a @ [nl] @ b @ [nl] @ d @ e @ [nl] @ f @ version @ [nl] @ rest) =
      a # b # (d @ e) # (f @ version) # split_lines [] rest"
    if "nl \<notin> set a" "nl \<notin> set b" "nl \<notin> set d" "nl \<notin> set e" "nl \<notin> set f" for a b d e f rest
    using that assms(2) split_lines_line [of "d @ e"] split_lines_line [of "f @ version"]
    by (simp add: split_lines_line)
  have "read_env (env_content c version) = map (\<lambda>v. (ev_Name v, ev_Value v)) (EnvironmentVariables c)"
    unfolding read_env_def env_content_def
    by (subst lines)
       (simp_all add: Itoa_no_newline [OF nonneg] ls map_filter_plain [OF plain] envMarker_def read_env_line_def)
  moreover have "marked (env_content c version)"
  proof -
    have "nl \<notin> set envMarker" by (simp add: envMarker_def)
    then have "first_line (env_content c version) = envMarker @ [nl]"
      by (simp add: first_line_def env_content_def Cut_append)
    then show ?thesis by (simp add: marked_def TrimSuffix_append)
  qed
  ultimately show ?thesis by simp
qed

theorem env_file_roundtrip_witness:
  "marked (env_content lab5_config ''v1.0'') \<and>
   (''PUSH_RETRY_MAX_ATTEMPTS'', ''3'') \<in> set (read_env (env_content lab5_config ''v1.0''))"
proof -
  obtain e where "environment_entry 5 = Some e" by (rule environment_entry_Some [of 5]) auto
  moreover have "set env_lab5 \<subseteq> set (en_Env e)"
    using calculation by (auto simp: environment_entry_def EnvironmentForLab_def Let_def bindS_Inr_iff
        split: option.splits sum.splits)
  ultimately have "\<lparr>ev_Name = ''PUSH_RETRY_MAX_ATTEMPTS'', ev_Value = ''3''\<rparr> \<in> set (EnvironmentVariables lab5_config)"
    by (auto simp: EnvironmentVariables_def lab5_config_def env_lab5_def ev_def)
  then show ?thesis
    using env_file_roundtrip [of lab5_config "''v1.0''", OF lab5_normalized] by force
qed

end
