(* ===== verification/Push_Image.thy ===== *)
theory Push_Image
  imports Generator
begin

text \<open>
  \<open>internal/pushartifact\<close> (the embedded build context of the Push Service) and
  \<open>internal/pushimage/provider.go\<close> (building it, pushing it to the managed registry and returning
  Docker's digest). The embedded files, the ELF reader and the JSON decoder are the fields of
  \<open>artifact\<close>. The theorems show that the build context is written exclusively and exactly, and
  that a returned reference is a digest in the managed repository obtained after a successful
  build and push of one content-addressed tag.
\<close>

section \<open>Embedded assets\<close>

record artifact =
  pa_Binary :: string
  pa_Dockerfile :: string
  pa_elf :: "string \<Rightarrow> gerr + string"
  pa_digests :: "string \<Rightarrow> gerr + string list"

definition elf_magic :: string where
  "elf_magic = [CHR 0x7F, CHR ''E'', CHR ''L'', CHR ''F'']"

definition ValidateLinked :: "artifact \<Rightarrow> gerr option" where
  "ValidateLinked B =
     (if pa_Binary B \<noteq> [] \<and> \<not> HasPrefix (pa_Binary B) elf_magic
      then Some (errorsNew ''embedded push service binary is not ELF'')
      else if \<not> contains_sub (pa_Dockerfile B) ''FROM scratch''
      then Some (errorsNew ''embedded Push Service Dockerfile is invalid'')
      else None)"

text \<open>The file modes 0644 and 0755.\<close>

abbreviation mode0644 :: nat where "mode0644 \<equiv> 420"
abbreviation mode0755 :: nat where "mode0755 \<equiv> 493"

definition extract_asset :: "outside \<Rightarrow> path \<Rightarrow> string \<times> string \<times> nat \<Rightarrow> unit io" where
  "extract_asset E directory = (\<lambda>(name, content, mode).
     let p = directory @ [name] in
     bindE (wrapE (\<lambda>e. Errorf [T (''create embedded '' @ name @ '': ''), W e]) (openCreate E p mode True)) (\<lambda>_.
     bindE (tryE (writeFile E p content) (\<lambda>r. case r of
       Inr _ \<Rightarrow> retE ()
     | Inl e \<Rightarrow> bindE (ignoreE (closeFile E p)) (\<lambda>_. bindE (ignoreE (removeE E p)) (\<lambda>_.
                failE (Errorf [T (''write embedded '' @ name @ '': ''), W e]))))) (\<lambda>_.
     tryE (closeFile E p) (\<lambda>r. case r of
       Inr _ \<Rightarrow> retE ()
     | Inl e \<Rightarrow> bindE (ignoreE (removeE E p)) (\<lambda>_.
                failE (Errorf [T (''close embedded '' @ name @ '': ''), W e]))))))"

definition Extract :: "outside \<Rightarrow> artifact \<Rightarrow> path \<Rightarrow> unit io" where
  "Extract E B directory =
     (if pa_Binary B = []
      then failE (errorsNew ''push service binary is not embedded in this development build'')
      else
      bindE (wrapE (\<lambda>e. Errorf [T ''create Push Service build context: '', W e]) (mkdirAll E directory)) (\<lambda>_.
      forE [(''Dockerfile'', pa_Dockerfile B, mode0644), (''push-service'', pa_Binary B, mode0755)]
        (extract_asset E directory)))"

section \<open>Provider\<close>

definition expected_machine :: "string \<Rightarrow> string" where
  "expected_machine goarch = (if goarch = ''amd64'' then ''EM_X86_64'' else ''EM_AARCH64'')"

definition image_tag :: "outside \<Rightarrow> artifact \<Rightarrow> string" where
  "image_tag E B = LocalPushImageRepository @ '':embedded-'' @
     take 24 (env_sha256 E (pa_Dockerfile B @ pa_Binary B))"

definition build_args :: "string \<Rightarrow> string \<Rightarrow> path \<Rightarrow> string list" where
  "build_args goarch tag directory =
     [''build'', ''--platform'', ''linux/'' @ goarch, ''--tag'', tag, path_text directory]"

definition digest_args :: "string \<Rightarrow> string list" where
  "digest_args tag = [''image'', ''inspect'', ''--format'', ''{{json .RepoDigests}}'', tag]"

definition build_and_push :: "outside \<Rightarrow> artifact \<Rightarrow> string \<Rightarrow> path \<Rightarrow> string io" where
  "build_and_push E B goarch directory =
     (let tag = image_tag E B in
      bindE (report E Stage ''Building Push Service image'') (\<lambda>_.
      bindE (wrapE (\<lambda>e. Errorf [T ''build embedded Push Service image: '', W e])
               (runE E ''docker'' (build_args goarch tag directory))) (\<lambda>_.
      bindE (report E Stage ''Pushing Push Service image'') (\<lambda>_.
      bindE (wrapE (\<lambda>e. Errorf [T ''push embedded Push Service image to managed registry: '', W e])
               (runE E ''docker'' [''push'', tag])) (\<lambda>_.
      bindE (wrapE (\<lambda>e. Errorf [T ''inspect pushed Push Service digest: '', W e])
               (runE E ''docker'' (digest_args tag))) (\<lambda>output.
      bindE (wrapE (\<lambda>e. Errorf [T ''decode pushed Push Service digests: '', W e])
               (liftE (pa_digests B output))) (\<lambda>digests.
      case find immutableLocalReference digests of
        Some reference \<Rightarrow> retE reference
      | None \<Rightarrow> failE (errorsNew (''pushed image did not produce an immutable digest in '' @
                  LocalPushImageRepository)))))))))"

definition Ensure :: "outside \<Rightarrow> artifact \<Rightarrow> string \<Rightarrow> path \<Rightarrow> string io" where
  "Ensure E B goarch tempDir =
     bindE (report E Stage ''Preparing Push Service image'') (\<lambda>_.
     if goarch \<noteq> ''amd64'' \<and> goarch \<noteq> ''arm64''
     then failE (errorsNew (''unsupported Push Service image architecture '' @ quoted goarch))
     else if pa_Binary B = []
     then failE (errorsNew ''embedded Push Service binary is absent; use a release tripgoctl build'')
     else case pa_elf B (pa_Binary B) of
       Inl e \<Rightarrow> failE (Errorf [T ''embedded Push Service binary is not ELF: '', W e])
     | Inr machine \<Rightarrow>
         if machine \<noteq> expected_machine goarch
         then failE (errorsNew (''embedded Push Service architecture '' @ machine @
                '' does not match CLI architecture '' @ goarch))
         else
         bindE (wrapE (\<lambda>e. Errorf [T ''create Push Service build context: '', W e])
                  (mkdirTemp E tempDir ''tripgo-push-image-'')) (\<lambda>directory.
         deferE (ignoreE (removeAll E directory)) (
           bindE (Extract E B directory) (\<lambda>_. build_and_push E B goarch directory))))"

section \<open>Results\<close>

context discipline
begin

lemma calm_Extract: "calm G I (Extract E B d)"
  unfolding Extract_def extract_asset_def Let_def by (intro calm_prims)

end

text \<open>The last three Docker calls of a history.\<close>

definition published :: "history \<Rightarrow> string \<Rightarrow> string \<Rightarrow> path \<Rightarrow> string \<Rightarrow> bool" where
  "published tr goarch tag dir output \<longleftrightarrow>
     (\<exists>b p pre. filter external tr = pre @
        [ERun ''docker'' (build_args goarch tag dir) (Inr b), ERun ''docker'' [''push'', tag] (Inr p),
         ERun ''docker'' (digest_args tag) (Inr output)])"

lemma find_Some: "find P xs = Some x \<Longrightarrow> P x \<and> x \<in> set xs"
  by (auto simp: find_Some_iff)

lemma wp_build_and_push:
  "wp (\<lambda>_ _. True) (build_and_push E B goarch dir) (\<lambda>r w'. \<forall>ref. r = Inr ref \<longrightarrow>
     immutableLocalReference ref \<and>
     (\<exists>output ds. published (trace w') goarch (image_tag E B) dir output \<and> pa_digests B output = Inr ds \<and>
        ref \<in> set ds)) w"
  unfolding build_and_push_def Let_def
  by (rule wp_rules | simp split: sum.splits | intro conjI impI allI
      | force simp: published_def dest: find_Some)+

lemma published_internal: "\<not> external e \<Longrightarrow> published (tr @ [e]) g t d out = published tr g t d out"
  by (simp add: published_def)

lemma wp_removeAll_trace:
  assumes "\<And>r w'. \<exists>e. \<not> external e \<and> trace w' = trace w @ [e] \<Longrightarrow> Q r w'"
  shows "wp (\<lambda>_ _. True) (removeAll E p) Q w"
proof -
  have "\<exists>e. \<not> external e \<and> trace (snd (removeAll E p w)) = trace w @ [e]"
    by (auto simp: removeAll_def Let_def split: option.splits)
  with assms show ?thesis by (auto simp: wp_def)
qed

text \<open>
  C25: a reference that \<open>Ensure\<close> returns is a sha256 digest in the managed local repository, taken
  from Docker's answer for the content-addressed tag, and the last Docker calls before it were
  the successful build of that tag for the architecture of the CLI and its successful push.
\<close>
theorem Ensure_published:
  assumes "Ensure E B goarch tempDir w = (Inr ref, w')"
  shows "immutableLocalReference ref \<and> goarch \<in> {''amd64'', ''arm64''} \<and>
     (\<exists>dir output ds. published (trace w') goarch (image_tag E B) dir output \<and>
        pa_digests B output = Inr ds \<and> ref \<in> set ds)"
proof -
  have tail: "wp (\<lambda>_ _. True) (deferE (ignoreE (removeAll E d)) (bindE (Extract E B d)
      (\<lambda>_. build_and_push E B goarch d))) (\<lambda>r w'. \<forall>ref. r = Inr ref \<longrightarrow> immutableLocalReference ref \<and>
        (\<exists>output ds. published (trace w') goarch (image_tag E B) d output \<and> pa_digests B output = Inr ds \<and>
           ref \<in> set ds)) u" for d u
    by (rule wp_defer, rule wp_bind, rule calm_wp [OF free.calm_Extract TrueI])
       (auto split: sum.splits simp: published_internal
         intro!: wp_ignore wp_removeAll_trace wp_mono [OF wp_build_and_push])
  have "wp (\<lambda>_ _. True) (Ensure E B goarch tempDir) (\<lambda>r w'. \<forall>ref. r = Inr ref \<longrightarrow>
     immutableLocalReference ref \<and> goarch \<in> {''amd64'', ''arm64''} \<and>
     (\<exists>dir output ds. published (trace w') goarch (image_tag E B) dir output \<and>
        pa_digests B output = Inr ds \<and> ref \<in> set ds)) w"
    unfolding Ensure_def
  proof (rule wp_bind, rule calm_wp [OF free.calm_report TrueI], goal_cases)
    case (1 r u)
    have "wp (\<lambda>_ _. True) (bindE (wrapE g (mkdirTemp E tempDir p)) (\<lambda>d.
         deferE (ignoreE (removeAll E d)) (bindE (Extract E B d) (\<lambda>_. build_and_push E B goarch d))))
       (\<lambda>r w'. \<forall>ref. r = Inr ref \<longrightarrow> immutableLocalReference ref \<and>
          (\<exists>dir output ds. published (trace w') goarch (image_tag E B) dir output \<and>
             pa_digests B output = Inr ds \<and> ref \<in> set ds)) v" for g p v
      by (rule wp_bind, rule wp_wrap, rule wp_mkdirTemp) (auto intro!: wp_mono [OF tail], blast)
    then show ?case
      by (cases r) (auto intro!: wp_if wp_fail wp_case_sum)
  qed
  from wpD [OF this assms] show ?thesis by simp
qed

text \<open>An outside whose Docker succeeds, and an artifact with a decoder that returns one digest.\<close>

definition sample_artifact :: artifact where
  "sample_artifact = \<lparr>pa_Binary = elf_magic, pa_Dockerfile = ''FROM scratch'',
     pa_elf = (\<lambda>_. Inr ''EM_X86_64''),
     pa_digests = (\<lambda>_. Inr [''other'', op_PushImageReference sample_options])\<rparr>"

definition tmp_world :: world where
  "tmp_world = \<lparr>trace = [], files = [([''tmp''], Dir)], held = False\<rparr>"

lemma sample_Ensure:
  "fst (Ensure quiet sample_artifact ''amd64'' [''tmp''] tmp_world) = Inr (op_PushImageReference sample_options)"
proof -
  have other: "\<not> immutableLocalReference ''other''"
    by (simp add: immutableLocalReference_def HasPrefix_def LocalPushImageRepository_def)
  show ?thesis
    by (simp add: Ensure_def build_and_push_def Extract_def extract_asset_def io_defs fs_defs quiet_def
        tmp_world_def sample_artifact_def elf_magic_def expected_machine_def upt_rec other sample_reference)
qed

theorem Ensure_published_witness:
  "immutableLocalReference (op_PushImageReference sample_options) \<and>
   (\<exists>dir output. published (trace (snd (Ensure quiet sample_artifact ''amd64'' [''tmp''] tmp_world)))
      ''amd64'' (image_tag quiet sample_artifact) dir output)"
  using Ensure_published [of quiet sample_artifact "''amd64''" "[''tmp'']" tmp_world
      "op_PushImageReference sample_options"
      "snd (Ensure quiet sample_artifact ''amd64'' [''tmp''] tmp_world)"] sample_Ensure
  by (auto simp: prod_eq_iff)

section \<open>The build context is written exclusively\<close>

definition keeps_existing :: "files \<Rightarrow> files \<Rightarrow> bool" where
  "keeps_existing f g \<longleftrightarrow> (\<forall>q. fs_get f q \<noteq> None \<longrightarrow> fs_get g q = fs_get f q)"

lemma wp_extract_asset:
  "wp (\<lambda>_ _. True) (extract_asset E d (n, c, m)) (\<lambda>r w'. keeps_existing (files w) (files w') \<and>
     (r = Inr () \<longrightarrow> fs_get (files w') (d @ [n]) = Some (RegFile c m))) w"
  unfolding extract_asset_def Let_def prod.case
  by (rule wp_openExcl wp_rules | simp add: keeps_existing_def split: sum.splits | intro conjI impI allI)+

lemma wp_Extract:
  "wp (\<lambda>_ _. True) (Extract E B d) (\<lambda>r w'. keeps_existing (files w) (files w') \<and> (r = Inr () \<longrightarrow>
     fs_get (files w') (d @ [''Dockerfile'']) = Some (RegFile (pa_Dockerfile B) mode0644) \<and>
     fs_get (files w') (d @ [''push-service'']) = Some (RegFile (pa_Binary B) mode0755))) w"
proof -
  have dir: "wp (\<lambda>_ _. True) (mkdirAll E d) (\<lambda>r w'. keeps_existing (files w) (files w')) w"
    by (rule wp_mkdirAll) (auto simp: keeps_existing_def)
  have step: "wp (\<lambda>_ _. True) (forE [x, y] (extract_asset E d)) (\<lambda>r w'. keeps_existing (files u) (files w') \<and>
      (r = Inr () \<longrightarrow> fs_get (files w') (d @ [fst x]) = Some (RegFile (fst (snd x)) (snd (snd x))) \<and>
         fs_get (files w') (d @ [fst y]) = Some (RegFile (fst (snd y)) (snd (snd y))))) u" for x y u
    by (cases x; cases y)
       (auto simp: keeps_existing_def intro!: wp_bind wp_mono [OF wp_extract_asset] wp_ret split: sum.splits)
  show ?thesis
    unfolding Extract_def
  proof (rule wp_if, rule wp_fail, simp add: keeps_existing_def, rule wp_bind, rule wp_wrap,
      rule wp_mono [OF dir], goal_cases)
    case (1 r u)
    then show ?case
      by (cases r) (auto simp: keeps_existing_def simp del: forE.simps intro!: wp_mono [OF step])
  qed
qed

text \<open>
  C26: \<open>Extract\<close> never replaces or removes a file that existed before, whatever system call fails,
  and when it succeeds the directory holds exactly the embedded Dockerfile and binary with modes
  0644 and 0755.
\<close>
theorem Extract_exclusive:
  assumes "Extract E B d w = (r, w')"
  shows "(\<forall>q. fs_get (files w) q \<noteq> None \<longrightarrow> fs_get (files w') q = fs_get (files w) q) \<and>
    (case r of Inl _ \<Rightarrow> True
     | Inr _ \<Rightarrow> fs_get (files w') (d @ [''Dockerfile'']) = Some (RegFile (pa_Dockerfile B) mode0644) \<and>
         fs_get (files w') (d @ [''push-service'']) = Some (RegFile (pa_Binary B) mode0755))"
  using wpD [OF wp_Extract assms] by (auto simp: keeps_existing_def split: sum.splits)

theorem Extract_exclusive_witness:
  "fst (Extract quiet sample_artifact [''tmp''] tmp_world) = Inr () \<and>
   fs_get (files (snd (Extract quiet sample_artifact [''tmp''] tmp_world))) [''tmp'', ''push-service''] =
     Some (RegFile elf_magic mode0755)"
proof -
  have "fst (Extract quiet sample_artifact [''tmp''] tmp_world) = Inr ()"
    by (simp add: Extract_def extract_asset_def io_defs fs_defs quiet_def tmp_world_def
        sample_artifact_def elf_magic_def upt_rec)
  with Extract_exclusive [of quiet sample_artifact "[''tmp'']" tmp_world, OF prod.collapse [symmetric]]
  show ?thesis by (simp add: sample_artifact_def)
qed

end
