(* ===== verification/Downloader.thy ===== *)
theory Downloader
  imports World
begin

text \<open>
  \<open>internal/cluster/downloader.go\<close> and the pinned values of \<open>constants.go\<close>: installing a verified
  \<open>kind\<close> binary into the user cache. The SHA-256 function and the HTTP answer belong to the
  outside. The lemma shows that whatever the network and the file system do, a returned path
  holds bytes with the pinned checksum. The periodic byte counts reported while the body is
  copied are left out; the stages are kept.
\<close>

section \<open>Constants\<close>

definition cluster_Name :: string where "cluster_Name = ''tripgo-local''"
definition ControlPlaneContainer :: string where "ControlPlaneContainer = ''tripgo-local-control-plane''"
definition RegistryContainer :: string where "RegistryContainer = ''tripgo-local-registry''"
definition KindVersion :: string where "KindVersion = ''v0.27.0''"
definition KubernetesVersion :: string where "KubernetesVersion = ''v1.32.2''"
definition KindNodeImage :: string where
  "KindNodeImage = ''kindest/node:v1.32.2@sha256:f226345927d7e348497136874b6d207e0b32cc52154ad8323129352923a3142f''"
definition markerPath :: string where "markerPath = ''/etc/tripgoctl/cluster-id''"

definition kindChecksums :: "(string \<times> string) list" where
  "kindChecksums =
     [(''darwin/amd64'', ''3435134325b6b9406ccfec417b13bb46a808fc74e9a2ebb0ca31b379c8293863''),
      (''darwin/arm64'', ''5240ca1acb587e1d0386532dd8c3373d81f5173b5af322919fc56f0cdd646596''),
      (''linux/amd64'', ''a6875aaea358acf0ac07786b1a6755d08fd640f4c79b7a2e46681cc13f49a04b''),
      (''linux/arm64'', ''5e4507a41c69679562610b1be82ba4f80693a7826f4e9c6e39236169a3e4f9d0'')]"

section \<open>EnsureKind\<close>

definition validFileSHA256 :: "outside \<Rightarrow> path \<Rightarrow> string \<Rightarrow> bool io" where
  "validFileSHA256 E p expected =
     tryE (readFile E p) (\<lambda>r. case r of Inl _ \<Rightarrow> retE False | Inr c \<Rightarrow> retE (env_sha256 E c = expected))"

definition kind_path :: "path \<Rightarrow> path" where
  "kind_path cacheDir = cacheDir @ [''kind'', KindVersion, ''kind'']"

text \<open>\<open>os.Remove\<close> where a missing file is no error.\<close>

definition removeIfExists :: "outside \<Rightarrow> (gerr \<Rightarrow> gerr) \<Rightarrow> path \<Rightarrow> unit io" where
  "removeIfExists E wrap p = tryE (removeE E p) (\<lambda>r. case r of
     Inl e \<Rightarrow> if errors_Is e ErrNotExist then retE () else failE (wrap e)
   | Inr _ \<Rightarrow> retE ())"

text \<open>The download: the body is written to a temporary file beside the target and checked there.\<close>

definition downloadKind :: "outside \<Rightarrow> path \<Rightarrow> string \<Rightarrow> string \<Rightarrow> path io" where
  "downloadKind E p url expected =
     bindE (report E Stage (''Downloading kind '' @ KindVersion)) (\<lambda>_.
     bindE (wrapE (\<lambda>e. Errorf [T (''download kind '' @ KindVersion @ '': ''), W e]) (httpGet E url))
       (\<lambda>(status, body, readErr).
     if status \<noteq> 200
     then failE (errorsNew (''download kind '' @ KindVersion @ '': server returned '' @ Itoa status))
     else
     bindE (wrapE (\<lambda>e. Errorf [T ''create kind temporary file: '', W e])
              (createTemp E (butlast p) ''.kind-'' [])) (\<lambda>tmp.
     deferE (ignoreE (removeE E tmp)) (deferE (ignoreE (closeFile E tmp)) (
       bindE (wrapE (\<lambda>e. Errorf [T ''write kind download: '', W e]) (writeFile E tmp body)) (\<lambda>_.
       case readErr of
         Some e \<Rightarrow> failE (Errorf [T ''write kind download: '', W e])
       | None \<Rightarrow>
           bindE (report E Stage ''Verifying kind download'') (\<lambda>_.
           if env_sha256 E body \<noteq> expected
           then failE (errorsNew (''verify kind checksum: expected '' @ expected @ '', got '' @ env_sha256 E body))
           else
           bindE (wrapE (\<lambda>e. Errorf [T ''make kind executable: '', W e]) (chmodFile E tmp 448)) (\<lambda>_.
           bindE (wrapE (\<lambda>e. Errorf [T ''sync kind download: '', W e]) (syncFile E tmp)) (\<lambda>_.
           bindE (wrapE (\<lambda>e. Errorf [T ''close kind download: '', W e]) (closeFile E tmp)) (\<lambda>_.
           bindE (wrapE (\<lambda>e. Errorf [T ''install kind: '', W e]) (renameE E tmp p)) (\<lambda>_.
           retE p)))))))))))"

definition EnsureKind :: "outside \<Rightarrow> path \<Rightarrow> string \<Rightarrow> string \<Rightarrow> path io" where
  "EnsureKind E cacheDir goos goarch =
     (let platform = goos @ ''/'' @ goarch in
      case map_of kindChecksums platform of
        None \<Rightarrow> failE (errorsNew (''unsupported platform '' @ platform @
                  ''; expected macOS or Linux on amd64/arm64''))
      | Some expected \<Rightarrow>
          let p = kind_path cacheDir in
          bindE (validFileSHA256 E p expected) (\<lambda>valid.
          if valid
          then bindE (report E Activity (''Using cached kind '' @ KindVersion)) (\<lambda>_. retE p)
          else
          bindE (removeIfExists E (\<lambda>e. Errorf [T ''remove invalid cached kind: '', W e]) p) (\<lambda>_.
          bindE (wrapE (\<lambda>e. Errorf [T ''create kind cache: '', W e]) (mkdirAll E (butlast p))) (\<lambda>_.
          downloadKind E p
            (''https://github.com/kubernetes-sigs/kind/releases/download/'' @ KindVersion @
             ''/kind-'' @ goos @ ''-'' @ goarch) expected))))"

section \<open>A returned binary has the pinned checksum\<close>

definition holds_checksum :: "outside \<Rightarrow> files \<Rightarrow> path \<Rightarrow> string \<Rightarrow> bool" where
  "holds_checksum E f p expected \<longleftrightarrow> fs_get f p \<noteq> None \<and>
     (\<forall>c m. fs_get f p = Some (RegFile c m) \<longrightarrow> env_sha256 E c = expected)"

lemma wp_validFileSHA256 [wp_rules]:
  assumes "\<And>r. G (trace w) (EFs (ReadFile p) r)"
    and "\<And>r. Q (Inr False) (log (EFs (ReadFile p) r) w)"
    and "holds_checksum E (files w) p expected \<Longrightarrow> Q (Inr True) (log (EFs (ReadFile p) None) w)"
  shows "wp G (validFileSHA256 E p expected) Q w"
  unfolding validFileSHA256_def
proof (rule wp_try, rule wp_readFile)
  fix e show "G (trace w) (EFs (ReadFile p) (Some e)) \<and>
     wp G (case Inl e of Inl _ \<Rightarrow> retE False | Inr c \<Rightarrow> retE (env_sha256 E c = expected)) Q
       (log (EFs (ReadFile p) (Some e)) w)"
    by (simp add: assms wp_ret)
next
  fix c assume "\<forall>c' m. fs_get (files w) p = Some (RegFile c' m) \<longrightarrow> c' = c" "fs_get (files w) p \<noteq> None"
  then have "Q (Inr (env_sha256 E c = expected)) (log (EFs (ReadFile p) None) w)"
    by (cases "env_sha256 E c = expected") (auto simp: holds_checksum_def intro!: assms(2,3))
  then show "G (trace w) (EFs (ReadFile p) None) \<and>
     wp G (case Inr c of Inl _ \<Rightarrow> retE False | Inr c \<Rightarrow> retE (env_sha256 E c = expected)) Q
       (log (EFs (ReadFile p) None) w)"
    by (simp add: assms(1) wp_ret)
qed

lemma wp_removeIfExists [wp_rules]:
  assumes "\<And>r. G (trace w) (EFs (Remove p) r)"
    and "\<And>e. Q (Inl (wrap e)) (log (EFs (Remove p) (Some e)) w)"
    and "\<And>r f. (\<And>q. q \<noteq> p \<Longrightarrow> fs_get f q = fs_get (files w) q) \<Longrightarrow>
           Q (Inr ()) (log (EFs (Remove p) r) (w\<lparr>files := f\<rparr>))"
  shows "wp G (removeIfExists E wrap p) Q w"
  unfolding removeIfExists_def
proof (rule wp_try, rule wp_removeE)
  fix e show "G (trace w) (EFs (Remove p) (Some e)) \<and> wp G (case Inl e of
      Inl e \<Rightarrow> if errors_Is e ErrNotExist then retE () else failE (wrap e)
    | Inr _ \<Rightarrow> retE ()) Q (log (EFs (Remove p) (Some e)) w)"
    using assms(1,2) assms(3) [of "files w"] by (simp add: wp_ret wp_fail)
next
  show "G (trace w) (EFs (Remove p) None) \<and> wp G (case Inr () of
      Inl e \<Rightarrow> if errors_Is e ErrNotExist then retE () else failE (wrap e)
    | Inr _ \<Rightarrow> retE ()) Q (log (EFs (Remove p) None) (w\<lparr>files := fs_del p (files w)\<rparr>))"
    using assms(1) assms(3) [of "fs_del p (files w)"] by (simp add: wp_ret)
qed

lemma wp_downloadKind:
  assumes "p \<noteq> []" and "\<not> HasPrefix (last p) ''.kind-''"
  shows "wp (\<lambda>_ _. True) (downloadKind E p url expected)
    (\<lambda>r w'. \<forall>q. r = Inr q \<longrightarrow> q = p \<and> holds_checksum E (files w') p expected) w"
proof -
  have other: "p \<noteq> q" if "HasPrefix (last q) ''.kind-''" for q using assms that by auto
  show ?thesis
    unfolding downloadKind_def
    by (rule wp_rules | simp add: other other [symmetric] holds_checksum_def split: sum.splits
        | intro conjI impI allI)+
qed

lemma wp_EnsureKind:
  assumes "map_of kindChecksums (goos @ ''/'' @ goarch) = Some expected"
  shows "wp (\<lambda>_ _. True) (EnsureKind E cacheDir goos goarch)
    (\<lambda>r w'. \<forall>q. r = Inr q \<longrightarrow>
       q = kind_path cacheDir \<and> holds_checksum E (files w') (kind_path cacheDir) expected) w"
proof -
  have p: "kind_path cacheDir \<noteq> []" "\<not> HasPrefix (last (kind_path cacheDir)) ''.kind-''"
    by (simp_all add: kind_path_def HasPrefix_def)
  show ?thesis
    unfolding EnsureKind_def Let_def assms option.case
    by (rule wp_downloadKind [OF p] wp_rules | simp split: sum.splits | intro conjI impI allI)+
qed

text \<open>
  C18: for every answer of the network and every failure of the file system, a path that
  \<open>EnsureKind\<close> returns is the cache path of the pinned version, and the file there has the
  SHA-256 checksum pinned for the platform; an unsupported platform returns an error.
\<close>
theorem EnsureKind_verified:
  "case EnsureKind E cacheDir goos goarch w of (r, w') \<Rightarrow>
     (case map_of kindChecksums (goos @ ''/'' @ goarch) of
        None \<Rightarrow> \<exists>e. r = Inl e
      | Some expected \<Rightarrow>
          (case r of Inl _ \<Rightarrow> True
           | Inr q \<Rightarrow> q = kind_path cacheDir \<and> holds_checksum E (files w') q expected))"
proof (cases "map_of kindChecksums (goos @ ''/'' @ goarch)")
  case None
  then show ?thesis by (simp add: EnsureKind_def failE_def)
next
  case (Some expected)
  then show ?thesis
    using wpD [OF wp_EnsureKind [OF Some, of E cacheDir w] prod.collapse [symmetric]]
    by (auto simp: case_prod_beta split: sum.splits)
qed

end
