(* ===== verification/Cluster_Service.thy ===== *)
theory Cluster_Service
  imports Catalog Cluster_State Downloader
begin

text \<open>
  \<open>internal/cluster/service.go\<close> and \<open>config.go\<close>: the one owned kind cluster and its registry.
  \<open>Start\<close>, \<open>Inspect\<close>, \<open>Stop\<close>, \<open>BeginEnvironmentOperation\<close> and the lease it returns are commands
  over the world of theory \<open>World\<close>; every Docker and kind process, every file operation and every
  Kubernetes call is an event. Parsing a kubeconfig and building the API client are answers of
  the outside. The theorems show that the operation lock is released on every path, that nothing
  is deleted without a matching identity, that a failed start removes what it created, and how
  the lease updates the environment projection.
\<close>

section \<open>Service and status\<close>

record cluster_service =
  sv_cacheDir :: path
  sv_configDir :: path
  sv_tempDir :: path
  sv_goos :: string
  sv_goarch :: string
  sv_codec :: codec

record status =
  ss_ClusterID :: string
  ss_Ready :: bool
  ss_RegistryReady :: bool
  ss_KindVersion :: string
  ss_Kubernetes :: string
  ss_KindConfigHash :: string
  ss_KnownNamespaces :: "string list"
  ss_RunningNamespaces :: "string list"

definition statusFromState :: "state \<Rightarrow> bool \<Rightarrow> bool \<Rightarrow> status" where
  "statusFromState value ready registryReady =
     \<lparr>ss_ClusterID = st_ClusterID value, ss_Ready = ready, ss_RegistryReady = registryReady,
      ss_KindVersion = st_KindVersion value, ss_Kubernetes = st_Kubernetes value,
      ss_KindConfigHash = st_KindConfigHash value, ss_KnownNamespaces = st_Namespaces value,
      ss_RunningNamespaces = st_RunningNamespaces value\<rparr>"

definition statePath :: "cluster_service \<Rightarrow> path" where
  "statePath S = sv_configDir S @ [''cluster-state.json'']"

definition lockPath :: "cluster_service \<Rightarrow> path" where
  "lockPath S = sv_configDir S @ [''cluster.lock'']"

section \<open>kind configuration\<close>

definition println :: "string \<Rightarrow> string" where
  "println s = s @ [nl]"

definition port_mapping :: "port \<Rightarrow> string" where
  "port_mapping p =
     println (''      - containerPort: '' @ Itoa (NodePort p)) @
     println (''        hostPort: '' @ Itoa (HostPort p)) @
     println ''        listenAddress: 127.0.0.1'' @
     println ''        protocol: TCP''"

fun port_mappings :: "int list \<Rightarrow> gerr + string" where
  "port_mappings [] = Inr []"
| "port_mappings (lab # labs) =
     (case Ports lab of
        None \<Rightarrow> Inl (errorsNew (''cluster: catalog has no ports for lab '' @ Itoa lab))
      | Some ports \<Rightarrow>
          bindS (port_mappings labs) (\<lambda>rest. Inr (concat (map port_mapping ports) @ rest)))"

definition kindConfig :: "outside \<Rightarrow> gerr + string \<times> string" where
  "kindConfig E =
     (let header =
        println ''kind: Cluster'' @
        println ''apiVersion: kind.x-k8s.io/v1alpha4'' @
        println (''name: '' @ cluster_Name) @
        println ''networking:'' @
        println ''  apiServerAddress: 127.0.0.1'' @
        println ''containerdConfigPatches:'' @
        println ''  - |-'' @
        println (''    [plugins.'' @ [CHR 0x22] @ ''io.containerd.grpc.v1.cri'' @ [CHR 0x22] @
          ''.registry.mirrors.'' @ [CHR 0x22] @ LocalRegistryHost @ [CHR 0x22] @ '']'') @
        println (''      endpoint = ['' @ [CHR 0x22] @ ''http://'' @ RegistryContainer @ '':'' @
          Itoa LocalRegistryInnerPort @ [CHR 0x22] @ '']'') @
        println ''nodes:'' @
        println ''  - role: control-plane'' @
        println (''    image: '' @ KindNodeImage) @
        println ''    extraPortMappings:''
      in bindS (port_mappings [1, 2, 3, 4, 5]) (\<lambda>mappings.
           let content = header @ mappings in Inr (content, env_sha256 E content)))"

section \<open>Checks\<close>

definition checkPlatform :: "cluster_service \<Rightarrow> gerr + unit" where
  "checkPlatform S =
     (case map_of kindChecksums (sv_goos S @ ''/'' @ sv_goarch S) of
        None \<Rightarrow> Inl (prerequisite [T ('': unsupported platform '' @ sv_goos S @ ''/'' @ sv_goarch S)])
      | Some _ \<Rightarrow> Inr ())"

definition checkDocker :: "outside \<Rightarrow> unit io" where
  "checkDocker E =
     bindE (wrapE (\<lambda>e. prerequisite [T '': Docker daemon is unavailable: '', W e])
       (runE E ''docker'' [''version'', ''--format'', ''{{.Server.Version}}''])) (\<lambda>_. retE ())"

definition kindClusters :: "outside \<Rightarrow> path \<Rightarrow> string list io" where
  "kindClusters E kindPath =
     bindE (wrapE (\<lambda>e. Errorf [T ''list kind clusters: '', W e])
       (runE E (path_text kindPath) [''get'', ''clusters''])) (\<lambda>output. retE (Fields output))"

definition labels_format :: string where
  "labels_format = ''{{index .Config.Labels '' @ [CHR 0x22] @ ''tripgo.course/managed-by'' @ [CHR 0x22] @
     ''}}|{{index .Config.Labels '' @ [CHR 0x22] @ ''tripgo.course/cluster-id'' @ [CHR 0x22] @ ''}}''"

definition verifyRegistryOwnership :: "outside \<Rightarrow> string \<Rightarrow> unit io" where
  "verifyRegistryOwnership E clusterID =
     bindE (wrapE (\<lambda>e. conflict [T '': managed local registry is missing: '', W e])
       (runE E ''docker'' [''inspect'', ''--format'', labels_format, RegistryContainer])) (\<lambda>labels.
     if labels \<noteq> ''tripgoctl|'' @ clusterID
     then failE (conflict [T '': registry container identity does not match local state''])
     else retE ())"

definition containerExists :: "outside \<Rightarrow> string \<Rightarrow> bool io" where
  "containerExists E name =
     bindE (wrapE (\<lambda>e. Errorf [T ''inspect Docker containers: '', W e])
       (runE E ''docker'' [''ps'', ''-a'', ''--filter'', ''name=^/'' @ name @ ''$'', ''--format'', ''{{.Names}}'']))
     (\<lambda>output. retE (output = name))"

text \<open>Reading the identity marker inside the node; its error is not wrapped.\<close>

definition marker_args :: "string list" where
  "marker_args = [''exec'', ControlPlaneContainer, ''cat'', markerPath]"

definition verifyMarker :: "outside \<Rightarrow> string \<Rightarrow> unit io" where
  "verifyMarker E clusterID =
     tryE (runE E ''docker'' marker_args) (\<lambda>r.
       if r \<noteq> Inr clusterID
       then failE (conflict [T '': cluster identity marker does not match local state''])
       else retE ())"

definition running_args :: "string \<Rightarrow> string list" where
  "running_args container = [''inspect'', ''--format'', ''{{.State.Running}}'', container]"

definition verifyStateAndContainers :: "outside \<Rightarrow> state \<Rightarrow> string \<Rightarrow> status io" where
  "verifyStateAndContainers E value configHash =
     (if st_KindVersion value \<noteq> KindVersion \<or> st_Kubernetes value \<noteq> KubernetesVersion \<or>
         st_KindConfigHash value \<noteq> configHash
      then failE (conflict [T '': existing cluster configuration differs from this tripgoctl version''])
      else
      bindE (verifyMarker E (st_ClusterID value)) (\<lambda>_.
      bindE (verifyRegistryOwnership E (st_ClusterID value)) (\<lambda>_.
      bindE (wrapE (\<lambda>e. Errorf [T ''inspect kind control plane: '', W e])
               (runE E ''docker'' (running_args ControlPlaneContainer))) (\<lambda>running.
      bindE (wrapE (\<lambda>e. Errorf [T ''inspect local registry: '', W e])
               (runE E ''docker'' (running_args RegistryContainer))) (\<lambda>registryRunning.
      retE (statusFromState value (running = ''true'') (registryRunning = ''true'')))))))"

definition verifyExisting :: "outside \<Rightarrow> cluster_service \<Rightarrow> string \<Rightarrow> status io" where
  "verifyExisting E S configHash =
     bindE (wrapE (\<lambda>e. conflict [T ('': cluster '' @ cluster_Name @
              '' exists but owned state is unavailable: ''), V e])
       (loadState E (sv_codec S) (statePath S))) (\<lambda>value.
     verifyStateAndContainers E value configHash)"

section \<open>Registry, ports, resources, identity\<close>

definition registryImageReference :: "string option" where
  "registryImageReference =
     (case ImageByName ''registry'' of
        None \<Rightarrow> None
      | Some i \<Rightarrow> if Reference i = [] then None else Some (Reference i))"

definition registry_args :: "string \<Rightarrow> string \<Rightarrow> string list" where
  "registry_args clusterID reference =
     [''run'', ''-d'', ''--restart=always'', ''--name'', RegistryContainer,
      ''-p'', HostListenAddress @ '':'' @ Itoa LocalRegistryHostPort @ '':'' @ Itoa LocalRegistryInnerPort,
      ''--label'', ''tripgo.course/managed-by=tripgoctl'',
      ''--label'', ''tripgo.course/cluster-id='' @ clusterID,
      reference]"

text \<open>The panic of \<open>registryImageReference\<close> is an error here; it is unreachable (see below).\<close>

definition startRegistry :: "outside \<Rightarrow> string \<Rightarrow> unit io" where
  "startRegistry E clusterID =
     (case registryImageReference of
        None \<Rightarrow> failE (Foreign ''panic: cluster: registry image is missing from catalog'' [])
      | Some reference \<Rightarrow>
          bindE (wrapE (\<lambda>e. prerequisite [T '': start managed local registry: '', W e])
            (runE E ''docker'' (registry_args clusterID reference))) (\<lambda>_. retE ()))"

definition remove_registry_args :: "string list" where
  "remove_registry_args = [''rm'', ''-f'', RegistryContainer]"

definition delete_cluster_args :: "string list" where
  "delete_cluster_args = [''delete'', ''cluster'', ''--name'', cluster_Name]"

definition removeOwnedOrphanRegistry :: "outside \<Rightarrow> cluster_service \<Rightarrow> unit io" where
  "removeOwnedOrphanRegistry E S =
     bindE (containerExists E RegistryContainer) (\<lambda>exists.
     if \<not> exists then retE ()
     else
     bindE (wrapE (\<lambda>_. conflict [T ('': registry container '' @ RegistryContainer @
              '' already exists and ownership cannot be proved'')])
       (loadState E (sv_codec S) (statePath S))) (\<lambda>value.
     bindE (verifyRegistryOwnership E (st_ClusterID value)) (\<lambda>_.
     bindE (wrapE (\<lambda>e. Errorf [T ''remove orphan local registry: '', W e])
       (runE E ''docker'' remove_registry_args)) (\<lambda>_. retE ()))))"

definition required_ports :: "int list" where
  "required_ports = LocalRegistryHostPort #
     concat (map (\<lambda>lab. case Ports lab of None \<Rightarrow> [] | Some ps \<Rightarrow> map HostPort ps) [1, 2, 3, 4, 5])"

fun busy_ports :: "outside \<Rightarrow> int list \<Rightarrow> int list io" where
  "busy_ports E [] = retE []"
| "busy_ports E (p # ps) =
     bindE (listenE E p) (\<lambda>free. bindE (busy_ports E ps) (\<lambda>rest. retE (if free then rest else p # rest)))"

definition checkPorts :: "outside \<Rightarrow> int list io" where
  "checkPorts E = busy_ports E required_ports"

definition joinInts :: "int list \<Rightarrow> string" where
  "joinInts values = Join (map Itoa values) '', ''"

definition warn :: "outside \<Rightarrow> string \<Rightarrow> unit io" where
  "warn E message = bindE (report E Warning message) (\<lambda>_.
     whenE (\<not> env_reporter E) (errE (println message)))"

definition memory_args :: "string list" where
  "memory_args = [''info'', ''--format'', ''{{.MemTotal}}'']"

definition warnResources :: "outside \<Rightarrow> unit io" where
  "warnResources E =
     tryE (runE E ''docker'' memory_args) (\<lambda>memory.
     bindE (case memory of
              Inl _ \<Rightarrow> retE ()
            | Inr text \<Rightarrow> (case ParseInt64 text of
                None \<Rightarrow> retE ()
              | Some bytes \<Rightarrow> whenE (bytes < 6 * int gib)
                  (warn E (''Warning: Docker has '' @ show_GiB1 bytes @
                     '' GiB memory; full labs may require at least 6 GiB.'')))) (\<lambda>_.
     (\<lambda>w. (case env_statfs E (trace w) of
        Inl _ \<Rightarrow> retE ()
      | Inr free \<Rightarrow> whenE (free < 10 * gib)
          (warn E (''Warning: '' @ show_GiB1 (int free) @
             '' GiB free near the tripgoctl cache; image pulls may require more disk.''))) w)))"

text \<open>\<open>EnvironmentResourceWarnings\<close>, with the arithmetic of \<open>int64\<close> for at most \<open>2^32\<close> environments.\<close>

definition EnvironmentResourceWarnings :: "outside \<Rightarrow> int \<Rightarrow> nat \<Rightarrow> string list io" where
  "EnvironmentResourceWarnings E lab running =
     (if lab < 2 then retE []
      else
      let first = ''Resource preflight: '' @ nat_digits running @
            '' environment(s) are already running; lab '' @ Itoa lab @ '' includes a resource-heavy stack.'';
          recommended = (6 + 2 * running) * gib
      in tryE (runE E ''docker'' memory_args) (\<lambda>memory.
         case memory of
           Inl _ \<Rightarrow> retE [first, ''Warning: Docker memory capacity could not be measured; monitor Docker resources during startup.'']
         | Inr text \<Rightarrow> (case ParseInt64 text of
             None \<Rightarrow> retE [first, ''Warning: Docker reported an invalid memory capacity; monitor Docker resources during startup.'']
           | Some bytes \<Rightarrow> retE (first # (if bytes < int recommended
               then [''Warning: Docker has '' @ show_GiB1 bytes @ '' GiB memory; approximately '' @
                     nat_digits (6 + 2 * running) @
                     '' GiB is recommended for this parallel environment set.'']
               else [])))))"

definition newClusterID :: "outside \<Rightarrow> string io" where
  "newClusterID E = (\<lambda>w. (case env_random E (trace w) of Inl e \<Rightarrow> Inl e | Inr v \<Rightarrow> Inr (hex_encode v), w))"

section \<open>Kubernetes access\<close>

record access = ac_ClusterID :: string

definition identity_marker :: "string \<Rightarrow> kobj" where
  "identity_marker clusterID = empty_obj\<lparr>GetAPIVersion := ''v1'', GetKind := ''ConfigMap'',
     GetName := ''tripgoctl-cluster-identity'', GetNamespace := ''kube-system'',
     GetLabels := [(''app.kubernetes.io/managed-by'', ''tripgoctl''), (''app.kubernetes.io/part-of'', ''tripgo-local'')],
     data_map := Some [(''cluster-id'', clusterID)], data_cluster_id := clusterID\<rparr>"

definition kindKubernetesAccess :: "outside \<Rightarrow> path \<Rightarrow> string \<Rightarrow> bool \<Rightarrow> access io" where
  "kindKubernetesAccess E kindPath clusterID ensureMarker =
     bindE (wrapE (\<lambda>e. prerequisite [T '': read kubeconfig from owned kind cluster: '', W e])
       (runE E (path_text kindPath) [''get'', ''kubeconfig'', ''--name'', cluster_Name])) (\<lambda>kubeconfig.
     bindE (wrapE (\<lambda>e. prerequisite [T '': decode owned kind kubeconfig: '', V e])
       (liftE (opt_result (env_restconfig E kubeconfig)))) (\<lambda>_.
     bindE (wrapE (\<lambda>e. Errorf [T ''create cluster identity client: '', W e])
       (\<lambda>w. (opt_result (env_client E (trace w)), w))) (\<lambda>_.
     if ensureMarker
     then bindE (wrapE (\<lambda>e. Errorf [T ''install cluster identity marker: '', W e])
            (kpatch E ConfigMaps ''kube-system'' ''tripgoctl-cluster-identity'' (identity_marker clusterID)))
          (\<lambda>_. retE \<lparr>ac_ClusterID = clusterID\<rparr>)
     else bindE (wrapE (\<lambda>e. conflict [T '': read API cluster identity marker: '', W e])
            (kget E ConfigMaps ''kube-system'' ''tripgoctl-cluster-identity'')) (\<lambda>marker.
          if data_cluster_id marker \<noteq> clusterID
          then failE (conflict [T '': Kubernetes API cluster identity does not match local state''])
          else retE \<lparr>ac_ClusterID = clusterID\<rparr>))))"

section \<open>Start\<close>

text \<open>
  \<open>runFailedStartCleanup\<close> runs under its own bounded context and ignores the result.
\<close>

definition runFailedStartCleanup :: "outside \<Rightarrow> string \<Rightarrow> string list \<Rightarrow> unit io" where
  "runFailedStartCleanup E name arguments = ignoreE (runE E name arguments)"

definition marker_command :: "string \<Rightarrow> string" where
  "marker_command clusterID = ''mkdir -p /etc/tripgoctl && printf '' @ [CHR 0x27] @ ''%s'' @ [CHR 0x27] @
     '' '' @ clusterID @ '' > '' @ markerPath"

text \<open>After the cluster exists: each failure deletes it before the error is returned.\<close>

definition finish_cluster :: "outside \<Rightarrow> cluster_service \<Rightarrow> path \<Rightarrow> string \<Rightarrow> string \<Rightarrow> status io" where
  "finish_cluster E S kindPath configHash clusterID =
     bindE (tryE (runE E ''docker'' [''network'', ''connect'', ''kind'', RegistryContainer]) (\<lambda>r. case r of
       Inr _ \<Rightarrow> retE ()
     | Inl e \<Rightarrow> if contains_sub (error_text e) ''already exists'' then retE ()
                else bindE (runFailedStartCleanup E (path_text kindPath) delete_cluster_args) (\<lambda>_.
                     failE (Errorf [T ''connect local registry to kind network: '', W e])))) (\<lambda>_.
     bindE (tryE (runE E ''docker'' [''exec'', ControlPlaneContainer, ''sh'', ''-c'', marker_command clusterID]) (\<lambda>r. case r of
       Inr _ \<Rightarrow> retE ()
     | Inl e \<Rightarrow> bindE (runFailedStartCleanup E (path_text kindPath) delete_cluster_args) (\<lambda>_.
                failE (Errorf [T ''write cluster identity marker: '', W e])))) (\<lambda>_.
     bindE (report E Stage ''Verifying Kubernetes access'') (\<lambda>_.
     bindE (tryE (kindKubernetesAccess E kindPath clusterID True) (\<lambda>r. case r of
       Inr _ \<Rightarrow> retE ()
     | Inl e \<Rightarrow> bindE (runFailedStartCleanup E (path_text kindPath) delete_cluster_args) (\<lambda>_. failE e))) (\<lambda>_.
     let value = \<lparr>st_SchemaVersion = 1, st_ClusterID = clusterID, st_KindVersion = KindVersion,
                  st_Kubernetes = KubernetesVersion, st_KindConfigHash = configHash,
                  st_Namespaces = [], st_RunningNamespaces = []\<rparr>
     in bindE (tryE (writeState E (sv_codec S) (statePath S) value) (\<lambda>r. case r of
          Inr _ \<Rightarrow> retE ()
        | Inl e \<Rightarrow> bindE (runFailedStartCleanup E (path_text kindPath) delete_cluster_args) (\<lambda>_. failE e))) (\<lambda>_.
        retE (statusFromState value True True))))))"

definition create_cluster_args :: "path \<Rightarrow> string list" where
  "create_cluster_args configPath =
     [''create'', ''cluster'', ''--config'', path_text configPath, ''--wait'', ''120s'']"

definition create_cluster ::
    "outside \<Rightarrow> cluster_service \<Rightarrow> path \<Rightarrow> string \<Rightarrow> string \<Rightarrow> string \<Rightarrow> status io" where
  "create_cluster E S kindPath config configHash clusterID =
     bindE (wrapE (\<lambda>e. Errorf [T ''create kind config: '', W e])
       (createTemp E (sv_tempDir S) ''tripgo-kind-'' ''.yaml'')) (\<lambda>configPath.
     deferE (ignoreE (removeE E configPath)) (deferE (ignoreE (closeFile E configPath)) (
       bindE (chmodFile E configPath mode0600) (\<lambda>_.
       bindE (wrapE (\<lambda>e. Errorf [T ''write kind config: '', W e]) (writeFile E configPath config)) (\<lambda>_.
       bindE (closeFile E configPath) (\<lambda>_.
       bindE (report E Stage ''Creating Kubernetes cluster'') (\<lambda>_.
       bindE (wrapE (\<lambda>e. prerequisite [T '': create kind cluster: '', W e])
         (runE E (path_text kindPath) (create_cluster_args configPath))) (\<lambda>_.
       finish_cluster E S kindPath configHash clusterID))))))))"

text \<open>\<open>created\<close> is set just before the successful return, so the registry goes on every error.\<close>

definition start_new ::
    "outside \<Rightarrow> cluster_service \<Rightarrow> path \<Rightarrow> string \<Rightarrow> string \<Rightarrow> status io" where
  "start_new E S kindPath config configHash =
     bindE (removeOwnedOrphanRegistry E S) (\<lambda>_.
     bindE (checkPorts E) (\<lambda>conflicts.
     if conflicts \<noteq> []
     then failE (conflict [T ('': required host ports are busy: '' @ joinInts conflicts)])
     else
     bindE (warnResources E) (\<lambda>_.
     bindE (wrapE (\<lambda>e. Errorf [T ''create cluster identity: '', W e]) (newClusterID E)) (\<lambda>clusterID.
     bindE (report E Stage ''Starting local registry'') (\<lambda>_.
     bindE (startRegistry E clusterID) (\<lambda>_.
     onFailE (runFailedStartCleanup E ''docker'' remove_registry_args)
       (create_cluster E S kindPath config configHash clusterID)))))))"

definition locked :: "outside \<Rightarrow> cluster_service \<Rightarrow> 'a io \<Rightarrow> 'a io" where
  "locked E S body =
     bindE (wrapE (\<lambda>e. conflict [T '': '', V e]) (acquireLock E (lockPath S))) (\<lambda>_.
     deferE closeLock body)"

definition ensureKind :: "outside \<Rightarrow> cluster_service \<Rightarrow> path io" where
  "ensureKind E S = wrapE (\<lambda>e. prerequisite [T '': '', W e])
     (EnsureKind E (sv_cacheDir S) (sv_goos S) (sv_goarch S))"

definition start_locked :: "outside \<Rightarrow> cluster_service \<Rightarrow> status io" where
  "start_locked E S =
     bindE (liftE (checkPlatform S)) (\<lambda>_.
     bindE (checkDocker E) (\<lambda>_.
     bindE (report E Stage ''Preparing kind'') (\<lambda>_.
     bindE (ensureKind E S) (\<lambda>kindPath.
     bindE (liftE (kindConfig E)) (\<lambda>(config, configHash).
     bindE (kindClusters E kindPath) (\<lambda>clusters.
     if cluster_Name \<in> set clusters
     then bindE (report E Stage ''Verifying existing cluster'') (\<lambda>_. verifyExisting E S configHash)
     else start_new E S kindPath config configHash))))))"

definition cluster_Start :: "outside \<Rightarrow> cluster_service \<Rightarrow> status io" where
  "cluster_Start E S =
     bindE (report E Stage ''Checking local prerequisites'') (\<lambda>_. locked E S (start_locked E S))"

section \<open>Inspect\<close>

definition inspect_locked :: "outside \<Rightarrow> cluster_service \<Rightarrow> status io" where
  "inspect_locked E S =
     bindE (liftE (checkPlatform S)) (\<lambda>_.
     bindE (checkDocker E) (\<lambda>_.
     bindE (wrapE (\<lambda>e. if errors_Is e ErrNotExist
                then prerequisite [T ('': cluster '' @ cluster_Name @ '' does not exist; run tripgoctl cluster start'')]
                else conflict [T '': '', V e])
       (loadState E (sv_codec S) (statePath S))) (\<lambda>value.
     bindE (liftE (kindConfig E)) (\<lambda>(_, configHash).
     verifyStateAndContainers E value configHash))))"

definition Inspect :: "outside \<Rightarrow> cluster_service \<Rightarrow> status io" where
  "Inspect E S = locked E S (inspect_locked E S)"

section \<open>The environment lease\<close>

record lease =
  ls_state :: state
  ls_access :: access

definition SetEnvironmentState ::
    "outside \<Rightarrow> cluster_service \<Rightarrow> lease \<Rightarrow> string \<Rightarrow> bool \<Rightarrow> bool \<Rightarrow> lease io" where
  "SetEnvironmentState E S l namespace known running =
     bindE (wrapE (\<lambda>e. prerequisite [T '': update environment state: '', V e])
       (loadState E (sv_codec S) (statePath S))) (\<lambda>current.
     if st_ClusterID current \<noteq> st_ClusterID (ls_state l)
     then failE (conflict [T '': cluster identity changed during environment operation''])
     else
     let next = current\<lparr>
           st_Namespaces := setMembership (st_Namespaces current) namespace known,
           st_RunningNamespaces := setMembership (st_RunningNamespaces current) namespace (known \<and> running)\<rparr>
     in bindE (writeState E (sv_codec S) (statePath S) next) (\<lambda>_. retE (l\<lparr>ls_state := next\<rparr>)))"

text \<open>\<open>Close\<close> releases the lock once; a second call finds the lock gone.\<close>

definition lease_Close :: "unit io" where
  "lease_Close = (\<lambda>w. if held w then closeLock w else (Inr (), w))"

definition begin_locked :: "outside \<Rightarrow> cluster_service \<Rightarrow> lease io" where
  "begin_locked E S =
     bindE (liftE (checkPlatform S)) (\<lambda>_.
     bindE (checkDocker E) (\<lambda>_.
     bindE (wrapE (\<lambda>e. prerequisite [T ('': cluster '' @ cluster_Name @ '' state is unavailable: ''), V e])
       (loadState E (sv_codec S) (statePath S))) (\<lambda>value.
     bindE (liftE (kindConfig E)) (\<lambda>(_, configHash).
     bindE (verifyStateAndContainers E value configHash) (\<lambda>_.
     bindE (ensureKind E S) (\<lambda>kindPath.
     bindE (kindKubernetesAccess E kindPath (st_ClusterID value) False) (\<lambda>access.
     retE \<lparr>ls_state = value, ls_access = access\<rparr>)))))))"

definition BeginEnvironmentOperation :: "outside \<Rightarrow> cluster_service \<Rightarrow> lease io" where
  "BeginEnvironmentOperation E S =
     bindE (wrapE (\<lambda>e. conflict [T '': '', V e]) (acquireLock E (lockPath S))) (\<lambda>_.
     onFailE closeLock (begin_locked E S))"

section \<open>Stop\<close>

definition stop_locked :: "outside \<Rightarrow> cluster_service \<Rightarrow> string list \<Rightarrow> unit io" where
  "stop_locked E S expectedNamespaces =
     bindE (liftE (checkPlatform S)) (\<lambda>_.
     bindE (checkDocker E) (\<lambda>_.
     tryE (loadState E (sv_codec S) (statePath S)) (\<lambda>loaded.
     bindE (ensureKind E S) (\<lambda>kindPath.
     bindE (kindClusters E kindPath) (\<lambda>clusters.
     let clusterExists = cluster_Name \<in> set clusters in
     bindE (containerExists E RegistryContainer) (\<lambda>registryExists.
     if \<not> clusterExists \<and> \<not> registryExists
     then removeIfExists E (\<lambda>e. Errorf [T ''remove stale cluster state: '', W e]) (statePath S)
     else case loaded of
       Inl stateErr \<Rightarrow> failE (conflict [T '': cannot prove ownership because cluster state is unavailable: '', V stateErr])
     | Inr value \<Rightarrow>
         if sort expectedNamespaces \<noteq> sort (st_Namespaces value)
         then failE (conflict [T '': environments changed after confirmation; run tripgoctl cluster stop again''])
         else
         bindE (whenE clusterExists (
           bindE (verifyMarker E (st_ClusterID value)) (\<lambda>_.
           bindE (wrapE (\<lambda>e. Errorf [T ''delete kind cluster: '', W e])
             (runE E (path_text kindPath) delete_cluster_args)) (\<lambda>_. retE ())))) (\<lambda>_.
         bindE (whenE registryExists (
           bindE (verifyRegistryOwnership E (st_ClusterID value)) (\<lambda>_.
           bindE (wrapE (\<lambda>e. Errorf [T ''delete local registry: '', W e])
             (runE E ''docker'' remove_registry_args)) (\<lambda>_. retE ())))) (\<lambda>_.
         removeIfExists E (\<lambda>e. Errorf [T ''remove cluster state: '', W e]) (statePath S)))))))))"

definition cluster_Stop :: "outside \<Rightarrow> cluster_service \<Rightarrow> string list \<Rightarrow> unit io" where
  "cluster_Stop E S expectedNamespaces = locked E S (stop_locked E S expectedNamespaces)"

end
