(* ===== verification/Lab_Service.thy ===== *)
theory Lab_Service
  imports Lab_Files Push_Image Cluster_Service
begin

text \<open>
  The operations of \<open>internal/lab/service.go\<close>: \<open>Start\<close>, \<open>Status\<close>, \<open>Stop\<close>, \<open>Reset\<close> and \<open>List\<close> of a
  lab environment over the world of theory \<open>World\<close>. The YAML decoder, the TOML decoder, the
  converter to typed pods and events and the template engine are fields of \<open>lab_service\<close>.
  \<open>wait.PollUntilContextTimeout\<close> is the function \<open>poll\<close>: the condition is evaluated at once and
  then after every interval, at most as often as intervals fit into the limit, until it returns
  true or an error or the context ends.
\<close>

section \<open>Service\<close>

datatype doc = DocError gerr | DocBlank | DocBad gerr | DocObject kobj

record lab_service =
  lb_cluster :: cluster_service
  lb_decode :: "string \<Rightarrow> toml_error + document"
  lb_templates :: templates
  lb_artifact :: artifact
  lb_docs :: "string \<Rightarrow> doc list"
  lb_pod :: "kobj \<Rightarrow> gerr + pod"
  lb_event :: "kobj \<Rightarrow> gerr + pod_event"

text \<open>An empty path stands for the empty working directory.\<close>

definition loadCurrentConfig :: "outside \<Rightarrow> lab_service \<Rightarrow> path \<Rightarrow> config io" where
  "loadCurrentConfig E L cwd =
     (if cwd = [] then failE (errorsNew ''working directory is required'')
      else
      tryE (readFile E (cwd @ [''environment.toml''])) (\<lambda>r.
      bindE (liftE (ParseFile (\<lambda>_. r) (lb_decode L) (path_text (cwd @ [''environment.toml''])))) (\<lambda>c.
      if cf_Lab c < 1 \<or> cf_Lab c > 5
      then failE (prerequisite [T ('': lab '' @ Itoa (cf_Lab c) @
             '' lifecycle is not available; this tripgoctl version supports labs 1 through 5'')])
      else retE c)))"

definition ConfiguredLab :: "outside \<Rightarrow> lab_service \<Rightarrow> path \<Rightarrow> int io" where
  "ConfiguredLab E L cwd = bindE (loadCurrentConfig E L cwd) (\<lambda>c. retE (cf_Lab c))"

definition lab_client :: "outside \<Rightarrow> lab_service \<Rightarrow> lease io" where
  "lab_client E L =
     bindE (BeginEnvironmentOperation E (lb_cluster L)) (\<lambda>l.
     onFailE lease_Close
       (bindE (wrapE (\<lambda>e. Errorf [T ''create Kubernetes client: '', W e])
          (\<lambda>w. (opt_result (env_client E (trace w)), w))) (\<lambda>_. retE l)))"

text \<open>\<open>lease, access, client, err := s.client(ctx); defer lease.Close()\<close>.\<close>

definition with_client :: "outside \<Rightarrow> lab_service \<Rightarrow> (lease \<Rightarrow> 'a io) \<Rightarrow> 'a io" where
  "with_client E L body = bindE (lab_client E L) (\<lambda>l. deferE lease_Close (body l))"

abbreviation lease_id :: "lease \<Rightarrow> string" where
  "lease_id l \<equiv> ac_ClusterID (ls_access l)"

definition lab_namespace :: "int \<Rightarrow> string" where
  "lab_namespace lab = (case environment_entry lab of None \<Rightarrow> [] | Some e \<Rightarrow> en_Namespace e)"

section \<open>Ownership checks\<close>

definition verifyNamespace :: "outside \<Rightarrow> string \<Rightarrow> int \<Rightarrow> string \<Rightarrow> unit io" where
  "verifyNamespace E namespace lab clusterID =
     tryE (kget E Namespaces [] namespace) (\<lambda>r. case r of
       Inl e \<Rightarrow>
         if IsNotFound e
         then failE (prerequisite [T ('': environment '' @ namespace @ '' does not exist; run tripgoctl environment start'')])
         else failE (Errorf [T (''inspect namespace '' @ namespace @ '': ''), W e])
     | Inr object \<Rightarrow>
         (case verifyResourceOwnership object lab namespace clusterID of
            Inl _ \<Rightarrow> failE (conflict [T ('': namespace '' @ namespace @ '' is not owned by this tripgoctl cluster'')])
          | Inr _ \<Rightarrow> retE ()))"

definition get_owned :: "outside \<Rightarrow> gvr \<Rightarrow> string \<Rightarrow> string \<Rightarrow> int \<Rightarrow> string \<Rightarrow> gerr \<Rightarrow> (gerr \<Rightarrow> gerr) \<Rightarrow> kobj io" where
  "get_owned E g namespace name lab clusterID absent inspect =
     tryE (kget E g namespace name) (\<lambda>r. case r of
       Inl e \<Rightarrow> if IsNotFound e then failE absent else failE (inspect e)
     | Inr object \<Rightarrow> bindE (liftE (verifyResourceOwnership object lab namespace clusterID)) (\<lambda>_. retE object))"

definition absent_error :: "string \<Rightarrow> string \<Rightarrow> gerr" where
  "absent_error what namespace =
     prerequisite [T ('': '' @ what @ '' is absent in '' @ namespace @ ''; run tripgoctl environment start'')]"

definition verifyWorkloadOwnership :: "outside \<Rightarrow> string \<Rightarrow> int \<Rightarrow> string \<Rightarrow> unit io" where
  "verifyWorkloadOwnership E namespace lab clusterID =
     forE (workloads lab) (\<lambda>item.
       bindE (get_owned E (wl_resource item) namespace (wl_name item) lab clusterID
                (absent_error (wl_name item) namespace)
                (\<lambda>e. Errorf [T (''inspect '' @ wl_name item @ '' before lifecycle change: ''), W e])) (\<lambda>_. retE ()))"

definition topics_match :: "kobj \<Rightarrow> gerr + unit" where
  "topics_match topicsConfig =
     (case data_map topicsConfig of
        None \<Rightarrow> Inl (conflict [T '': redpanda-topics ConfigMap data is invalid''])
      | Some data \<Rightarrow>
          if length data \<noteq> length ConfigMapData \<or>
             lookup_str data ''topics'' \<noteq> lookup_str ConfigMapData ''topics'' \<or>
             lookup_str data ''reconcile.sh'' \<noteq> lookup_str ConfigMapData ''reconcile.sh''
          then Inl (conflict [T '': redpanda-topics ConfigMap does not match the managed reconciliation contract''])
          else Inr ())"

definition advertised_listener :: "int \<Rightarrow> string" where
  "advertised_listener lab =
     ''--advertise-kafka-addr=internal://redpanda:9092,external://localhost:'' @
     Itoa (case PortByName lab ''redpanda-kafka'' of None \<Rightarrow> 0 | Some p \<Rightarrow> HostPort p)"

definition first_args :: "kobj \<Rightarrow> string option list" where
  "first_args statefulSet =
     (case template_containers statefulSet of Some c # _ \<Rightarrow> kc_args c | _ \<Rightarrow> [])"

definition environment_selector :: "string \<Rightarrow> string" where
  "environment_selector namespace =
     ''app.kubernetes.io/managed-by=tripgoctl,tripgo.course/environment='' @ namespace"

definition redpanda_claims :: "kobj list \<Rightarrow> kobj list" where
  "redpanda_claims claims = filter (\<lambda>c. HasPrefix (GetName c) ''data-redpanda-'') claims"

definition verifyRedpandaResources :: "outside \<Rightarrow> int \<Rightarrow> string \<Rightarrow> string \<Rightarrow> unit io" where
  "verifyRedpandaResources E lab namespace clusterID =
     bindE (get_owned E ConfigMaps namespace ''redpanda-topics'' lab clusterID
              (absent_error ''redpanda-topics'' namespace)
              (\<lambda>e. Errorf [T ''inspect redpanda-topics: '', W e])) (\<lambda>topicsConfig.
     bindE (liftE (topics_match topicsConfig)) (\<lambda>_.
     bindE (get_owned E Services namespace ''redpanda'' lab clusterID
              (absent_error ''redpanda'' namespace)
              (\<lambda>e. Errorf [T ''inspect redpanda service: '', W e])) (\<lambda>_.
     bindE (wrapE (\<lambda>e. Errorf [T ''inspect Redpanda advertised listener: '', W e])
              (kget E StatefulSets namespace ''redpanda'')) (\<lambda>statefulSet.
     if Some (advertised_listener lab) \<notin> set (first_args statefulSet)
     then failE (conflict [T ('': Redpanda advertised Kafka listener does not match lab '' @ Itoa lab @ '' host port'')])
     else
     bindE (wrapE (\<lambda>e. Errorf [T ''list Redpanda persistent claims: '', W e])
              (klist E PersistentVolumeClaims namespace (environment_selector namespace))) (\<lambda>claims.
     bindE (forE (redpanda_claims claims)
              (\<lambda>c. liftE (verifyResourceOwnership c lab namespace clusterID))) (\<lambda>_.
     if length (redpanda_claims claims) \<noteq> 1
     then failE (conflict [T ('': expected one owned Redpanda PVC, found '' @
            Itoa (int (length (redpanda_claims claims))))])
     else retE ()))))))"

section \<open>Status\<close>

definition verify_services :: "outside \<Rightarrow> string \<Rightarrow> int \<Rightarrow> string \<Rightarrow> unit io" where
  "verify_services E namespace lab clusterID =
     forE (endpointServices lab) (\<lambda>expected.
       tryE (kget E Services namespace (es_name expected)) (\<lambda>r. case r of
         Inl e \<Rightarrow>
           if IsNotFound e then failE (absent_error (es_name expected @ '' service'') namespace)
           else failE (Errorf [T (''inspect '' @ es_name expected @ '' service: ''), W e])
       | Inr service \<Rightarrow> liftE (verifyEndpointService service lab namespace clusterID expected)))"

definition workload_status :: "workload \<Rightarrow> kobj \<Rightarrow> gerr + component_status" where
  "workload_status item object =
     (if workloadImageDigest object = []
      then Inl (conflict [T ('': '' @ wl_name item @ '' workload does not use an immutable image digest'')])
      else if wl_name item = ''push-service'' \<and>
              \<not> HasPrefix (workloadImageReference object) (LocalPushImageRepository @ ''@sha256:'')
      then Inl (conflict [T '': Push Service deployment is not pinned to the managed local repository''])
      else Inr \<lparr>cs_Name = wl_name item, cs_Desired = spec_replicas object,
                cs_Ready = status_readyReplicas object, cs_ImageDigest = workloadImageDigest object\<rparr>)"

text \<open>The loop over the workloads with its accumulators.\<close>

fun collect_status ::
    "outside \<Rightarrow> string \<Rightarrow> int \<Rightarrow> string \<Rightarrow> workload list \<Rightarrow> component_status list \<Rightarrow> bool \<Rightarrow> bool \<Rightarrow>
     (component_status list \<times> bool \<times> bool) io" where
  "collect_status E namespace lab clusterID [] components allStopped allReady =
     retE (components, allStopped, allReady)"
| "collect_status E namespace lab clusterID (item # items) components allStopped allReady =
     bindE (get_owned E (wl_resource item) namespace (wl_name item) lab clusterID
              (absent_error (wl_name item) namespace)
              (\<lambda>e. Errorf [T (''inspect '' @ wl_name item @ '': ''), W e])) (\<lambda>object.
     bindE (liftE (workload_status item object)) (\<lambda>component.
     collect_status E namespace lab clusterID items (components @ [component])
       (allStopped \<and> spec_replicas object = 0 \<and> workloadReady object 0)
       (allReady \<and> spec_replicas object > 0 \<and> workloadReady object (spec_replicas object))))"

definition statusWith :: "outside \<Rightarrow> config \<Rightarrow> string \<Rightarrow> runtime_status io" where
  "statusWith E c clusterID =
     (case environment_entry (cf_Lab c) of
        None \<Rightarrow> failE (errorsNew (''unsupported lab '' @ Itoa (cf_Lab c)))
      | Some entry \<Rightarrow>
          bindE (verifyNamespace E (en_Namespace entry) (cf_Lab c) clusterID) (\<lambda>_.
          bindE (verify_services E (en_Namespace entry) (cf_Lab c) clusterID) (\<lambda>_.
          bindE (whenE (cf_Lab c \<ge> 4)
                   (verifyRedpandaResources E (cf_Lab c) (en_Namespace entry) clusterID)) (\<lambda>_.
          bindE (collect_status E (en_Namespace entry) (cf_Lab c) clusterID (workloads (cf_Lab c)) [] True True)
            (\<lambda>(components, allStopped, allReady).
          retE \<lparr>rs_Lab = cf_Lab c, rs_Namespace = en_Namespace entry,
                rs_State = (if allStopped then ''stopped'' else if allReady then ''ready'' else ''starting''),
                rs_Components = components\<rparr>)))))"

section \<open>Applying manifests\<close>

text \<open>The loop of \<open>applyManifestWhere\<close> over the documents the decoder yields.\<close>

fun apply_docs :: "outside \<Rightarrow> int \<Rightarrow> string \<Rightarrow> string \<Rightarrow> (kobj \<Rightarrow> bool) \<Rightarrow> doc list \<Rightarrow> unit io" where
  "apply_docs E lab namespace clusterID included [] = retE ()"
| "apply_docs E lab namespace clusterID included (d # ds) =
     (case d of
        DocError e \<Rightarrow> failE (Errorf [T ''decode manifest: '', W e])
      | DocBlank \<Rightarrow> apply_docs E lab namespace clusterID included ds
      | DocBad e \<Rightarrow> failE (Errorf [T ''decode resource: '', W e])
      | DocObject object \<Rightarrow>
          if \<not> included object then apply_docs E lab namespace clusterID included ds
          else
          bindE (liftE (resourceFor (GetAPIVersion object) (GetKind object))) (\<lambda>g.
          bindE (tryE (kget E g (GetNamespace object) (GetName object)) (\<lambda>r. case r of
              Inr existing \<Rightarrow> liftE (verifyResourceOwnership existing lab namespace clusterID)
            | Inl e \<Rightarrow> if IsNotFound e then retE ()
                       else failE (Errorf [T (''inspect existing '' @ GetKind object @ ''/'' @ GetName object @ '': ''), W e]))) (\<lambda>_.
          bindE (wrapE (\<lambda>e. if IsConflict e
                    then conflict [T ('': server-side apply conflict for '' @ GetKind object @ ''/'' @ GetName object @ '': ''), V e]
                    else Errorf [T (''server-side apply '' @ GetKind object @ ''/'' @ GetName object @ '': ''), W e])
                  (kpatch E g (GetNamespace object) (GetName object) object)) (\<lambda>_.
          apply_docs E lab namespace clusterID included ds))))"

definition applyManifestWhere ::
    "outside \<Rightarrow> lab_service \<Rightarrow> string \<Rightarrow> int \<Rightarrow> string \<Rightarrow> string \<Rightarrow> (kobj \<Rightarrow> bool) \<Rightarrow> unit io" where
  "applyManifestWhere E L content lab namespace clusterID included =
     apply_docs E lab namespace clusterID included (lb_docs L content)"

definition applyManifest :: "outside \<Rightarrow> lab_service \<Rightarrow> string \<Rightarrow> int \<Rightarrow> string \<Rightarrow> string \<Rightarrow> unit io" where
  "applyManifest E L content lab namespace clusterID =
     applyManifestWhere E L content lab namespace clusterID (\<lambda>_. True)"

fun preflight_docs :: "outside \<Rightarrow> string \<Rightarrow> int \<Rightarrow> string \<Rightarrow> string \<Rightarrow> doc list \<Rightarrow> unit io" where
  "preflight_docs E file lab namespace clusterID [] = retE ()"
| "preflight_docs E file lab namespace clusterID (d # ds) =
     (case d of
        DocError e \<Rightarrow> failE (Errorf [T (''decode '' @ file @ '' during ownership preflight: ''), W e])
      | DocBlank \<Rightarrow> preflight_docs E file lab namespace clusterID ds
      | DocBad e \<Rightarrow> failE (Errorf [T (''decode resource in '' @ file @ '' during ownership preflight: ''), W e])
      | DocObject object \<Rightarrow>
          bindE (liftE (resourceFor (GetAPIVersion object) (GetKind object))) (\<lambda>g.
          bindE (tryE (kget E g (GetNamespace object) (GetName object)) (\<lambda>r. case r of
              Inr existing \<Rightarrow> liftE (verifyResourceOwnership existing lab namespace clusterID)
            | Inl e \<Rightarrow> if IsNotFound e then retE ()
                       else failE (Errorf [T (''inspect existing '' @ GetKind object @ ''/'' @ GetName object @
                              '' during ownership preflight: ''), W e]))) (\<lambda>_.
          preflight_docs E file lab namespace clusterID ds)))"

definition verifyManifestBundleOwnership ::
    "outside \<Rightarrow> lab_service \<Rightarrow> gbundle \<Rightarrow> int \<Rightarrow> string \<Rightarrow> string \<Rightarrow> unit io" where
  "verifyManifestBundleOwnership E L bdl lab namespace clusterID =
     forE bdl (\<lambda>file. preflight_docs E (gf_Name file) lab namespace clusterID (lb_docs L (gf_Content file)))"

section \<open>Polling\<close>

text \<open>
  \<open>wait.PollUntilContextTimeout\<close> with \<open>immediate\<close> set. The condition may change the state \<open>s\<close> of
  the closure also where it returns an error; \<open>rounds\<close> is the number of evaluations that fit into
  the limit, after which the deadline of the context has passed. One interval is one \<^const>\<open>ETick\<close>.
\<close>

definition tickE :: "unit io" where
  "tickE = (\<lambda>w. (Inr (), log ETick w))"

primrec poll ::
    "outside \<Rightarrow> nat \<Rightarrow> ('s \<Rightarrow> ((gerr + bool) \<times> 's) io) \<Rightarrow> 's \<Rightarrow> (gerr option \<times> 's) io" where
  "poll E 0 condition s = retE (Some ContextDeadlineExceeded, s)"
| "poll E (Suc rounds) condition s =
     bindE (condition s) (\<lambda>(r, s').
     case r of
       Inl e \<Rightarrow> retE (Some e, s')
     | Inr done \<Rightarrow>
         if done then retE (None, s')
         else bindE tickE (\<lambda>_.
              tryE (ctxErr E) (\<lambda>c. case c of
                Inl e \<Rightarrow> retE (Some e, s')
              | Inr _ \<Rightarrow> poll E rounds condition s')))"

text \<open>Evaluations within the ten minutes of \<open>readinessLimit\<close> for intervals of 1 s and of 500 ms.\<close>

definition workload_rounds :: nat where "workload_rounds = 601"
definition namespace_rounds :: nat where "namespace_rounds = 1201"

section \<open>Waiting for workloads\<close>

definition second_ns :: nat where "second_ns = 1000000000"

text \<open>\<open>time.Duration\<close> of whole seconds as text, and rounding to the nearest second.\<close>

definition seconds_text :: "nat \<Rightarrow> string" where
  "seconds_text n =
     (if n < 60 then nat_digits n @ ''s''
      else if n < 3600 then nat_digits (n div 60) @ ''m'' @ nat_digits (n mod 60) @ ''s''
      else nat_digits (n div 3600) @ ''h'' @ nat_digits (n mod 3600 div 60) @ ''m'' @ nat_digits (n mod 60) @ ''s'')"

definition round_seconds :: "nat \<Rightarrow> nat" where
  "round_seconds ns = (ns + second_ns div 2) div second_ns"

definition readinessLimit_text :: string where "readinessLimit_text = ''10m0s''"

record wait_state =
  ws_last :: "(string \<times> string) list"
  ws_summary :: string
  ws_report :: "nat option"

definition map_put :: "string \<Rightarrow> string \<Rightarrow> (string \<times> string) list \<Rightarrow> (string \<times> string) list" where
  "map_put k v m = (k, v) # filter (\<lambda>(k', _). k' \<noteq> k) m"

definition map_del :: "string \<Rightarrow> (string \<times> string) list \<Rightarrow> (string \<times> string) list" where
  "map_del k m = filter (\<lambda>(k', _). k' \<noteq> k) m"

definition replicas_text :: "workload \<Rightarrow> kobj \<Rightarrow> string" where
  "replicas_text item object =
     wl_name item @ '' '' @ Itoa (status_readyReplicas object) @ ''/'' @ Itoa (spec_replicas object)"

definition waiting_text :: "kobj \<Rightarrow> string" where
  "waiting_text object =
     ''desired='' @ Itoa (spec_replicas object) @ '' ready='' @ Itoa (status_readyReplicas object) @
     '' generation='' @ Itoa (GetGeneration object) @ '' observed='' @ Itoa (status_observedGeneration object)"

text \<open>One pass over the workloads: the names of the ready ones and a status per workload.\<close>

fun wait_items ::
    "outside \<Rightarrow> string \<Rightarrow> int \<Rightarrow> workload list \<Rightarrow> (string \<times> string) list \<Rightarrow> string list \<Rightarrow> string list \<Rightarrow>
     ((gerr + string list \<times> string list) \<times> (string \<times> string) list) io" where
  "wait_items E namespace expected [] seen ready statuses = retE (Inr (ready, statuses), seen)"
| "wait_items E namespace expected (item # items) seen ready statuses =
     tryE (ctxErr E) (\<lambda>before. case before of
       Inl e \<Rightarrow> retE (Inl e, seen)
     | Inr _ \<Rightarrow>
         tryE (kget E (wl_resource item) namespace (wl_name item)) (\<lambda>got.
         tryE (ctxErr E) (\<lambda>after. case after of
           Inl e \<Rightarrow> retE (Inl e, seen)
         | Inr _ \<Rightarrow>
             (case got of
                Inl e \<Rightarrow> wait_items E namespace expected items
                  (map_put (wl_name item) (''API read failed: '' @ error_text e) seen) ready
                  (statuses @ [wl_name item @ '' unavailable (retrying Kubernetes API)''])
              | Inr object \<Rightarrow>
                  if \<not> workloadReady object expected
                  then wait_items E namespace expected items
                         (map_put (wl_name item) (waiting_text object) seen) ready
                         (statuses @ [replicas_text item object])
                  else wait_items E namespace expected items (map_del (wl_name item) seen)
                         (ready @ [wl_name item]) (statuses @ [replicas_text item object])))))"

text \<open>Conversion of a list of objects, stopping at the first that does not convert.\<close>

fun convert_all :: "('a \<Rightarrow> gerr + 'b) \<Rightarrow> 'a list \<Rightarrow> gerr + 'b list" where
  "convert_all f [] = Inr []"
| "convert_all f (x # xs) = bindS (f x) (\<lambda>y. bindS (convert_all f xs) (\<lambda>ys. Inr (y # ys)))"

text \<open>
  Best-effort diagnostics: the details found and the error, if any. The events are listed without
  a label selector (by a field selector).
\<close>

definition workloadStartupDetails ::
    "outside \<Rightarrow> lab_service \<Rightarrow> string \<Rightarrow> ((string \<times> string) list \<times> gerr option) io" where
  "workloadStartupDetails E L namespace =
     tryE (klist E Pods namespace (environment_selector namespace)) (\<lambda>objects. case objects of
       Inl e \<Rightarrow> retE ([], Some e)
     | Inr items \<Rightarrow>
         (case convert_all (lb_pod L) items of
            Inl e \<Rightarrow> retE ([], Some e)
          | Inr typed \<Rightarrow>
              let pods = newest_pods namespace [] typed;
                  detail = (\<lambda>latest. map (\<lambda>(name, p). (name, podStartupDetail p (map_of latest (pd_UID p)))) pods)
              in tryE (klist E Events namespace ''involvedObject.kind=Pod'') (\<lambda>listed. case listed of
                   Inl e \<Rightarrow> retE (detail [], Some e)
                 | Inr evs \<Rightarrow>
                     (case convert_all (lb_event L) evs of
                        Inl e \<Rightarrow> retE ([], Some e)
                      | Inr typedEvents \<Rightarrow> retE (detail (latest_events [] typedEvents), None)))))"

definition progress_lines ::
    "workload list \<Rightarrow> string list \<Rightarrow> (string \<times> string) list \<Rightarrow> (string \<times> string) list \<Rightarrow> gerr option \<Rightarrow>
     string list \<Rightarrow> nat \<Rightarrow> string list" where
  "progress_lines items statuses seen details detailErr readyNames elapsed =
     map (\<lambda>(item, line). line @ (case lookup_str details (wl_name item) of [] \<Rightarrow> [] | d \<Rightarrow> '': '' @ d))
       (filter (\<lambda>(item, line). map_of seen (wl_name item) \<noteq> None) (zip items statuses)) @
     (case detailErr of None \<Rightarrow> [] | Some e \<Rightarrow> [''Pod details unavailable (will retry): '' @ error_text e]) @
     (if readyNames = [] then [] else [''Ready: '' @ Join readyNames '', '']) @
     [''Workloads: '' @ Itoa (int (length readyNames)) @ ''/'' @ Itoa (int (length items)) @
      '' ready; waiting '' @ seconds_text (round_seconds elapsed) @ '' / '' @ readinessLimit_text]"

definition report_due :: "outside \<Rightarrow> history \<Rightarrow> string \<Rightarrow> wait_state \<Rightarrow> bool" where
  "report_due E tr summary s \<longleftrightarrow> env_reporter E \<and>
     (summary \<noteq> ws_summary s \<or>
      (case ws_report s of None \<Rightarrow> True | Some t \<Rightarrow> env_clock E tr - t \<ge> 15 * second_ns))"

definition wait_round ::
    "outside \<Rightarrow> lab_service \<Rightarrow> string \<Rightarrow> workload list \<Rightarrow> int \<Rightarrow> nat \<Rightarrow> wait_state \<Rightarrow>
     ((gerr + bool) \<times> wait_state) io" where
  "wait_round E L namespace items expected started s =
     bindE (wait_items E namespace expected items (ws_last s) [] []) (\<lambda>(r, seen).
     case r of
       Inl e \<Rightarrow> retE (Inl e, s\<lparr>ws_last := seen\<rparr>)
     | Inr (readyNames, statuses) \<Rightarrow>
         let ready = (length readyNames = length items); summary = Join statuses '', '' in
         (\<lambda>w. (if report_due E (trace w) summary s
               then bindE (if \<not> ready \<and> expected > 0 then workloadStartupDetails E L namespace
                           else retE ([], None)) (\<lambda>(details, detailErr).
                    tryE (ctxErr E) (\<lambda>c. case c of
                      Inl e \<Rightarrow> retE (Inl e, s\<lparr>ws_last := seen\<rparr>)
                    | Inr _ \<Rightarrow> (\<lambda>w.
                        bindE (report E Readiness (Join (progress_lines items statuses seen details detailErr
                                 readyNames (env_clock E (trace w) - started)) [nl])) (\<lambda>_.
                        (\<lambda>w. retE (Inr ready, \<lparr>ws_last = seen, ws_summary = summary,
                                ws_report = Some (env_clock E (trace w))\<rparr>) w)) w)))
               else retE (Inr ready, s\<lparr>ws_last := seen\<rparr>)) w))"

definition not_ready_error :: "gerr \<Rightarrow> (string \<times> string) list \<Rightarrow> gerr" where
  "not_ready_error e seen =
     (let names = sort (map fst seen)
      in if names = [] then e
         else Errorf [W e, T (''; not ready: '' @
                Join (map (\<lambda>n. n @ '' ('' @ lookup_str seen n @ '')'') names) ''; '')])"

definition waitForWorkloads ::
    "outside \<Rightarrow> lab_service \<Rightarrow> string \<Rightarrow> workload list \<Rightarrow> int \<Rightarrow> unit io" where
  "waitForWorkloads E L namespace items expected = (\<lambda>w.
     bindE (poll E workload_rounds (wait_round E L namespace items expected (env_clock E (trace w)))
              \<lparr>ws_last = [], ws_summary = [], ws_report = None\<rparr>) (\<lambda>(r, s).
     case r of
       None \<Rightarrow> retE ()
     | Some e \<Rightarrow> failE (not_ready_error e (ws_last s))) w)"

section \<open>Operations\<close>

text \<open>
  \<open>pushimage.NewProvider()\<close> builds for the architecture of the CLI, the one of the cluster service,
  and in the same directory for temporary files.
\<close>

definition push_reference :: "outside \<Rightarrow> lab_service \<Rightarrow> string io" where
  "push_reference E L =
     wrapE (\<lambda>e. Errorf [T ''prepare local Push Service image: '', W e])
       (Ensure E (lb_artifact L) (sv_goarch (lb_cluster L)) (sv_tempDir (lb_cluster L)))"

text \<open>The check of the namespace before anything is applied.\<close>

definition preflight_namespace :: "outside \<Rightarrow> string \<Rightarrow> int \<Rightarrow> string \<Rightarrow> unit io" where
  "preflight_namespace E namespace lab clusterID =
     tryE (kget E Namespaces [] namespace) (\<lambda>r. case r of
       Inr _ \<Rightarrow> verifyNamespace E namespace lab clusterID
     | Inl e \<Rightarrow> if IsNotFound e then retE ()
                else failE (Errorf [T (''inspect namespace '' @ namespace @ '' before apply: ''), W e]))"

definition apply_bundle :: "outside \<Rightarrow> lab_service \<Rightarrow> gbundle \<Rightarrow> int \<Rightarrow> string \<Rightarrow> string \<Rightarrow> unit io" where
  "apply_bundle E L bdl lab namespace clusterID =
     forE bdl (\<lambda>file.
       bindE (report E Activity (''Applying '' @ gf_Name file)) (\<lambda>_.
       wrapE (\<lambda>e. Errorf [T (''apply '' @ gf_Name file @ '': ''), W e])
         (applyManifest E L (gf_Content file) lab namespace clusterID)))"

definition start_leased :: "outside \<Rightarrow> lab_service \<Rightarrow> path \<Rightarrow> string \<Rightarrow> config \<Rightarrow> lease \<Rightarrow> runtime_status io" where
  "start_leased E L cwd version c l =
     (let lab = cf_Lab c; namespace = lab_namespace lab in
      bindE (ensureTripgoWritable E (cwd @ [''.tripgo''])) (\<lambda>_.
      bindE (preflight_namespace E namespace lab (lease_id l)) (\<lambda>_.
      bindE (if lab \<ge> 3 then push_reference E L else retE []) (\<lambda>reference.
      bindE (report E Stage ''Generating Kubernetes resources'') (\<lambda>_.
      bindE (liftE (Generate (lb_templates L) c
               \<lparr>op_TripgoctlVersion = version, op_ClusterID = lease_id l,
                op_PushImageReference = reference, op_WorkloadReplicas = None\<rparr>)) (\<lambda>bdl.
      bindE (verifyManifestBundleOwnership E L bdl lab namespace (lease_id l)) (\<lambda>_.
      bindE (report E Stage ''Applying Kubernetes resources'') (\<lambda>_.
      bindE (apply_bundle E L bdl lab namespace (lease_id l)) (\<lambda>_.
      bindE (report E Stage (''Waiting for workloads (up to '' @ readinessLimit_text @ '')'')) (\<lambda>_.
      bindE (report E Readiness ''First start may take several minutes while Kubernetes downloads images.'') (\<lambda>_.
      bindE (wrapE (\<lambda>e. prerequisite [T '': environment workloads did not become ready: '', W e])
               (waitForWorkloads E L namespace (workloads lab) 1)) (\<lambda>_.
      bindE (SetEnvironmentState E (lb_cluster L) l namespace True True) (\<lambda>_.
      bindE (report E Stage ''Writing local configuration'') (\<lambda>_.
      bindE (generator_Write E (cwd @ [''.tripgo'']) bdl) (\<lambda>_.
      bindE (writeEnv E (cwd @ [''.env'']) c version) (\<lambda>_.
      statusWith E c (lease_id l)))))))))))))))))"

definition lab_Start :: "outside \<Rightarrow> lab_service \<Rightarrow> path \<Rightarrow> string \<Rightarrow> runtime_status io" where
  "lab_Start E L cwd version =
     bindE (report E Stage ''Validating environment configuration'') (\<lambda>_.
     bindE (loadCurrentConfig E L cwd) (\<lambda>c.
     bindE (ensureEnvWritable E (cwd @ [''.env''])) (\<lambda>_.
     bindE (report E Stage ''Connecting to the local cluster'') (\<lambda>_.
     with_client E L (start_leased E L cwd version c)))))"

definition lab_Status :: "outside \<Rightarrow> lab_service \<Rightarrow> path \<Rightarrow> runtime_status io" where
  "lab_Status E L cwd =
     bindE (loadCurrentConfig E L cwd) (\<lambda>c. with_client E L (\<lambda>l. statusWith E c (lease_id l)))"

definition is_workload_object :: "kobj \<Rightarrow> bool" where
  "is_workload_object object \<longleftrightarrow> GetKind object = ''Deployment'' \<or> GetKind object = ''StatefulSet''"

definition running_push_reference :: "outside \<Rightarrow> string \<Rightarrow> int \<Rightarrow> string \<Rightarrow> string io" where
  "running_push_reference E namespace lab clusterID =
     bindE (wrapE (\<lambda>e. Errorf [T ''inspect Push Service before stop: '', W e])
              (kget E Deployments namespace ''push-service'')) (\<lambda>pushDeployment.
     bindE (liftE (verifyResourceOwnership pushDeployment lab namespace clusterID)) (\<lambda>_.
     if \<not> HasPrefix (workloadImageReference pushDeployment) (LocalPushImageRepository @ ''@sha256:'')
     then failE (conflict [T '': Push Service deployment does not use the managed local image digest''])
     else retE (workloadImageReference pushDeployment)))"

definition stop_leased :: "outside \<Rightarrow> lab_service \<Rightarrow> string \<Rightarrow> config \<Rightarrow> lease \<Rightarrow> runtime_status io" where
  "stop_leased E L version c l =
     (let lab = cf_Lab c; namespace = lab_namespace lab in
      bindE (verifyNamespace E namespace lab (lease_id l)) (\<lambda>_.
      bindE (verifyWorkloadOwnership E namespace lab (lease_id l)) (\<lambda>_.
      bindE (whenE (lab \<ge> 4) (verifyRedpandaResources E lab namespace (lease_id l))) (\<lambda>_.
      bindE (if lab \<ge> 3 then running_push_reference E namespace lab (lease_id l) else retE []) (\<lambda>reference.
      bindE (liftE (Generate (lb_templates L) c
               \<lparr>op_TripgoctlVersion = version, op_ClusterID = lease_id l,
                op_PushImageReference = reference, op_WorkloadReplicas = Some 0\<rparr>)) (\<lambda>bdl.
      bindE (verifyManifestBundleOwnership E L bdl lab namespace (lease_id l)) (\<lambda>_.
      bindE (forE bdl (\<lambda>file.
               wrapE (\<lambda>e. Errorf [T ''scale environment workloads to zero: '', W e])
                 (applyManifestWhere E L (gf_Content file) lab namespace (lease_id l) is_workload_object))) (\<lambda>_.
      bindE (waitForWorkloads E L namespace (workloads lab) 0) (\<lambda>_.
      bindE (SetEnvironmentState E (lb_cluster L) l namespace True False) (\<lambda>_.
      statusWith E c (lease_id l)))))))))))"

definition lab_Stop :: "outside \<Rightarrow> lab_service \<Rightarrow> path \<Rightarrow> string \<Rightarrow> runtime_status io" where
  "lab_Stop E L cwd version =
     bindE (loadCurrentConfig E L cwd) (\<lambda>c. with_client E L (stop_leased E L version c))"

definition getErrIfUnexpected :: "gerr + kobj \<Rightarrow> gerr option" where
  "getErrIfUnexpected r = (case r of Inr _ \<Rightarrow> None | Inl e \<Rightarrow> if IsNotFound e then None else Some e)"

text \<open>The condition of the wait for the deletion; the closure has no state.\<close>

definition namespace_gone :: "outside \<Rightarrow> string \<Rightarrow> unit \<Rightarrow> ((gerr + bool) \<times> unit) io" where
  "namespace_gone E namespace = (\<lambda>s.
     tryE (kget E Namespaces [] namespace) (\<lambda>r.
     retE (case getErrIfUnexpected r of
             Some e \<Rightarrow> Inl e
           | None \<Rightarrow> Inr (case r of Inl _ \<Rightarrow> True | Inr _ \<Rightarrow> False), s)))"

definition delete_namespace :: "outside \<Rightarrow> string \<Rightarrow> unit io" where
  "delete_namespace E namespace =
     bindE (tryE (kdelete E Namespaces [] namespace) (\<lambda>r. case r of
       Inl e \<Rightarrow> if IsNotFound e then retE ()
                else failE (Errorf [T (''delete namespace '' @ namespace @ '': ''), W e])
     | Inr _ \<Rightarrow> retE ())) (\<lambda>_.
     bindE (poll E namespace_rounds (namespace_gone E namespace) ()) (\<lambda>(r, _).
     case r of
       None \<Rightarrow> retE ()
     | Some e \<Rightarrow> failE (Errorf [T (''wait for namespace '' @ namespace @ '' deletion: ''), W e])))"

definition reset_leased :: "outside \<Rightarrow> lab_service \<Rightarrow> path \<Rightarrow> config \<Rightarrow> lease \<Rightarrow> unit io" where
  "reset_leased E L cwd c l =
     (let lab = cf_Lab c; namespace = lab_namespace lab in
      tryE (verifyNamespace E namespace lab (lease_id l)) (\<lambda>verified.
      bindE (case verified of
               Inl e \<Rightarrow> if errors_Is e ErrPrerequisite then retE () else failE e
             | Inr _ \<Rightarrow> delete_namespace E namespace) (\<lambda>_.
      bindE (SetEnvironmentState E (lb_cluster L) l namespace False False) (\<lambda>_.
      bindE (removeGenerated E (cwd @ [''.env'']) False) (\<lambda>_.
      removeGenerated E (cwd @ [''.tripgo'']) True)))))"

definition lab_Reset :: "outside \<Rightarrow> lab_service \<Rightarrow> path \<Rightarrow> unit io" where
  "lab_Reset E L cwd =
     bindE (loadCurrentConfig E L cwd) (\<lambda>c. with_client E L (reset_leased E L cwd c))"

section \<open>List\<close>

definition list_selector :: string where
  "list_selector = ''app.kubernetes.io/managed-by=tripgoctl,app.kubernetes.io/part-of=tripgo-local''"

definition degraded_status :: "int \<Rightarrow> string \<Rightarrow> runtime_status" where
  "degraded_status lab namespace =
     \<lparr>rs_Lab = lab, rs_Namespace = namespace, rs_State = ''degraded'',
      rs_Components = map (\<lambda>item. \<lparr>cs_Name = wl_name item, cs_Desired = 0, cs_Ready = 0, cs_ImageDigest = []\<rparr>)
        (workloads lab)\<rparr>"

definition lab_config :: "int \<Rightarrow> config" where
  "lab_config lab = \<lparr>cf_SchemaVersion = SchemaVersion, cf_Lab = lab,
     cf_Components = (case Components lab of None \<Rightarrow> [] | Some cs \<Rightarrow> cs), cf_CustomEnv = []\<rparr>"

fun list_namespaces :: "outside \<Rightarrow> string \<Rightarrow> kobj list \<Rightarrow> runtime_status list \<Rightarrow> runtime_status list io" where
  "list_namespaces E clusterID [] result = retE result"
| "list_namespaces E clusterID (namespace # rest) result =
     (if lookup_str (GetAnnotations namespace) ''tripgo.course/cluster-id'' \<noteq> clusterID
      then list_namespaces E clusterID rest result
      else case labFromNamespace (GetName namespace) of
        None \<Rightarrow> list_namespaces E clusterID rest result
      | Some lab \<Rightarrow>
          tryE (statusWith E (lab_config lab) clusterID) (\<lambda>r. case r of
            Inr status \<Rightarrow> list_namespaces E clusterID rest (result @ [status])
          | Inl e \<Rightarrow>
              if errors_Is e ErrPrerequisite \<or> errors_Is e ErrConflict
              then list_namespaces E clusterID rest (result @ [degraded_status lab (GetName namespace)])
              else failE e))"

definition lab_List :: "outside \<Rightarrow> lab_service \<Rightarrow> runtime_status list io" where
  "lab_List E L =
     with_client E L (\<lambda>l.
     bindE (wrapE (\<lambda>e. Errorf [T ''list environments: '', W e]) (klist E Namespaces [] list_selector)) (\<lambda>items.
     bindE (list_namespaces E (lease_id l) items []) (\<lambda>result. retE (sort_key rs_Lab result))))"

end
