(* ===== verification/Cluster_Safety.thy ===== *)
theory Cluster_Safety
  imports Cluster_Service
begin

text \<open>
  What \<open>internal/cluster/service.go\<close> promises, proved of the commands of theory
  \<open>Cluster_Service\<close> for every behaviour of Docker, kind, the API server and the file system:
  the operation lock brackets every external call and is released on every path; inspection and
  leasing change nothing; \<open>Stop\<close> deletes only what it has just identified as its own; a failed
  \<open>Start\<close> removes what it created; the lease keeps the environment projection consistent.
\<close>

section \<open>The checks are queries\<close>

lemma cluster_queries [simp]:
  "query_command (''version'' # a)" "query_command (''info'' # a)" "query_command (''inspect'' # a)"
  "query_command (''ps'' # a)" "query_command (''get'' # a)" "query_command marker_args"
  "query_command memory_args" "query_command (running_args c)"
  by (simp_all add: query_command_def marker_args_def memory_args_def running_args_def)

context discipline
begin

lemma calm_validFile: "calm G I (validFileSHA256 E p s)"
  unfolding validFileSHA256_def by (intro calm_prims)

lemma calm_removeIfExists: "calm G I (removeIfExists E g p)"
  unfolding removeIfExists_def by (intro calm_prims)

lemma calm_downloadKind: "calm G I (downloadKind E p url s)"
  unfolding downloadKind_def by (intro calm_prims)

lemma calm_EnsureKind: "calm G I (EnsureKind E d os arch)"
  unfolding EnsureKind_def Let_def
  by (intro calm_prims calm_validFile calm_removeIfExists calm_downloadKind)

lemma calm_ensureKind: "calm G I (ensureKind E S)"
  unfolding ensureKind_def by (intro calm_prims calm_EnsureKind)

lemma calm_loadState: "calm G I (loadState E J p)"
  unfolding loadState_def by (intro calm_prims)

lemma calm_writeState: "calm G I (writeState E J p s)"
  unfolding writeState_def Let_def by (intro calm_prims)

lemma calm_checks:
  "calm G I (checkDocker E)" "calm G I (kindClusters E k)" "calm G I (verifyMarker E i)"
  "calm G I (verifyRegistryOwnership E i)" "calm G I (containerExists E n)"
  unfolding checkDocker_def kindClusters_def verifyMarker_def verifyRegistryOwnership_def
    containerExists_def
  by (intro calm_prims cluster_queries)+

lemma calm_verify: "calm G I (verifyStateAndContainers E s h)" "calm G I (verifyExisting E S h)"
  unfolding verifyExisting_def verifyStateAndContainers_def
  by (intro calm_prims calm_checks calm_loadState cluster_queries)+

lemma calm_busy_ports: "calm G I (busy_ports E ps)"
  by (induction ps) (auto intro!: calm_prims)

lemma calm_warnResources: "calm G I (warnResources E)"
  unfolding warnResources_def warn_def
  by (intro calm_prims cluster_queries) (rule calm_history, intro calm_prims)

lemma calm_newClusterID: "calm G I (newClusterID E)"
  unfolding newClusterID_def by (intro calm_prims)

lemma calm_access: "calm G I (kindKubernetesAccess E k i False)"
  unfolding kindKubernetesAccess_def by (simp, intro calm_prims cluster_queries)

lemma calm_inspect: "calm G I (inspect_locked E S)"
  unfolding inspect_locked_def by (intro calm_prims calm_checks calm_loadState calm_verify)

lemma calm_begin: "calm G I (begin_locked E S)"
  unfolding begin_locked_def
  by (intro calm_prims calm_checks calm_loadState calm_verify calm_ensureKind calm_access)

lemmas calm_cluster = calm_validFile calm_removeIfExists calm_EnsureKind calm_ensureKind
  calm_loadState calm_writeState calm_checks calm_verify calm_busy_ports calm_warnResources
  calm_newClusterID calm_access

end

section \<open>The operation lock\<close>

lemma wp_flock:
  assumes "lock_ok u" and "\<And>e. Q (Inl e) u"
    and "\<not> held u \<Longrightarrow> Q (Inr ()) (log ELock (u\<lparr>held := True\<rparr>))"
  shows "wp under_lock (flockE E) Q u"
  using assms by (auto simp: wp_def flockE_def under_lock_def lock_ok_def split: option.splits)

text \<open>Files beside the lock file.\<close>

definition beside :: "path \<Rightarrow> files \<Rightarrow> files \<Rightarrow> bool" where
  "beside p f g \<longleftrightarrow> (\<forall>q. q \<noteq> p \<longrightarrow> butlast q = butlast p \<longrightarrow> q \<noteq> [] \<longrightarrow> fs_get g q = fs_get f q)"

lemma lock_quiet: "lock_ok (w\<lparr>files := f\<rparr>) = lock_ok w"
  "lock_ok (log (EFs op r) w) = lock_ok w" "under_lock tr (EFs op r)"
  "\<not> held w \<Longrightarrow> lock_ok (log ELock (w\<lparr>held := True\<rparr>))"
  by (simp_all add: lock_ok_def under_lock_def lock_step_def)

lemma beside_mkdirAll:
  assumes "\<And>q. fs_get g q = (if q \<in> set (path_prefixes (butlast p)) \<and> fs_get f q = None
                            then Some Dir else fs_get f q)"
  shows "beside p f g"
  unfolding beside_def using assms not_own_prefix by metis

lemma beside_refl [simp]: "beside p f f"
  by (simp add: beside_def)

lemma beside_trans: "beside p f g \<Longrightarrow> beside p g h \<Longrightarrow> beside p f h"
  by (simp add: beside_def)

lemma wp_openLock:
  assumes "\<And>e. Q (Inl e) (log (EFs (OpenPath p) (Some e)) w)"
    and "\<And>f. beside p (files w) f \<Longrightarrow> Q (Inr ()) (log (EFs (OpenPath p) None) (w\<lparr>files := f\<rparr>))"
  shows "wp under_lock (fsE E (OpenPath p) (\<lambda>f.
           if fs_get f p = None then Inr ((), fs_put p (RegFile [] mode0600) f)
           else if fs_get f p = Some Dir then Inl (Foreign ''is a directory'' [])
           else Inr ((), f))) Q w"
  using assms by (intro wp_fs) (auto simp: lock_quiet beside_def split: if_splits)

lemma wp_lockDir:
  assumes "\<And>e. Q (Inl e) (log (EFs (MkdirAll (butlast p)) (Some e)) w)"
    and "\<And>f. beside p (files w) f \<Longrightarrow> Q (Inr ()) (log (EFs (MkdirAll (butlast p)) None) (w\<lparr>files := f\<rparr>))"
  shows "wp under_lock (mkdirAll E (butlast p)) Q w"
  using assms by (intro wp_mkdirAll) (simp_all add: lock_quiet beside_mkdirAll)

lemma wp_acquireLock:
  assumes "lock_ok w"
  shows "wp under_lock (acquireLock E p) (\<lambda>r w'. lock_ok w' \<and> beside p (files w) (files w') \<and>
           (case r of Inl _ \<Rightarrow> held w' = held w | Inr _ \<Rightarrow> \<not> held w \<and> held w')) w"
  unfolding acquireLock_def
  by (rule wp_bind wp_wrap wp_lockDir wp_openLock wp_flock
      | simp add: lock_quiet assms | auto intro: beside_trans)+

abbreviation under_lock_calm :: "'a io \<Rightarrow> bool" where
  "under_lock_calm m \<equiv> calm under_lock (\<lambda>w. held w \<and> lock_ok w) m"

lemma holding_any:
  "under_lock_calm (runE E n a)" "under_lock_calm (kpatch E g ns m obj)"
  by (rule holding.calm_run holding.calm_patch, simp)+

lemma closeLock_wp:
  "held w \<Longrightarrow> lock_ok w \<Longrightarrow> wp under_lock closeLock (\<lambda>_ w'. lock_ok w' \<and> \<not> held w' \<and> files w' = files w) w"
  by (simp add: wp_def closeLock_def under_lock_def lock_ok_def lock_step_def)

lemma wp_locked:
  assumes "under_lock_calm body" and "lock_ok w"
  shows "wp under_lock (locked E S body) (\<lambda>_ w'. lock_ok w' \<and> held w' = held w) w"
  unfolding locked_def
proof (rule wp_bind, rule wp_wrap, rule wp_mono [OF wp_acquireLock [OF assms(2)]], clarsimp split: sum.splits)
  fix u assume u: "lock_ok u" "held u" "\<not> held w"
  show "wp under_lock (deferE closeLock body) (\<lambda>_ w'. lock_ok w' \<and> \<not> held w') u"
    using u by (auto intro!: wp_defer calm_wp [OF assms(1)] wp_mono [OF closeLock_wp])
qed

lemma holding_start: "under_lock_calm (start_locked E S)"
  unfolding start_locked_def start_new_def create_cluster_def finish_cluster_def startRegistry_def
    removeOwnedOrphanRegistry_def checkPorts_def runFailedStartCleanup_def kindKubernetesAccess_def Let_def
  by (intro holding.calm_prims holding.calm_cluster holding_any)

lemma holding_stop: "under_lock_calm (stop_locked E S ns)"
  unfolding stop_locked_def Let_def
  by (intro holding.calm_prims holding.calm_cluster holding_any)

lemma wp_Begin:
  assumes "lock_ok w"
  shows "wp under_lock (BeginEnvironmentOperation E S) (\<lambda>r w'. lock_ok w' \<and>
           held w' = (held w \<or> (\<exists>l. r = Inr l)) \<and>
           (held w \<longrightarrow> (\<exists>e. r = Inl e \<and> errors_Is e ErrConflict))) w"
  unfolding BeginEnvironmentOperation_def
proof (rule wp_bind, rule wp_wrap, rule wp_mono [OF wp_acquireLock [OF assms]], clarsimp split: sum.splits)
  fix u assume u: "lock_ok u" "held u" "\<not> held w"
  show "wp under_lock (onFailE closeLock (begin_locked E S)) (\<lambda>r w'. lock_ok w' \<and> held w' = (\<exists>l. r = Inr l)) u"
    using u by (auto intro!: wp_onFail calm_wp [OF holding.calm_begin] wp_mono [OF closeLock_wp]
        split: sum.splits)
qed

text \<open>
  C2: whatever the outside does, \<open>Start\<close>, \<open>Inspect\<close> and \<open>Stop\<close> run every Docker, kind and Kubernetes
  call while this process holds the operation lock, and leave the lock as they found it on every
  path, errors included.
\<close>
theorem operations_bracketed:
  assumes "op \<in> {ignoreE (cluster_Start E S), ignoreE (Inspect E S), ignoreE (cluster_Stop E S ns)}"
    and "lock_ok w" and "op w = (r, w')"
  shows "held w' = held w \<and> (\<exists>es. trace w' = trace w @ es \<and>
           (\<forall>i < length es. external (es ! i) \<longrightarrow> lock_held (trace w @ take i es)))"
proof -
  have start: "wp under_lock (cluster_Start E S) (\<lambda>_ w'. held w' = held w) w"
    unfolding cluster_Start_def
    by (rule wp_bind, rule wp_report)
       (auto simp: under_lock_def lock_ok_def lock_step_def assms(2) [unfolded lock_ok_def]
         intro!: wp_mono [OF wp_locked [OF holding_start]])
  have "wp under_lock op (\<lambda>_ w'. held w' = held w) w"
    using assms(1) start
    by (auto simp: Inspect_def cluster_Stop_def intro!: wp_ignore
        intro: wp_mono [OF wp_locked [OF holding.calm_inspect assms(2)]]
          wp_mono [OF wp_locked [OF holding_stop assms(2)]])
  from wp_trace [OF this assms(3)] show ?thesis by (auto simp: under_lock_def)
qed

definition sample_service :: cluster_service where
  "sample_service = \<lparr>sv_cacheDir = [''cache''], sv_configDir = [''cfg''], sv_tempDir = [''tmp''],
     sv_goos = ''linux'', sv_goarch = ''amd64'', sv_codec = sample_codec\<rparr>"

lemma lock_ok_empty [simp]: "lock_ok empty_world"
  by (simp add: lock_ok_def empty_world_def lock_held_def)

theorem operations_bracketed_witness:
  "\<not> held (snd (ignoreE (cluster_Stop quiet sample_service []) empty_world))"
  using operations_bracketed [of "ignoreE (cluster_Stop quiet sample_service [])" quiet sample_service
      "[]" empty_world, OF _ lock_ok_empty prod.collapse [symmetric]]
  by (simp add: empty_world_def)

text \<open>
  C3: \<open>BeginEnvironmentOperation\<close> holds the operation lock exactly when it returns a lease (or the
  process held it before, and then it fails), runs every external call under the lock, and
  closing the lease gives the lock back.
\<close>
theorem lease_lock:
  assumes "lock_ok w" and "BeginEnvironmentOperation E S w = (r, w')"
  shows "held w' = (held w \<or> (\<exists>l. r = Inr l)) \<and> (held w \<longrightarrow> (\<exists>e. r = Inl e \<and> errors_Is e ErrConflict)) \<and>
         \<not> held (snd (lease_Close w')) \<and>
         (\<exists>es. trace w' = trace w @ es \<and>
           (\<forall>i < length es. external (es ! i) \<longrightarrow> lock_held (trace w @ take i es)))"
  using wp_trace [OF wp_Begin [OF assms(1)] assms(2)]
  by (auto simp: under_lock_def lease_Close_def closeLock_def)

theorem lease_lock_witness:
  "held (snd (BeginEnvironmentOperation quiet sample_service empty_world)) =
     (\<exists>l. fst (BeginEnvironmentOperation quiet sample_service empty_world) = Inr l)"
  using lease_lock [of empty_world quiet sample_service, OF lock_ok_empty prod.collapse [symmetric]]
  by (simp add: empty_world_def)

section \<open>Inspecting and leasing change nothing\<close>

lemma reading_lock: "calm (\<lambda>_ e. \<not> mutates e) (\<lambda>_. True) (acquireLock E p)"
  "calm (\<lambda>_ e. \<not> mutates e) (\<lambda>_. True) closeLock"
proof -
  have "calm (\<lambda>_ e. \<not> mutates e) (\<lambda>_. True) (flockE E)"
    by (auto simp: calm_def wp_def flockE_def split: option.splits)
  then show "calm (\<lambda>_ e. \<not> mutates e) (\<lambda>_. True) (acquireLock E p)"
    unfolding acquireLock_def by (intro reading.calm_prims)
qed (auto simp: calm_def wp_def closeLock_def)

lemma reading_Inspect: "calm (\<lambda>_ e. \<not> mutates e) (\<lambda>_. True) (Inspect E S)"
  unfolding Inspect_def locked_def by (intro reading.calm_prims reading_lock reading.calm_inspect)

lemma reading_Begin: "calm (\<lambda>_ e. \<not> mutates e) (\<lambda>_. True) (BeginEnvironmentOperation E S)"
  unfolding BeginEnvironmentOperation_def
  by (intro reading.calm_prims reading_lock reading.calm_begin)

text \<open>
  \<open>Inspect\<close> and \<open>BeginEnvironmentOperation\<close> issue no Docker, kind or Kubernetes call that
  changes anything: every event they add is a query, whatever the outside answers.
\<close>
theorem inspection_reads_only:
  assumes "op \<in> {ignoreE (Inspect E S), ignoreE (BeginEnvironmentOperation E S)}"
    and "op w = (r, w')"
  shows "\<exists>es. trace w' = trace w @ es \<and> (\<forall>e \<in> set es. \<not> mutates e)"
proof -
  have "calm (\<lambda>_ e. \<not> mutates e) (\<lambda>_. True) op"
    using assms(1) by (auto intro: calm_ignore reading_Inspect reading_Begin)
  from wp_trace [OF calmD [OF this] assms(2)] show ?thesis
    by (auto simp: in_set_conv_nth)
qed

theorem inspection_reads_only_witness:
  "\<exists>es. trace (snd (ignoreE (Inspect quiet sample_service) empty_world)) = es \<and> (\<forall>e \<in> set es. \<not> mutates e)"
  using inspection_reads_only [of "ignoreE (Inspect quiet sample_service)" quiet sample_service
      empty_world, OF _ prod.collapse [symmetric]]
  by (simp add: empty_world_def)

section \<open>Stop deletes only what is its own\<close>

text \<open>
  The state file of \<open>f\<close> holds \<open>v\<close>; through a symbolic link the content is up to the outside.
\<close>

definition stored :: "cluster_service \<Rightarrow> files \<Rightarrow> state \<Rightarrow> bool" where
  "stored S f v \<longleftrightarrow> fs_get f (statePath S) \<noteq> None \<and>
     (\<forall>c m. fs_get f (statePath S) = Some (RegFile c m) \<longrightarrow> decode_checked (sv_codec S) c = Inr v)"

definition marker_checked :: "history \<Rightarrow> string \<Rightarrow> bool" where
  "marker_checked tr i \<longleftrightarrow> tr \<noteq> [] \<and> last tr = ERun ''docker'' marker_args (Inr i)"

definition labels_checked :: "history \<Rightarrow> string \<Rightarrow> bool" where
  "labels_checked tr i \<longleftrightarrow> tr \<noteq> [] \<and> last tr = ERun ''docker''
     [''inspect'', ''--format'', labels_format, RegistryContainer] (Inr (''tripgoctl|'' @ i))"

definition owned_deletion :: "state \<Rightarrow> history \<Rightarrow> event \<Rightarrow> bool" where
  "owned_deletion v tr e \<longleftrightarrow>
     (\<exists>k r. e = ERun k delete_cluster_args r \<and> marker_checked tr (st_ClusterID v)) \<or>
     (\<exists>r. e = ERun ''docker'' remove_registry_args r \<and> labels_checked tr (st_ClusterID v))"

abbreviation careful_wp :: "(history \<Rightarrow> event \<Rightarrow> bool) \<Rightarrow> 'a io \<Rightarrow> (gerr + 'a \<Rightarrow> world \<Rightarrow> bool) \<Rightarrow> world \<Rightarrow> bool" where
  "careful_wp J \<equiv> wp (\<lambda>tr e. mutates e \<longrightarrow> J tr e)"

lemma wp_loadState:
  assumes "\<And>r u. files u = files w \<Longrightarrow> (\<And>v. r = Inr v \<Longrightarrow> stored S (files w) v) \<Longrightarrow> Q r u"
  shows "careful_wp J (loadState E (sv_codec S) (statePath S)) Q w"
  unfolding loadState_def
  by (rule wp_bind, rule wp_readFile) (auto simp: stored_def intro!: wp_lift assms)

lemma wp_verifyMarker:
  assumes "\<And>e u. Q (Inl e) u" and "\<And>u. marker_checked (trace u) i \<Longrightarrow> Q (Inr ()) u"
  shows "careful_wp J (verifyMarker E i) Q w"
  unfolding verifyMarker_def
  by (rule wp_try, rule wp_run) (use assms in \<open>auto simp: marker_checked_def intro!: wp_ret wp_fail\<close>)

lemma wp_verifyLabels:
  assumes "\<And>e u. Q (Inl e) u" and "\<And>u. labels_checked (trace u) i \<Longrightarrow> Q (Inr ()) u"
  shows "careful_wp J (verifyRegistryOwnership E i) Q w"
  unfolding verifyRegistryOwnership_def
  by (rule wp_bind, rule wp_wrap, rule wp_run)
     (use assms in \<open>auto simp: labels_checked_def intro!: wp_ret wp_fail split: sum.splits\<close>)

lemma careful_locked:
  assumes "\<And>u. beside (lockPath S) (files w) (files u) \<Longrightarrow> careful_wp J body (\<lambda>_ _. True) u"
  shows "careful_wp J (locked E S body) (\<lambda>_ _. True) w"
proof -
  have lock: "careful_wp J (flockE E) Q u" if "\<And>e. Q (Inl e) u" "\<And>v. files v = files u \<Longrightarrow> Q (Inr ()) v"
    for Q and u :: world
    using that by (auto simp: wp_def flockE_def split: option.splits)
  have unlock: "careful_wp J closeLock (\<lambda>_ _. True) u" for u
    by (simp add: wp_def closeLock_def)
  have opn: "careful_wp J (fsE E (OpenPath p) (\<lambda>f.
           if fs_get f p = None then Inr ((), fs_put p (RegFile [] mode0600) f)
           else if fs_get f p = Some Dir then Inl (Foreign ''is a directory'' [])
           else Inr ((), f))) Q u"
    if "\<And>e v. Q (Inl e) v" "\<And>v. beside p (files u) (files v) \<Longrightarrow> Q (Inr ()) v" for Q p and u :: world
    using that by (intro wp_fs) (auto simp: beside_def split: if_splits)
  have dir: "careful_wp J (mkdirAll E (butlast p)) Q u"
    if "\<And>e v. Q (Inl e) v" "\<And>v. beside p (files u) (files v) \<Longrightarrow> Q (Inr ()) v" for Q p and u :: world
    using that by (intro wp_mkdirAll) (simp_all add: beside_mkdirAll)
  show ?thesis
    unfolding locked_def acquireLock_def
    by (rule wp_bind wp_wrap dir opn lock wp_defer unlock wp_mono [OF assms] | simp | metis beside_trans)+
qed

lemma statePath_beside: "beside (lockPath S) f g \<Longrightarrow> fs_get g (statePath S) = fs_get f (statePath S)"
  by (simp add: beside_def lockPath_def statePath_def)

lemma stored_cong: "fs_get f (statePath S) = fs_get g (statePath S) \<Longrightarrow> stored S f = stored S g"
  by (simp add: stored_def fun_eq_iff)

definition stop_allowed :: "cluster_service \<Rightarrow> files \<Rightarrow> string list \<Rightarrow> history \<Rightarrow> event \<Rightarrow> bool" where
  "stop_allowed S f ns tr e \<longleftrightarrow>
     (\<exists>v. stored S f v \<and> sort ns = sort (st_Namespaces v) \<and> owned_deletion v tr e)"

lemma deletions_careful:
  assumes "stored S f v" and "sort ns = sort (st_Namespaces v)"
  shows "careful_wp (stop_allowed S f ns)
      (bindE (verifyMarker E (st_ClusterID v)) (\<lambda>_.
       bindE (wrapE g (runE E k delete_cluster_args)) (\<lambda>_. retE ()))) (\<lambda>_ _. True) u"
    and "careful_wp (stop_allowed S f ns)
      (bindE (verifyRegistryOwnership E (st_ClusterID v)) (\<lambda>_.
       bindE (wrapE g (runE E ''docker'' remove_registry_args)) (\<lambda>_. retE ()))) (\<lambda>_ _. True) u"
proof -
  have *: "stop_allowed S f ns tr e" if "owned_deletion v tr e" for tr e
    using assms that by (auto simp: stop_allowed_def)
  show "careful_wp (stop_allowed S f ns)
      (bindE (verifyMarker E (st_ClusterID v)) (\<lambda>_.
       bindE (wrapE g (runE E k delete_cluster_args)) (\<lambda>_. retE ()))) (\<lambda>_ _. True) u"
    by (rule wp_bind, rule wp_verifyMarker)
       (auto intro!: wp_bind wp_wrap wp_run wp_ret * simp: owned_deletion_def split: sum.splits)
  show "careful_wp (stop_allowed S f ns)
      (bindE (verifyRegistryOwnership E (st_ClusterID v)) (\<lambda>_.
       bindE (wrapE g (runE E ''docker'' remove_registry_args)) (\<lambda>_. retE ()))) (\<lambda>_ _. True) u"
    by (rule wp_bind, rule wp_verifyLabels)
       (auto intro!: wp_bind wp_wrap wp_run wp_ret * simp: owned_deletion_def split: sum.splits)
qed

abbreviation careful_calm :: "(history \<Rightarrow> event \<Rightarrow> bool) \<Rightarrow> 'a io \<Rightarrow> bool" where
  "careful_calm J m \<equiv> calm (\<lambda>tr e. mutates e \<longrightarrow> J tr e) (\<lambda>_. True) m"

lemma careful_wpI: "careful_calm J m \<Longrightarrow> (\<And>r u. Q r u) \<Longrightarrow> careful_wp J m Q w"
  by (rule calm_wp) simp_all

lemma deletions_calm:
  assumes "stored S f v" and "sort ns = sort (st_Namespaces v)"
  shows "careful_calm (stop_allowed S f ns) (bindE (verifyMarker E (st_ClusterID v)) (\<lambda>_.
           bindE (wrapE g (runE E k delete_cluster_args)) (\<lambda>_. retE ())))"
    and "careful_calm (stop_allowed S f ns) (bindE (verifyRegistryOwnership E (st_ClusterID v)) (\<lambda>_.
           bindE (wrapE g (runE E ''docker'' remove_registry_args)) (\<lambda>_. retE ())))"
  using deletions_careful [OF assms] by (simp_all add: calm_def)

text \<open>Everything after the state is read.\<close>

lemma stop_tail_calm:
  assumes "\<And>v. loaded = Inr v \<Longrightarrow> stored S f v"
  shows "careful_calm (stop_allowed S f ns)
    (bindE (ensureKind E S) (\<lambda>kindPath.
     bindE (kindClusters E kindPath) (\<lambda>clusters.
     bindE (containerExists E RegistryContainer) (\<lambda>registryExists.
     if cluster_Name \<notin> set clusters \<and> \<not> registryExists
     then removeIfExists E (\<lambda>e. Errorf [T ''remove stale cluster state: '', W e]) (statePath S)
     else case loaded of
       Inl stateErr \<Rightarrow> failE (conflict [T '': cannot prove ownership because cluster state is unavailable: '', V stateErr])
     | Inr value \<Rightarrow>
         if sort ns \<noteq> sort (st_Namespaces value)
         then failE (conflict [T '': environments changed after confirmation; run tripgoctl cluster stop again''])
         else
         bindE (whenE (cluster_Name \<in> set clusters) (
           bindE (verifyMarker E (st_ClusterID value)) (\<lambda>_.
           bindE (wrapE (\<lambda>e. Errorf [T ''delete kind cluster: '', W e])
             (runE E (path_text kindPath) delete_cluster_args)) (\<lambda>_. retE ())))) (\<lambda>_.
         bindE (whenE registryExists (
           bindE (verifyRegistryOwnership E (st_ClusterID value)) (\<lambda>_.
           bindE (wrapE (\<lambda>e. Errorf [T ''delete local registry: '', W e])
             (runE E ''docker'' remove_registry_args)) (\<lambda>_. retE ())))) (\<lambda>_.
         removeIfExists E (\<lambda>e. Errorf [T ''remove cluster state: '', W e]) (statePath S)))))))"
  by (rule deletions_calm [OF assms] calm_bind calm_if calm_case_sum calm_when
        careful.calm_cluster calm_structure | assumption | simp)+

lemma careful_stop: "careful_wp (stop_allowed S (files u) ns) (stop_locked E S ns) (\<lambda>_ _. True) u"
proof -
  have docker: "careful_wp J (checkDocker E) Q w"
    if "\<And>r u. files u = files w \<Longrightarrow> Q r u" for J Q and w :: world
    unfolding checkDocker_def
    by (rule wp_bind, rule wp_wrap, rule wp_run) (auto intro!: wp_ret that split: sum.splits)
  show ?thesis
    unfolding stop_locked_def Let_def
    apply (rule wp_bind, rule wp_lift, simp split: sum.split, intro impI)
    apply (rule wp_bind, rule docker, simp split: sum.split, intro impI)
    apply (rule wp_try, rule wp_loadState)
    apply (rule careful_wpI [OF stop_tail_calm])
     apply simp_all
    done
qed

lemma careful_cluster_Stop: "careful_wp (stop_allowed S (files w) ns) (cluster_Stop E S ns) (\<lambda>_ _. True) w"
proof -
  have "careful_wp (stop_allowed S (files w) ns) (stop_locked E S ns) (\<lambda>_ _. True) u"
    if "beside (lockPath S) (files w) (files u)" for u
    using careful_stop [of S u ns E] stored_cong [OF statePath_beside [OF that]]
    by (simp add: stop_allowed_def [abs_def])
  then show ?thesis unfolding cluster_Stop_def by (rule careful_locked)
qed

text \<open>
  C1: \<open>Stop\<close> changes nothing outside the process except by deleting the kind cluster immediately
  after its node returned the identity marker of the stored state, or by removing the registry
  container immediately after its labels named that identity; and only when a valid state is
  stored whose known environments are exactly those the caller confirmed. This holds for every
  answer and failure of Docker, kind and the file system.
\<close>
theorem Stop_deletes_only_owned:
  assumes "cluster_Stop E S ns w = (r, w')"
  shows "\<exists>es. trace w' = trace w @ es \<and> (\<forall>i < length es. mutates (es ! i) \<longrightarrow>
           (\<exists>v. stored S (files w) v \<and> sort ns = sort (st_Namespaces v) \<and>
                owned_deletion v (trace w @ take i es) (es ! i)))"
  using wp_trace [OF careful_cluster_Stop assms] by (simp add: stop_allowed_def)

text \<open>An outside in which the cluster and the registry exist and are owned by \<^const>\<open>sample_state\<close>.\<close>

definition owned :: outside where
  "owned = quiet\<lparr>
     env_run := (\<lambda>_ name args.
       if args = [''get'', ''clusters''] then Inr cluster_Name
       else if take 2 args = [''ps'', ''-a''] then Inr RegistryContainer
       else if args = marker_args then Inr ''id''
       else if take 1 args = [''inspect''] then Inr ''tripgoctl|id''
       else Inr []),
     env_sha256 := (\<lambda>_. ''a6875aaea358acf0ac07786b1a6755d08fd640f4c79b7a2e46681cc13f49a04b'')\<rparr>"

definition owned_world :: world where
  "owned_world = \<lparr>trace = [],
     files = [([''cfg''], Dir), ([''cfg'', ''cluster-state.json''], RegFile ''{}'' mode0600),
              ([''cache'', ''kind'', ''v0.27.0'', ''kind''], RegFile ''bin'' 448)],
     held = False\<rparr>"

lemma Fields_cluster_Name: "Fields cluster_Name = [cluster_Name]"
  by (simp add: Fields_def cluster_Name_def runes_ascii)

lemma owned_Stop:
  "filter mutates (trace (snd (cluster_Stop owned sample_service [] owned_world))) =
     [ERun ''/cache/kind/v0.27.0/kind'' delete_cluster_args (Inr []),
      ERun ''docker'' remove_registry_args (Inr [])]"
  by (simp add: cluster_Stop_def locked_def acquireLock_def flockE_def closeLock_def stop_locked_def
      io_defs fs_defs owned_def quiet_def owned_world_def sample_service_def sample_codec_def
      lockPath_def statePath_def checkPlatform_def checkDocker_def loadState_def decode_checked_def
      ensureKind_def EnsureKind_def validFileSHA256_def kind_path_def kindChecksums_def
      kindClusters_def Fields_cluster_Name containerExists_def verifyMarker_def
      verifyRegistryOwnership_def removeIfExists_def sample_state_def stateSchemaVersion_def
      upt_rec query_command_def marker_args_def delete_cluster_args_def remove_registry_args_def
      path_text_def KindVersion_def)

theorem Stop_deletes_only_owned_witness:
  "\<exists>es. trace (snd (cluster_Stop owned sample_service [] owned_world)) = es \<and>
     length (filter mutates es) = 2 \<and> (\<forall>i < length es. mutates (es ! i) \<longrightarrow>
       (\<exists>v. stored sample_service (files owned_world) v \<and> owned_deletion v (take i es) (es ! i)))"
  using Stop_deletes_only_owned [of owned sample_service "[]" owned_world, OF prod.collapse [symmetric]]
    owned_Stop
  by (auto simp: owned_world_def)

section \<open>A failed start removes what it created\<close>

text \<open>
  Read off the history: whether a registry and a cluster were created since the last command that
  removes them.
\<close>

fun left_step :: "bool \<times> bool \<Rightarrow> event \<Rightarrow> bool \<times> bool" where
  "left_step (registry, cluster) (ERun n args r) =
     (if take 2 args = [''run'', ''-d''] then (registry \<or> (\<exists>out. r = Inr out), cluster)
      else if take 2 args = [''create'', ''cluster''] then (registry, cluster \<or> (\<exists>out. r = Inr out))
      else if args = remove_registry_args then (False, cluster)
      else if args = delete_cluster_args then (registry, False)
      else (registry, cluster))"
| "left_step s e = s"

definition leftovers :: "history \<Rightarrow> bool \<times> bool" where
  "leftovers tr = foldl left_step (False, False) tr"

fun creates_or_removes :: "event \<Rightarrow> bool" where
  "creates_or_removes (ERun n args r) \<longleftrightarrow>
     take 2 args \<in> {[''run'', ''-d''], [''create'', ''cluster'']} \<or>
     args \<in> {remove_registry_args, delete_cluster_args}"
| "creates_or_removes e \<longleftrightarrow> False"

lemma leftovers_snoc [simp]: "leftovers (tr @ [e]) = left_step (leftovers tr) e"
  by (simp add: leftovers_def)

lemma left_step_other: "\<not> creates_or_removes e \<Longrightarrow> left_step s e = s"
  by (cases e; cases s) auto

lemma creates_or_removes_mutates: "creates_or_removes e \<Longrightarrow> mutates e"
proof (cases e)
  case (ERun n args r)
  moreover assume "creates_or_removes e"
  ultimately show ?thesis
    by (cases args; cases "tl args")
       (auto simp: query_command_def remove_registry_args_def delete_cluster_args_def)
qed auto

interpretation keeping: discipline "\<lambda>_ _. True" "\<lambda>w. leftovers (trace w) = b" "\<lambda>e. \<not> creates_or_removes e"
  for b
  by unfold_locales (auto simp: left_step_other dest: creates_or_removes_mutates)

abbreviation keeps :: "bool \<times> bool \<Rightarrow> 'a io \<Rightarrow> bool" where
  "keeps b m \<equiv> calm (\<lambda>_ _. True) (\<lambda>w. leftovers (trace w) = b) m"

abbreviation ends :: "(gerr + 'a \<Rightarrow> bool \<times> bool \<Rightarrow> bool) \<Rightarrow> 'a io \<Rightarrow> world \<Rightarrow> bool" where
  "ends Q m w \<equiv> wp (\<lambda>_ _. True) m (\<lambda>r w'. Q r (leftovers (trace w'))) w"

lemma keeps_ends: "keeps b m \<Longrightarrow> leftovers (trace w) = b \<Longrightarrow> (\<And>r. Q r b) \<Longrightarrow> ends Q m w"
  by (erule calm_wp) auto

lemma delete_not_others [simp]:
  "take 2 delete_cluster_args \<noteq> [''run'', ''-d'']" "take 2 delete_cluster_args \<noteq> [''create'', ''cluster'']"
  "delete_cluster_args \<noteq> remove_registry_args" "take 2 remove_registry_args \<noteq> [''run'', ''-d'']"
  "take 2 remove_registry_args \<noteq> [''create'', ''cluster'']"
  by (simp_all add: delete_cluster_args_def remove_registry_args_def)

lemma left_step_cleanup [simp]:
  "left_step b (ERun k delete_cluster_args r) = (fst b, False)"
  "left_step b (ERun k remove_registry_args r) = (False, snd b)"
  by (cases b; simp add: delete_not_others [symmetric])+

definition cleaned :: "gerr + 'a \<Rightarrow> bool \<times> bool \<Rightarrow> bool" where
  "cleaned r b \<longleftrightarrow> b = (True, \<exists>x. r = Inr x)"

text \<open>A step after the creation of the cluster: its error comes with the deletion.\<close>

lemma ends_guarded:
  assumes "keeps (True, True) m" and "leftovers (trace w) = (True, True)"
    and "\<And>w'. leftovers (trace w') = (True, True) \<Longrightarrow> ends cleaned k w'"
  shows "ends cleaned (bindE (tryE m (\<lambda>r. case r of Inr _ \<Rightarrow> retE ()
     | Inl e \<Rightarrow> if c e then retE () else bindE (runFailedStartCleanup E kp delete_cluster_args) (\<lambda>_. failE (f e))))
     (\<lambda>_. k)) w"
  by (rule wp_bind, rule wp_try, rule calm_wp [OF assms(1,2)])
     (auto simp: runFailedStartCleanup_def cleaned_def assms(3) [unfolded cleaned_def]
       intro!: wp_ret wp_bind wp_ignore wp_run wp_fail split: sum.splits)

lemma ends_guarded_always:
  assumes "keeps (True, True) m" and "leftovers (trace w) = (True, True)"
    and "\<And>w'. leftovers (trace w') = (True, True) \<Longrightarrow> ends cleaned k w'"
  shows "ends cleaned (bindE (tryE m (\<lambda>r. case r of Inr _ \<Rightarrow> retE ()
     | Inl e \<Rightarrow> bindE (runFailedStartCleanup E kp delete_cluster_args) (\<lambda>_. failE (f e))))
     (\<lambda>_. k)) w"
  using ends_guarded [OF assms, where c = "\<lambda>_. False"] by simp

lemma keeps_other: "take 2 a \<noteq> [''run'', ''-d''] \<Longrightarrow> take 2 a \<noteq> [''create'', ''cluster''] \<Longrightarrow>
    a \<noteq> remove_registry_args \<Longrightarrow> a \<noteq> delete_cluster_args \<Longrightarrow> keeps b (runE E n a)"
  by (rule keeping.calm_run) simp

lemma keeps_access: "keeps b (kindKubernetesAccess E k i True)"
  unfolding kindKubernetesAccess_def
  by (simp, intro keeping.calm_prims keeping.calm_patch cluster_queries) simp

lemma keeps_finish:
  "keeps b (runE E n [''network'', ''connect'', ''kind'', RegistryContainer])"
  "keeps b (runE E n [''exec'', ControlPlaneContainer, ''sh'', ''-c'', s])"
  by (rule keeps_other; simp add: remove_registry_args_def delete_cluster_args_def)+

lemma ends_last:
  "leftovers (trace w) = (True, True) \<Longrightarrow> ends cleaned (retE x) w"
  by (rule wp_ret) (simp add: cleaned_def)

lemma ends_report:
  assumes "leftovers (trace w) = b" and "\<And>u. leftovers (trace u) = b \<Longrightarrow> ends cleaned k u"
  shows "ends cleaned (bindE (report E kd s) (\<lambda>_. k)) w"
  by (rule wp_bind, rule wp_report) (use assms in simp_all)

lemma ends_finish:
  assumes "leftovers (trace w) = (True, True)"
  shows "ends cleaned (finish_cluster E S kp h i) w"
  unfolding finish_cluster_def Let_def
  by (rule ends_guarded_always ends_guarded [OF _ assms] keeps_access keeping.calm_writeState
        keeps_finish ends_report ends_last | assumption)+

lemma ends_create:
  assumes "leftovers (trace w) = (True, False)"
  shows "ends cleaned (create_cluster E S kp c h i) w"
proof -
  have run: "ends cleaned (bindE (wrapE g (runE E k (create_cluster_args p))) (\<lambda>_. finish_cluster E S kp h i)) u"
    if "leftovers (trace u) = (True, False)" for g k p u
    by (rule wp_bind, rule wp_wrap, rule wp_run)
       (use that in \<open>auto simp: cleaned_def create_cluster_args_def remove_registry_args_def
         intro!: wp_mono [OF ends_finish] split: sum.splits\<close>)
  have fin: "ends cleaned (deferE (ignoreE m) k) u"
    if "\<And>b. keeps b m" "ends cleaned k u" for m :: "unit io" and k :: "status io" and u
    by (rule wp_defer, rule wp_mono [OF that(2)], rule wp_ignore, rule calm_wp [OF that(1) refl]) simp
  have then_: "ends cleaned (bindE m f) u"
    if "leftovers (trace u) = (True, False)" "\<And>b. keeps b m"
      "\<And>x u. leftovers (trace u) = (True, False) \<Longrightarrow> ends cleaned (f x) u"
    for m :: "'z io" and f :: "'z \<Rightarrow> status io" and u
    by (rule wp_bind, rule calm_wp [OF that(2) that(1)]) (auto simp: cleaned_def split: sum.splits intro: that(3) [unfolded cleaned_def])
  show ?thesis
    unfolding create_cluster_def
    by (rule fin run then_ [OF assms] then_ keeping.calm_files keeping.calm_write keeping.calm_report
        calm_wrap | assumption)+
qed

text \<open>The outcome of a start: nothing left behind on error, both or neither otherwise.\<close>

definition nothing_left :: "gerr + 'a \<Rightarrow> bool \<times> bool \<Rightarrow> bool" where
  "nothing_left r b \<longleftrightarrow> fst b = snd b \<and> (\<forall>e. r = Inl e \<longrightarrow> b = (False, False))"

lemma nothing_left_init [simp]: "nothing_left r (False, False)"
  by (simp add: nothing_left_def)

lemma left_step_run [simp]:
  "left_step b (ERun k (registry_args i ref) r) = (fst b \<or> (\<exists>out. r = Inr out), snd b)"
  by (cases b) (simp add: registry_args_def)

lemma ends_step:
  assumes "keeps (False, False) m" and "leftovers (trace w) = (False, False)"
    and "\<And>x u. leftovers (trace u) = (False, False) \<Longrightarrow> ends nothing_left (f x) u"
  shows "ends nothing_left (bindE m f) w"
  by (rule wp_bind, rule calm_wp [OF assms(1,2)]) (simp add: assms(3) split: sum.split)

lemma keeps_orphan: "keeps (False, False) (removeOwnedOrphanRegistry E S)"
proof -
  have rm: "keeps (False, False) (runE E ''docker'' remove_registry_args)"
    unfolding calm_def by (intro allI impI wp_run) simp
  show ?thesis
    unfolding removeOwnedOrphanRegistry_def by (rule rm keeping.calm_prims keeping.calm_cluster)+
qed

lemma ends_registry:
  assumes "leftovers (trace w) = (False, False)"
  shows "ends nothing_left (bindE (startRegistry E i) (\<lambda>_.
     onFailE (runFailedStartCleanup E ''docker'' remove_registry_args) (create_cluster E S kp c h i))) w"
proof -
  have body: "ends nothing_left (onFailE (runFailedStartCleanup E ''docker'' remove_registry_args)
      (create_cluster E S kp c h i)) u" if "leftovers (trace u) = (True, False)" for u
    by (rule wp_onFail, rule wp_mono [OF ends_create [OF that]])
       (auto simp: nothing_left_def cleaned_def runFailedStartCleanup_def intro!: wp_ignore wp_run
         split: sum.splits)
  have "ends (\<lambda>r b. b = (\<exists>x. r = Inr x, False)) (startRegistry E i) w"
    unfolding startRegistry_def
    by (rule wp_rules | simp add: assms wp_ret split: sum.splits)+
  then show ?thesis
    by (rule wp_bind [OF wp_mono]) (simp add: body split: sum.splits)
qed

lemma ends_start_new:
  assumes "leftovers (trace w) = (False, False)"
  shows "ends nothing_left (start_new E S kp c h) w"
  unfolding start_new_def checkPorts_def
  by (rule ends_step [OF keeps_orphan assms] ends_step [OF keeping.calm_busy_ports]
        ends_step [OF keeping.calm_warnResources] ends_step [OF calm_wrap [OF keeping.calm_newClusterID]]
        ends_step [OF keeping.calm_report] ends_registry wp_if wp_fail | assumption | simp add: nothing_left_def)+

lemma ends_existing:
  assumes "keeps (False, False) m" and "leftovers (trace w) = (False, False)"
  shows "ends nothing_left m w"
  by (rule calm_wp [OF assms]) (simp add: nothing_left_def)

lemma ends_start_locked:
  assumes "leftovers (trace w) = (False, False)"
  shows "ends nothing_left (start_locked E S) w"
  unfolding start_locked_def
  by (rule ends_step [OF calm_structure(3) assms] ends_step [OF calm_structure(3)]
      ends_step [OF keeping.calm_checks(1)] ends_step [OF keeping.calm_checks(2)]
      ends_step [OF keeping.calm_report] ends_step [OF keeping.calm_ensureKind]
      ends_existing [OF keeping.calm_verify(2)] ends_start_new wp_if wp_case_prod | assumption)+


text \<open>An outside in which kind starts the cluster and connecting the registry to it fails.\<close>

definition failing_connect :: outside where
  "failing_connect = quiet\<lparr>
     env_run := (\<lambda>_ name args. if take 1 args = [''network''] then Inl (Foreign ''no such network'' []) else Inr []),
     env_sha256 := (\<lambda>_. ''a6875aaea358acf0ac07786b1a6755d08fd640f4c79b7a2e46681cc13f49a04b'')\<rparr>"


section \<open>The lease\<close>

text \<open>The environment projection: sorted lists of names, the running ones among the known ones.\<close>

definition projection_ok :: "state \<Rightarrow> bool" where
  "projection_ok v \<longleftrightarrow> members_ok (st_Namespaces v) \<and> members_ok (st_RunningNamespaces v) \<and>
     set (st_RunningNamespaces v) \<subseteq> set (st_Namespaces v)"

definition with_environment :: "state \<Rightarrow> string \<Rightarrow> bool \<Rightarrow> bool \<Rightarrow> state" where
  "with_environment v ns known running = v\<lparr>
     st_Namespaces := setMembership (st_Namespaces v) ns known,
     st_RunningNamespaces := setMembership (st_RunningNamespaces v) ns (known \<and> running)\<rparr>"

lemma with_environment_ok: "projection_ok v \<Longrightarrow> projection_ok (with_environment v ns known running)"
  using names.upd_subset [of "st_Namespaces v" "st_RunningNamespaces v" ns known running]
  by (simp add: projection_ok_def with_environment_def names.upd_ok)

lemma wp_SetEnvironmentState:
  "wp (\<lambda>_ _. True) (SetEnvironmentState E S l ns known running) (\<lambda>r w'. case r of
      Inl e \<Rightarrow> fs_get (files w') (statePath S) = fs_get (files w) (statePath S)
    | Inr l' \<Rightarrow> (\<exists>v. stored S (files w) v \<and> st_ClusterID v = st_ClusterID (ls_state l) \<and>
        ls_state l' = with_environment v ns known running \<and> ls_access l' = ls_access l \<and>
        fs_get (files w') (statePath S) = Some (RegFile (encode_state (sv_codec S) (ls_state l') @ [nl]) mode0600))) w"
proof -
  have path: "statePath S \<noteq> []" "\<not> HasPrefix (last (statePath S)) ''.state-''"
    by (simp_all add: statePath_def HasPrefix_def)
  have load: "wp (\<lambda>_ _. True) (loadState E (sv_codec S) (statePath S)) (\<lambda>r w'. files w' = files w \<and>
      (\<forall>v. r = Inr v \<longrightarrow> stored S (files w) v)) w"
    using wp_loadState [where J = "\<lambda>_ _. True" and E = E and S = S and w = w] by simp
  show ?thesis
    unfolding SetEnvironmentState_def Let_def
    apply (rule wp_bind, rule wp_wrap, rule wp_mono [OF load])
    apply (auto simp: with_environment_def intro!: wp_rules wp_mono [OF writeState_wp [OF path]]
        split: sum.splits)
    apply blast
    done
qed

text \<open>
  C15: \<open>SetEnvironmentState\<close> either fails and leaves the state file as it was, or installs the stored
  state of the same cluster identity with exactly the named environment made known and running
  as asked: every other environment keeps its place, a running environment is always a known
  one, and the lists stay sorted and free of repetition.
\<close>
theorem SetEnvironmentState_projection:
  assumes "SetEnvironmentState E S l ns known running w = (r, w')"
    and "\<And>v. stored S (files w) v \<Longrightarrow> projection_ok v"
  shows "case r of
      Inl e \<Rightarrow> fs_get (files w') (statePath S) = fs_get (files w) (statePath S)
    | Inr l' \<Rightarrow> (\<exists>v. stored S (files w) v \<and> st_ClusterID v = st_ClusterID (ls_state l) \<and>
        fs_get (files w') (statePath S) =
          Some (RegFile (encode_state (sv_codec S) (ls_state l') @ [nl]) mode0600) \<and>
        projection_ok (ls_state l') \<and>
        set (st_Namespaces (ls_state l')) =
          (if known then insert ns (set (st_Namespaces v)) else set (st_Namespaces v) - {ns}) \<and>
        set (st_RunningNamespaces (ls_state l')) =
          (if known \<and> running then insert ns (set (st_RunningNamespaces v))
           else set (st_RunningNamespaces v) - {ns}))"
proof (cases r)
  case (Inl e)
  then show ?thesis using wpD [OF wp_SetEnvironmentState assms(1)] by simp
next
  case (Inr l')
  then obtain v where v: "stored S (files w) v" "st_ClusterID v = st_ClusterID (ls_state l)"
      "ls_state l' = with_environment v ns known running"
      "fs_get (files w') (statePath S) =
         Some (RegFile (encode_state (sv_codec S) (ls_state l') @ [nl]) mode0600)"
    using wpD [OF wp_SetEnvironmentState assms(1)] by auto
  have ok: "projection_ok v" using assms(2) v(1) .
  have "projection_ok (ls_state l')" using with_environment_ok [OF ok] v(3) by simp
  moreover have "set (st_Namespaces (ls_state l')) =
      (if known then insert ns (set (st_Namespaces v)) else set (st_Namespaces v) - {ns})"
    using ok v(3) by (simp add: with_environment_def projection_ok_def names.upd_set)
  moreover have "set (st_RunningNamespaces (ls_state l')) =
      (if known \<and> running then insert ns (set (st_RunningNamespaces v))
       else set (st_RunningNamespaces v) - {ns})"
    using ok v(3) by (simp add: with_environment_def projection_ok_def names.upd_set)
  ultimately show ?thesis using Inr v by auto
qed

definition sample_lease :: lease where
  "sample_lease = \<lparr>ls_state = sample_state, ls_access = \<lparr>ac_ClusterID = ''id''\<rparr>\<rparr>"

lemma sample_set_run:
  "\<exists>l. fst (SetEnvironmentState owned sample_service sample_lease ''tripgo-lab-01'' True True owned_world) = Inr l"
  by (simp add: SetEnvironmentState_def loadState_def decode_checked_def writeState_def io_defs fs_defs
      owned_def quiet_def owned_world_def sample_service_def sample_codec_def sample_lease_def
      sample_state_def stateSchemaVersion_def statePath_def upt_rec)

theorem SetEnvironmentState_projection_witness:
  "\<exists>l. fst (SetEnvironmentState owned sample_service sample_lease ''tripgo-lab-01'' True True owned_world) = Inr l \<and>
     projection_ok (ls_state l) \<and> ''tripgo-lab-01'' \<in> set (st_RunningNamespaces (ls_state l))"
proof -
  have ok: "projection_ok v" if "stored sample_service (files owned_world) v" for v
    using that by (auto simp: stored_def owned_world_def sample_service_def statePath_def fs_get_def
        sample_codec_def decode_checked_def sample_state_def stateSchemaVersion_def projection_ok_def
        members_ok_def)
  from SetEnvironmentState_projection [of owned sample_service sample_lease "''tripgo-lab-01''" True True
      owned_world, OF prod.collapse [symmetric] ok]
  show ?thesis using sample_set_run by auto
qed

end
