(* ===== verification/Lab_Safety.thy ===== *)
theory Lab_Safety
  imports Lab_Service Cluster_Safety
begin

text \<open>
  What the lab lifecycle promises, for every behaviour of the cluster, Docker, the network and the
  file system: its operations run under the operation lock and give it back; status and listing
  change nothing; every patch and every deletion follows, with no other call in between, a look at
  the very object that found it absent or owned; stopping only scales workloads and deletes
  nothing; waiting ends with success exactly on readiness, within a bounded number of rounds.
\<close>

section \<open>The read-only parts\<close>

lemma calm_case_doc:
  assumes "\<And>e. d = DocError e \<Longrightarrow> calm G I (f e)" and "d = DocBlank \<Longrightarrow> calm G I m"
    and "\<And>e. d = DocBad e \<Longrightarrow> calm G I (g e)" and "\<And>ob. d = DocObject ob \<Longrightarrow> calm G I (h ob)"
  shows "calm G I (case d of DocError e \<Rightarrow> f e | DocBlank \<Rightarrow> m | DocBad e \<Rightarrow> g e | DocObject ob \<Rightarrow> h ob)"
  using assms by (cases d) auto

context discipline
begin

lemma calm_tick: "calm G I tickE"
  using step_quiet [of _ ETick] by (auto simp: calm_def wp_def tickE_def)

lemma calm_loadCurrentConfig: "calm G I (loadCurrentConfig E L cwd)"
  unfolding loadCurrentConfig_def by (intro calm_prims)

lemma calm_verifyNamespace: "calm G I (verifyNamespace E ns lab i)"
  unfolding verifyNamespace_def by (intro calm_prims)

lemma calm_get_owned: "calm G I (get_owned E g ns n lab i a f)"
  unfolding get_owned_def by (intro calm_prims)

lemma calm_verifyWorkloadOwnership: "calm G I (verifyWorkloadOwnership E ns lab i)"
  unfolding verifyWorkloadOwnership_def by (intro calm_prims calm_get_owned)

lemma calm_verifyRedpanda: "calm G I (verifyRedpandaResources E lab ns i)"
  unfolding verifyRedpandaResources_def by (intro calm_prims calm_get_owned)

lemma calm_collect: "calm G I (collect_status E ns lab i ws cs a b)"
proof (induction ws arbitrary: cs a b)
  case (Cons x xs)
  show ?case by (simp only: collect_status.simps) (intro calm_prims calm_get_owned Cons.IH)
qed (simp add: calm_structure)

lemma calm_statusWith: "calm G I (statusWith E c i)"
  unfolding statusWith_def verify_services_def
  by (intro calm_prims calm_verifyNamespace calm_verifyRedpanda calm_collect)

lemma calm_preflight_docs: "calm G I (preflight_docs E f lab ns i ds)"
proof (induction ds)
  case (Cons x xs)
  show ?case by (simp only: preflight_docs.simps) (intro calm_prims calm_case_doc Cons.IH)
qed (simp add: calm_structure)

lemma calm_preflight: "calm G I (verifyManifestBundleOwnership E L b lab ns i)"
  unfolding verifyManifestBundleOwnership_def by (intro calm_prims calm_preflight_docs)

lemma calm_preflight_namespace: "calm G I (preflight_namespace E ns lab i)"
  unfolding preflight_namespace_def by (intro calm_prims calm_verifyNamespace)

lemma calm_poll: "(\<And>s. calm G I (m s)) \<Longrightarrow> calm G I (poll E n m s)"
proof (induction n arbitrary: s)
  case (Suc n)
  then show ?case by (simp, intro calm_prims calm_tick) auto
qed (simp add: calm_structure)

lemma calm_wait_items: "calm G I (wait_items E ns n items l r s)"
proof (induction items arbitrary: l r s)
  case (Cons x xs)
  show ?case by (simp only: wait_items.simps) (intro calm_prims  Cons.IH)
qed (simp add: calm_structure)

lemma calm_details: "calm G I (workloadStartupDetails E L ns)"
  unfolding workloadStartupDetails_def Let_def by (intro calm_prims)

lemma calm_world: "(\<And>w. calm G I (m w)) \<Longrightarrow> calm G I (\<lambda>w. m w w)"
  by (simp add: calm_def wp_def)

lemma calm_wait_round: "calm G I (wait_round E L ns items x t s)"
  unfolding wait_round_def Let_def
  by (intro calm_bind calm_wait_items calm_case_prod calm_case_sum calm_structure,
      rule calm_world, intro calm_if calm_bind calm_details calm_structure calm_case_prod calm_try
        calm_ctxErr calm_case_sum, rule calm_world,
      intro calm_bind calm_report calm_structure, rule calm_world, intro calm_structure)

lemma calm_waitForWorkloads: "calm G I (waitForWorkloads E L ns items x)"
  unfolding waitForWorkloads_def
  by (rule calm_world, intro calm_bind calm_poll calm_wait_round calm_case_prod calm_case_option calm_structure)

lemma calm_SetEnvironmentState: "calm G I (SetEnvironmentState E S l ns k r)"
  unfolding SetEnvironmentState_def Let_def by (intro calm_prims calm_loadState calm_writeState)

lemma calm_ensureEnv: "calm G I (ensureEnvWritable E p)" "calm G I (ensureTripgoWritable E p)"
  unfolding ensureEnvWritable_def ensureTripgoWritable_def openFile_def by (intro calm_prims)+

lemma calm_writeEnv: "calm G I (writeEnv E p c v)"
  unfolding writeEnv_def atomicWrite_def by (intro calm_prims calm_ensureEnv)

lemma calm_removeGenerated: "calm G I (removeGenerated E p d)"
  unfolding removeGenerated_def remove_generated_dir_def remove_generated_env_def remove_rendered_def
    remove_legacy_lock_def openFile_def Let_def
  by (intro calm_prims)

lemma calm_generator_Write: "calm G I (generator_Write E p b)"
  unfolding generator_Write_def ensureOutputDirectory_def write_rendered_def preserve_rendered_def
    install_rendered_def removeLegacyLock_def Let_def
  by (intro calm_prims)

lemma calm_running_push: "calm G I (running_push_reference E ns lab i)"
  unfolding running_push_reference_def by (intro calm_prims)

lemma calm_list_namespaces: "calm G I (list_namespaces E i items res)"
proof (induction items arbitrary: res)
  case (Cons x xs)
  show ?case by (simp only: list_namespaces.simps) (intro calm_prims calm_statusWith Cons.IH)
qed (simp add: calm_structure)

lemmas calm_lab = calm_loadCurrentConfig calm_verifyNamespace calm_verifyWorkloadOwnership
  calm_verifyRedpanda calm_statusWith calm_preflight calm_preflight_namespace calm_waitForWorkloads
  calm_SetEnvironmentState calm_ensureEnv calm_writeEnv calm_removeGenerated calm_generator_Write
  calm_running_push calm_list_namespaces

end

section \<open>The lease as the lab service sees it\<close>

text \<open>
  The interface \<open>Cluster\<close> of the lab package: an operation that returns a lease together with the
  operation lock, and its release. The bracket that every lab operation is, is proved once.
\<close>

locale lease_provider =
  fixes begin_op :: "'l io" and close_op :: "unit io"
  assumes begin_lock: "lock_ok w \<Longrightarrow> wp under_lock begin_op (\<lambda>r w'. lock_ok w' \<and>
      held w' = (held w \<or> (\<exists>l. r = Inr l)) \<and> (held w \<longrightarrow> (\<exists>e. r = Inl e))) w"
    and close_lock: "lock_ok w \<Longrightarrow> wp under_lock close_op (\<lambda>_ w'. lock_ok w' \<and> \<not> held w') w"
begin

lemma bracket:
  assumes "\<And>l. under_lock_calm (body l)" and "lock_ok w"
  shows "wp under_lock (bindE begin_op (\<lambda>l. deferE close_op (body l)))
    (\<lambda>_ w'. lock_ok w' \<and> held w' = held w) w"
proof (rule wp_bind, rule wp_mono [OF begin_lock [OF assms(2)]], goal_cases)
  case (1 r u)
  show ?case
  proof (cases r)
    case (Inr l)
    with 1 have "held u" "lock_ok u" "\<not> held w" by auto
    then have "wp under_lock (deferE close_op (body l)) (\<lambda>_ w'. lock_ok w' \<and> \<not> held w') u"
      by (auto intro!: wp_defer calm_wp [OF assms(1)] wp_mono [OF close_lock])
    then show ?thesis using Inr \<open>\<not> held w\<close> by simp
  qed (use 1 in auto)
qed

end

lemma lease_Close_wp: "lock_ok w \<Longrightarrow> wp under_lock lease_Close (\<lambda>_ w'. lock_ok w' \<and> \<not> held w') w"
  by (auto simp: wp_def lease_Close_def closeLock_def under_lock_def lock_ok_def lock_step_def)

lemma wp_lab_client:
  assumes "lock_ok w"
  shows "wp under_lock (lab_client E L) (\<lambda>r w'. lock_ok w' \<and>
      held w' = (held w \<or> (\<exists>l. r = Inr l)) \<and> (held w \<longrightarrow> (\<exists>e. r = Inl e))) w"
  unfolding lab_client_def
proof (rule wp_bind, rule wp_mono [OF wp_Begin [OF assms]], goal_cases)
  case (1 r u)
  have client: "wp under_lock (\<lambda>w. (opt_result (env_client E (trace w)), w)) Q v" if "\<And>r. Q r v" for Q v
    using that by (simp add: wp_def)
  from 1 show ?case
    by (cases r) (auto intro!: wp_onFail wp_bind wp_wrap client wp_ret wp_mono [OF lease_Close_wp] split: sum.splits)
qed

interpretation lab_lease: lease_provider "lab_client E L" lease_Close for E L
  by unfold_locales (rule wp_lab_client lease_Close_wp, assumption)+

section \<open>Lab operations hold the lock\<close>

abbreviation local_calm :: "bool \<Rightarrow> 'a io \<Rightarrow> bool" where
  "local_calm b m \<equiv> calm under_lock (\<lambda>w. lock_ok w \<and> held w = b) m"

lemma local_fs: "local_calm b (fsE E op act)"
  by (auto simp: calm_def lock_quiet intro!: wp_fs)

lemma local_files: "local_calm b (lstat E p)" "local_calm b (readFile E p)" "local_calm b (closeFile E p)"
  "local_calm b (openFile E p)"
  unfolding lstat_def readFile_def closeFile_def openFile_def by (rule local_fs calm_history)+

lemma local_report: "local_calm b (report E k s)"
  by (auto simp: calm_def report_def wp_def under_lock_def lock_ok_def lock_step_def)

lemma local_prepare: "local_calm b (loadCurrentConfig E L cwd)" "local_calm b (ensureEnvWritable E p)"
  unfolding loadCurrentConfig_def ensureEnvWritable_def by (intro calm_rules local_files)+

lemma holding_apply_docs: "under_lock_calm (apply_docs E lab ns i inc ds)"
proof (induction ds)
  case (Cons d ds)
  show ?case
    by (simp only: apply_docs.simps) (intro holding.calm_prims calm_case_doc holding_any Cons.IH)
qed (simp add: calm_structure)

lemma holding_delete: "under_lock_calm (kdelete E g ns n)"
  by (rule holding.calm_delete) simp

lemma holding_gone: "under_lock_calm (namespace_gone E ns s)"
  unfolding namespace_gone_def by (intro holding.calm_prims)

lemma holding_bodies:
  "under_lock_calm (start_leased E L cwd v c l)" "under_lock_calm (stop_leased E L v c l)"
  "under_lock_calm (reset_leased E L cwd c l)" "under_lock_calm (statusWith E c i)"
  unfolding start_leased_def stop_leased_def reset_leased_def apply_bundle_def applyManifest_def
    applyManifestWhere_def push_reference_def Ensure_def build_and_push_def delete_namespace_def Let_def
  by (intro holding.calm_prims holding.calm_lab holding_apply_docs holding_any holding_delete holding_gone
      holding.calm_poll holding.calm_Extract)+

abbreviation kept :: "'a io \<Rightarrow> bool \<Rightarrow> bool" where
  "kept m b \<equiv> (\<forall>w. lock_ok w \<and> held w = b \<longrightarrow> wp under_lock m (\<lambda>_ w'. lock_ok w' \<and> held w' = b) w)"

lemma kept_bind: "local_calm b m \<Longrightarrow> (\<And>x. kept (f x) b) \<Longrightarrow> kept (bindE m f) b"
  unfolding calm_def by (auto intro!: wp_bind elim!: wp_mono split: sum.splits)

lemma kept_with_client: "(\<And>l. under_lock_calm (body l)) \<Longrightarrow> kept (with_client E L body) b"
  unfolding with_client_def using lab_lease.bracket [of body] by blast

lemma kept_list: "under_lock_calm (bindE (wrapE g (klist E Namespaces [] list_selector)) (\<lambda>items.
     bindE (list_namespaces E (lease_id l) items []) (\<lambda>result. retE (sort_key rs_Lab result))))"
  by (intro holding.calm_prims holding.calm_lab)

lemmas kept_rules = kept_bind kept_with_client local_report local_prepare holding_bodies kept_list

lemma kept_lab: "kept (lab_Start E L cwd v) b" "kept (lab_Status E L cwd) b" "kept (lab_Stop E L cwd v) b"
  "kept (lab_Reset E L cwd) b" "kept (lab_List E L) b"
  unfolding lab_Start_def lab_Status_def lab_Stop_def lab_Reset_def lab_List_def
  by (rule kept_rules)+

text \<open>
  C5: whatever the outside does, \<open>Start\<close>, \<open>Status\<close>, \<open>Stop\<close>, \<open>Reset\<close> and \<open>List\<close> of an environment make
  every Docker, kind and Kubernetes call while this process holds the operation lock, and leave
  the lock as they found it on every path, errors included.
\<close>
theorem lab_operations_bracketed:
  assumes "op \<in> {ignoreE (lab_Start E L cwd v), ignoreE (lab_Status E L cwd), ignoreE (lab_Stop E L cwd v),
      ignoreE (lab_Reset E L cwd), ignoreE (lab_List E L)}"
    and "lock_ok w" and "op w = (r, w')"
  shows "held w' = held w \<and> lock_ok w' \<and> (\<exists>es. trace w' = trace w @ es \<and>
           (\<forall>i < length es. external (es ! i) \<longrightarrow> lock_held (trace w @ take i es)))"
proof -
  have "wp under_lock op (\<lambda>_ w'. lock_ok w' \<and> held w' = held w) w"
    using assms(1,2) kept_lab [where b = "held w"] by (auto intro!: wp_ignore)
  from wp_trace [OF this assms(3)] show ?thesis by (auto simp: under_lock_def)
qed

section \<open>Changes are guarded\<close>

text \<open>The identity marker of the cluster was read from the API and names \<open>i\<close>.\<close>

definition identified :: "history \<Rightarrow> string \<Rightarrow> bool" where
  "identified tr i \<longleftrightarrow> (\<exists>m. EGet ConfigMaps ''kube-system'' ''tripgoctl-cluster-identity'' (Inr m) \<in> set tr \<and>
     data_cluster_id m = i)"

text \<open>
  A patch of an object right after a look at that very object that found it absent or owned by
  this lab and cluster; a deletion of the lab's namespace right after a look that found it owned;
  a build or a push of the Push Service image.
\<close>

definition patch_ok :: "(kobj \<Rightarrow> bool) \<Rightarrow> int \<Rightarrow> string \<Rightarrow> history \<Rightarrow> event \<Rightarrow> bool" where
  "patch_ok inc lab i tr e \<longleftrightarrow> (\<exists>g obj res seen.
     e = EPatch g (GetNamespace obj) (GetName obj) obj res \<and> inc obj \<and>
     resourceFor (GetAPIVersion obj) (GetKind obj) = Inr g \<and>
     tr \<noteq> [] \<and> last tr = EGet g (GetNamespace obj) (GetName obj) seen \<and>
     (case seen of Inl x \<Rightarrow> IsNotFound x
      | Inr ob \<Rightarrow> verifyResourceOwnership ob lab (lab_namespace lab) i = Inr ()))"

definition delete_ok :: "int \<Rightarrow> string \<Rightarrow> history \<Rightarrow> event \<Rightarrow> bool" where
  "delete_ok lab i tr e \<longleftrightarrow> (\<exists>ob res. e = EDelete Namespaces [] (lab_namespace lab) res \<and>
     tr \<noteq> [] \<and> last tr = EGet Namespaces [] (lab_namespace lab) (Inr ob) \<and>
     verifyResourceOwnership ob lab (lab_namespace lab) i = Inr ())"

definition image_command :: "outside \<Rightarrow> lab_service \<Rightarrow> event \<Rightarrow> bool" where
  "image_command E L e \<longleftrightarrow> (\<exists>args res. e = ERun ''docker'' args res \<and>
     (args = [''push'', image_tag E (lb_artifact L)] \<or>
      (\<exists>dir. args = build_args (sv_goarch (lb_cluster L)) (image_tag E (lb_artifact L)) dir)))"

interpretation marked: discipline "\<lambda>tr e. mutates e \<longrightarrow> identified tr i \<and> J tr e" "\<lambda>w. identified (trace w) i"
    "\<lambda>e. \<not> mutates e" for i and J :: "history \<Rightarrow> event \<Rightarrow> bool"
  by unfold_locales (auto simp: identified_def)

abbreviation marked_wp where
  "marked_wp i J \<equiv> wp (\<lambda>tr e. mutates e \<longrightarrow> identified tr i \<and> J tr e)"

abbreviation marked_calm where
  "marked_calm i J \<equiv> calm (\<lambda>tr e. mutates e \<longrightarrow> identified tr i \<and> J tr e) (\<lambda>w. identified (trace w) i)"

lemma identified_snoc: "identified tr i \<Longrightarrow> identified (tr @ [e]) i"
  by (auto simp: identified_def)

lemma marked_patch:
  assumes "\<And>tr e. patch_ok inc lab i tr e \<Longrightarrow> J tr e"
    and "inc obj" and "resourceFor (GetAPIVersion obj) (GetKind obj) = Inr g"
    and "\<And>e. calm (\<lambda>tr e. mutates e \<longrightarrow> identified tr i \<and> J tr e) (\<lambda>w. identified (trace w) i) rest"
  shows "marked_calm i J
    (bindE (tryE (kget E g (GetNamespace obj) (GetName obj)) (\<lambda>r. case r of
        Inr existing \<Rightarrow> liftE (verifyResourceOwnership existing lab (lab_namespace lab) i)
      | Inl e \<Rightarrow> if IsNotFound e then retE () else failE (f e))) (\<lambda>_.
     bindE (wrapE h (kpatch E g (GetNamespace obj) (GetName obj) obj)) (\<lambda>_. rest)))"
proof -
  have ok: "J tr (EPatch g (GetNamespace obj) (GetName obj) obj res)"
    if "tr \<noteq> []" "last tr = EGet g (GetNamespace obj) (GetName obj) seen"
      "case seen of Inl x \<Rightarrow> IsNotFound x
       | Inr ob \<Rightarrow> verifyResourceOwnership ob lab (lab_namespace lab) i = Inr ()" for tr seen res
    using assms(2,3) that by (intro assms(1)) (auto simp: patch_ok_def)
  have tail: "marked_wp i J (bindE (wrapE h (kpatch E g (GetNamespace obj) (GetName obj) obj)) (\<lambda>_. rest))
      (\<lambda>_ w. identified (trace w) i) u"
    if "identified (trace u) i" "trace u \<noteq> []" "last (trace u) = EGet g (GetNamespace obj) (GetName obj) seen"
      "case seen of Inl x \<Rightarrow> IsNotFound x
       | Inr ob \<Rightarrow> verifyResourceOwnership ob lab (lab_namespace lab) i = Inr ()" for u seen
    using that by (auto intro!: wp_bind wp_wrap wp_kpatch calmD [OF assms(4)] ok identified_snoc
        split: sum.splits)
  show ?thesis
    unfolding calm_def
  proof (intro allI impI wp_bind wp_try wp_kget, goal_cases)
    case (1 w r)
    then show ?case
      by (cases r) (auto intro!: wp_if wp_ret wp_fail wp_lift tail [of _ r] identified_snoc split: sum.split)
  qed
qed

lemma marked_apply_docs:
  assumes "\<And>tr e. patch_ok inc lab i tr e \<Longrightarrow> J tr e"
  shows "marked_calm i J (apply_docs E lab (lab_namespace lab) i inc ds)"
proof (induction ds)
  case (Cons d ds)
  have "marked_calm i J (bindE (liftE (resourceFor (GetAPIVersion obj) (GetKind obj))) f)"
    if "\<And>g. resourceFor (GetAPIVersion obj) (GetKind obj) = Inr g \<Longrightarrow> marked_calm i J (f g)" for obj f
    using that by (auto simp: calm_def intro!: wp_bind wp_lift split: sum.splits)
  note resource = this
  show ?case
    by (simp only: apply_docs.simps)
       (intro calm_case_doc calm_structure Cons.IH calm_if,
         (rule resource marked_patch [OF assms] Cons.IH | assumption | simp)+)
qed (simp add: calm_structure)

definition start_ok :: "outside \<Rightarrow> lab_service \<Rightarrow> int \<Rightarrow> string \<Rightarrow> history \<Rightarrow> event \<Rightarrow> bool" where
  "start_ok E L lab i tr e \<longleftrightarrow> patch_ok (\<lambda>_. True) lab i tr e \<or> image_command E L e"

lemma marked_image:
  assumes "image_command E L (ERun n a undefined)"
  shows "marked_calm i (start_ok E L lab i) (runE E n a)"
proof -
  have "image_command E L (ERun n a r)" for r using assms by (auto simp: image_command_def)
  then show ?thesis by (auto simp: calm_def start_ok_def intro!: wp_run identified_snoc)
qed

lemma marked_push: "marked_calm i (start_ok E L lab i) (push_reference E L)"
proof -
  have "query_command (digest_args tag)" for tag by (simp add: digest_args_def query_command_def)
  then show ?thesis
    unfolding push_reference_def Ensure_def build_and_push_def Let_def
    by (intro marked.calm_prims marked.calm_Extract marked_image) (auto simp: image_command_def)
qed

lemma marked_start:
  "marked_calm (lease_id l) (start_ok E L (cf_Lab c) (lease_id l)) (start_leased E L cwd v c l)"
  unfolding start_leased_def apply_bundle_def applyManifest_def applyManifestWhere_def Let_def
  by (intro marked.calm_prims marked.calm_lab marked_push marked_apply_docs) (simp add: start_ok_def)

lemma marked_stop:
  "marked_calm (lease_id l) (patch_ok is_workload_object (cf_Lab c) (lease_id l)) (stop_leased E L v c l)"
  unfolding stop_leased_def applyManifestWhere_def Let_def
  by (intro marked.calm_prims marked.calm_lab marked_apply_docs)

lemma wp_verifyNamespace_last:
  assumes "\<And>e u. identified (trace u) i \<Longrightarrow> Q (Inl e) u"
    and "\<And>u ob. identified (trace u) i \<Longrightarrow> trace u \<noteq> [] \<Longrightarrow> last (trace u) = EGet Namespaces [] ns (Inr ob) \<Longrightarrow>
       verifyResourceOwnership ob lab ns k = Inr () \<Longrightarrow> Q (Inr ()) u"
    and "identified (trace w) i"
  shows "marked_wp i J (verifyNamespace E ns lab k) Q w"
  unfolding verifyNamespace_def
  by (rule wp_try, rule wp_kget)
     (auto intro!: wp_fail wp_ret wp_if assms identified_snoc split: sum.splits)

lemma marked_gone: "marked_calm i J (poll E n (namespace_gone E ns) ())"
  by (rule marked.calm_poll) (unfold namespace_gone_def, intro marked.calm_prims)

lemma marked_delete:
  assumes "identified (trace u) i" "trace u \<noteq> []"
    "last (trace u) = EGet Namespaces [] (lab_namespace lab) (Inr ob)"
    "verifyResourceOwnership ob lab (lab_namespace lab) i = Inr ()"
  shows "marked_wp i (delete_ok lab i) (delete_namespace E (lab_namespace lab)) (\<lambda>_ w. identified (trace w) i) u"
proof -
  have "marked_calm i (delete_ok lab i) (bindE (poll E n (namespace_gone E ns) ()) (\<lambda>(r, _).
      case r of None \<Rightarrow> retE () | Some e \<Rightarrow> failE (f e)))" for n ns f
    by (intro marked.calm_prims marked_gone)
  note tail = calmD [OF this]
  have "delete_ok lab i (trace u) (EDelete Namespaces [] (lab_namespace lab) res)" for res
    using assms by (auto simp: delete_ok_def)
  then show ?thesis
    unfolding delete_namespace_def
    by (rule_tac wp_bind, rule_tac wp_try, rule_tac wp_kdelete)
       (auto intro!: wp_ret wp_fail wp_if tail identified_snoc assms(1) split: sum.split)
qed

lemma marked_reset:
  "marked_calm (lease_id l) (delete_ok (cf_Lab c) (lease_id l)) (reset_leased E L cwd c l)"
proof -
  have "marked_calm (lease_id l) (delete_ok (cf_Lab c) (lease_id l))
     (bindE (SetEnvironmentState E (lb_cluster L) l ns False False) (\<lambda>_.
      bindE (removeGenerated E p False) (\<lambda>_. removeGenerated E q True)))" for ns p q
    by (intro marked.calm_prims marked.calm_lab)
  note tail = calmD [OF this]
  show ?thesis
    unfolding reset_leased_def Let_def calm_def
    by (intro allI impI wp_try wp_verifyNamespace_last)
       (auto intro!: wp_bind wp_if wp_ret wp_fail tail wp_mono [OF marked_delete] split: sum.split)
qed

text \<open>The lease names the identity of the stored state, and the API was asked for it.\<close>

lemma wp_read: "(\<And>r. Q r w) \<Longrightarrow> wp G (\<lambda>w. (h w, w)) Q w"
  by (simp add: wp_def)

abbreviation free_wp where
  "free_wp \<equiv> wp (\<lambda>_ _. True)"

lemma calm_result: "free_wp m Q w \<Longrightarrow> calm G (\<lambda>_. True) m \<Longrightarrow> wp G m Q w"
  by (auto simp: calm_def wp_def)

lemma wp_access_False:
  assumes "\<And>e u. Q (Inl e) u"
    and "\<And>u. identified (trace u) i \<Longrightarrow> Q (Inr \<lparr>ac_ClusterID = i\<rparr>) u"
  shows "free_wp (kindKubernetesAccess E k i False) Q w"
  unfolding kindKubernetesAccess_def
  by (rule wp_bind wp_wrap wp_run wp_lift wp_read wp_kget wp_if wp_ret wp_fail
      | simp add: assms split: sum.split | intro conjI impI allI
      | rule assms(2), simp add: identified_def, metis)+

lemma free_loadState:
  assumes "\<And>e u. Q (Inl e) u" and "\<And>v u. stored S (files w) v \<Longrightarrow> Q (Inr v) u"
  shows "free_wp (loadState E (sv_codec S) (statePath S)) Q w"
  using wp_loadState [where J = "\<lambda>_ _. True" and E = E and S = S and w = w, of Q] assms
  by (simp, metis old.sum.exhaust)

lemma free_checkDocker:
  assumes "\<And>r u. files u = files w \<Longrightarrow> Q r u"
  shows "free_wp (checkDocker E) Q w"
  unfolding checkDocker_def
  by (rule wp_bind, rule wp_wrap, rule wp_run) (auto intro!: wp_ret assms split: sum.splits)

lemma free_calm: "calm (\<lambda>_ _. True) (\<lambda>_. True) m \<Longrightarrow> (\<And>r u. Q r u) \<Longrightarrow> free_wp m Q w"
  by (rule calm_wp) simp_all

lemma wp_begin_locked:
  "free_wp (begin_locked E S) (\<lambda>r w'. \<forall>l. r = Inr l \<longrightarrow> identified (trace w') (lease_id l) \<and>
     (\<exists>v. stored S (files w) v \<and> st_ClusterID v = lease_id l)) w"
proof -
  have tail: "free_wp (bindE (liftE (kindConfig E)) (\<lambda>(_, configHash).
     bindE (verifyStateAndContainers E v configHash) (\<lambda>_.
     bindE (ensureKind E S) (\<lambda>kindPath.
     bindE (kindKubernetesAccess E kindPath (st_ClusterID v) False) (\<lambda>access.
     retE \<lparr>ls_state = v, ls_access = access\<rparr>))))) (\<lambda>r w'. \<forall>l. r = Inr l \<longrightarrow>
       identified (trace w') (lease_id l) \<and> (\<exists>v. stored S f v \<and> st_ClusterID v = lease_id l)) u"
    if "stored S f v" for v f u
    using that
    by (auto intro!: wp_bind wp_lift wp_access_False wp_ret free_calm [OF free.calm_verify(1)]
        free_calm [OF free.calm_ensureKind] exI [of _ v] split: sum.split)
  show ?thesis
    unfolding begin_locked_def
    by (rule wp_bind, rule wp_lift, simp split: sum.split, intro impI,
        rule wp_bind, rule free_checkDocker, simp split: sum.split, intro impI,
        rule wp_bind, rule wp_wrap, rule free_loadState) (auto simp: tail)
qed

lemma beside_acquireLock: "free_wp (acquireLock E p) (\<lambda>_ w'. beside p (files w) (files w')) w"
proof -
  have opn: "free_wp (fsE E (OpenPath p) (\<lambda>f.
           if fs_get f p = None then Inr ((), fs_put p (RegFile [] mode0600) f)
           else if fs_get f p = Some Dir then Inl (Foreign ''is a directory'' [])
           else Inr ((), f))) Q u"
    if "\<And>r v. beside p (files u) (files v) \<Longrightarrow> Q r v" for Q and u :: world
    using that by (intro wp_fs) (auto simp: beside_def split: if_splits)
  have dir: "free_wp (mkdirAll E (butlast p)) Q u"
    if "\<And>r v. beside p (files u) (files v) \<Longrightarrow> Q r v" for Q and u :: world
    using that by (intro wp_mkdirAll) (simp_all add: beside_mkdirAll)
  have lock: "free_wp (flockE E) Q u" if "\<And>r v. files v = files u \<Longrightarrow> Q r v" for Q and u :: world
    using that by (auto simp: wp_def flockE_def split: option.splits)
  show ?thesis
    unfolding acquireLock_def
    by (rule wp_bind wp_wrap dir opn lock | simp split: sum.split | intro conjI impI allI | metis beside_trans)+
qed

lemma free_onFail:
  assumes "free_wp m Q w" and "\<And>e u. Q (Inl e) u" and "calm (\<lambda>_ _. True) (\<lambda>_. True) c"
  shows "free_wp (onFailE c m) Q w"
  by (rule wp_onFail, rule wp_mono [OF assms(1)])
     (auto intro!: free_calm [OF assms(3)] simp: assms(2) split: sum.splits)

lemma free_unlock: "calm (\<lambda>_ _. True) (\<lambda>_. True) closeLock" "calm (\<lambda>_ _. True) (\<lambda>_. True) lease_Close"
  by (auto simp: calm_def wp_def closeLock_def lease_Close_def)

lemma reading_Close: "calm (\<lambda>_ e. \<not> mutates e) (\<lambda>_. True) lease_Close"
  by (auto simp: calm_def wp_def closeLock_def lease_Close_def)

lemma reading_client: "calm (\<lambda>_ e. \<not> mutates e) (\<lambda>_. True) (lab_client E L)"
  unfolding lab_client_def by (intro reading.calm_prims reading_Begin reading_Close)

lemma wp_Begin_identity:
  "wp (\<lambda>_ e. \<not> mutates e) (lab_client E L) (\<lambda>r w'. \<forall>l. r = Inr l \<longrightarrow> identified (trace w') (lease_id l) \<and>
     (\<exists>v. stored (lb_cluster L) (files w) v \<and> st_ClusterID v = lease_id l)) w"
proof -
  let ?S = "lb_cluster L"
  let ?Q = "\<lambda>r w'. \<forall>l. r = Inr l \<longrightarrow> identified (trace w') (lease_id l) \<and>
     (\<exists>v. stored (lb_cluster L) (files w) v \<and> st_ClusterID v = lease_id l)"
  have "free_wp (begin_locked E ?S) ?Q u" if "beside (lockPath ?S) (files w) (files u)" for u
    using wp_begin_locked [of E ?S u] stored_cong [OF statePath_beside [OF that]] by simp
  then have "free_wp (BeginEnvironmentOperation E ?S) ?Q w"
    unfolding BeginEnvironmentOperation_def
    by (intro wp_bind wp_wrap wp_mono [OF beside_acquireLock])
       (auto split: sum.split intro!: free_onFail free_unlock)
  then have "free_wp (lab_client E L) ?Q w"
    unfolding lab_client_def
    by (intro wp_bind, elim wp_mono)
       (auto split: sum.split intro!: free_onFail free_unlock wp_bind wp_wrap wp_read wp_ret)
  then show ?thesis by (rule calm_result) (rule reading_client)
qed

section \<open>The operations\<close>

lemma quiet_mono: "wp (\<lambda>_ e. \<not> mutates e) m Q w \<Longrightarrow> careful_wp J m Q w"
  by (auto simp: wp_def guar_nth)

text \<open>What happens before the lease is asked for leaves the files as they are.\<close>

lemma files_report: "careful_wp J (report E k s) (\<lambda>_ u. files u = files w) w"
  by (rule wp_report) auto

lemma files_loadCurrentConfig: "careful_wp J (loadCurrentConfig E L cwd)
    (\<lambda>r u. files u = files w \<and> (\<forall>c. r = Inr c \<longrightarrow> cf_Lab c \<in> {1..5})) w"
  unfolding loadCurrentConfig_def
  by (rule wp_if, rule wp_fail, simp, rule wp_try, rule wp_readFile)
     (auto intro!: wp_bind wp_lift wp_if wp_fail wp_ret split: sum.splits)

lemma files_ensureEnv: "careful_wp J (ensureEnvWritable E p) (\<lambda>_ u. files u = files w) w"
  unfolding ensureEnvWritable_def openFile_def
  by (rule wp_rules wp_fs | simp split: sum.split option.split | intro conjI impI allI)+

lemma marked_operation:
  assumes "\<And>l. marked_calm (lease_id l) (J (lease_id l)) (body l)"
  shows "careful_wp (\<lambda>tr e. \<exists>v. stored (lb_cluster L) (files w) v \<and> identified tr (st_ClusterID v) \<and>
      J (st_ClusterID v) tr e) (with_client E L body) (\<lambda>_ _. True) w"
    (is "careful_wp ?J _ _ _")
proof -
  have close: "careful_wp ?J lease_Close (\<lambda>_ _. True) u" for u
    by (rule quiet_mono, rule calm_wp [OF reading_Close]) simp_all
  have body: "careful_wp ?J (body l) (\<lambda>_ _. True) u"
    if "identified (trace u) (lease_id l)" "stored (lb_cluster L) (files w) v" "st_ClusterID v = lease_id l" for l u v
    using calmD [OF assms, of u l] that by (fastforce simp: wp_def guar_nth)
  have "careful_wp ?J (deferE lease_Close (body l)) (\<lambda>_ _. True) u"
    if "identified (trace u) (lease_id l)" "\<exists>v. stored (lb_cluster L) (files w) v \<and> st_ClusterID v = lease_id l" for l u
    using that body by (blast intro: wp_defer wp_mono close)
  then show ?thesis
    unfolding with_client_def
    by (rule_tac wp_bind, rule_tac wp_mono [OF quiet_mono [OF wp_Begin_identity]]) (auto split: sum.split)
qed

lemma wp_allow: "wp G m Q w \<Longrightarrow> (\<And>tr e. G tr e \<Longrightarrow> G' tr e) \<Longrightarrow> wp G' m Q w"
  by (auto simp: wp_def guar_nth)

abbreviation in_lab :: "lab_service \<Rightarrow> files \<Rightarrow> (int \<Rightarrow> string \<Rightarrow> history \<Rightarrow> event \<Rightarrow> bool) \<Rightarrow> history \<Rightarrow> event \<Rightarrow> bool" where
  "in_lab L f J tr e \<equiv> (\<exists>lab \<in> {1..5}. \<exists>v. stored (lb_cluster L) f v \<and>
      identified tr (st_ClusterID v) \<and> J lab (st_ClusterID v) tr e)"

lemma in_lab_client:
  assumes "\<And>l. marked_calm (lease_id l) (J lab (lease_id l)) (body l)" and "files u = f" and "lab \<in> {1..5}"
  shows "careful_wp (in_lab L f J) (with_client E L body) (\<lambda>_ _. True) u"
proof -
  have "careful_wp (\<lambda>tr e. \<exists>v. stored (lb_cluster L) f v \<and> identified tr (st_ClusterID v) \<and>
      J lab (st_ClusterID v) tr e) (with_client E L body) (\<lambda>_ _. True) u"
    using marked_operation [of "J lab" body L u E] assms by simp
  then show ?thesis by (rule wp_allow) (use assms(3) in blast)
qed

lemma in_lab_config:
  assumes "\<And>c u. files u = f \<Longrightarrow> cf_Lab c \<in> {1..5} \<Longrightarrow> careful_wp G (h c) (\<lambda>_ _. True) u" and "files u = f"
  shows "careful_wp G (bindE (loadCurrentConfig E L cwd) h) (\<lambda>_ _. True) u"
  by (rule wp_bind, rule wp_mono [OF files_loadCurrentConfig]) (use assms in \<open>auto split: sum.splits\<close>)

lemma in_lab_step:
  assumes "careful_wp G m (\<lambda>_ u'. files u' = files u) u" and "files u = f"
    and "\<And>x u. files u = f \<Longrightarrow> careful_wp G (h x) (\<lambda>_ _. True) u"
  shows "careful_wp G (bindE m h) (\<lambda>_ _. True) u"
  by (rule wp_bind, rule wp_mono [OF assms(1)]) (use assms(2,3) in \<open>auto split: sum.splits\<close>)

lemma careful_lab:
  "careful_wp (in_lab L (files w) (start_ok E L)) (lab_Start E L cwd v) (\<lambda>_ _. True) w"
  "careful_wp (in_lab L (files w) (patch_ok is_workload_object)) (lab_Stop E L cwd v) (\<lambda>_ _. True) w"
  "careful_wp (in_lab L (files w) delete_ok) (lab_Reset E L cwd) (\<lambda>_ _. True) w"
  unfolding lab_Start_def lab_Stop_def lab_Reset_def
  by (assumption | rule in_lab_client [where J = "start_ok E L", OF marked_start]
      in_lab_client [where J = "patch_ok is_workload_object", OF marked_stop]
      in_lab_client [where J = delete_ok, OF marked_reset]
      in_lab_config in_lab_step files_report files_ensureEnv refl)+

text \<open>
  C4: every call of \<open>Start\<close>, \<open>Stop\<close> and \<open>Reset\<close> that changes anything outside the process is made for a
  lab between 1 and 5, after the identity of the stored cluster state was read back from the
  Kubernetes API, and: \<open>Start\<close> patches an object only immediately after a look at it that found it
  absent or owned by this lab, environment and cluster, or builds and pushes the Push Service
  image; \<open>Stop\<close> only patches Deployments and StatefulSets, each immediately after such a look, and
  deletes nothing; \<open>Reset\<close> only deletes the namespace of the lab, immediately after a look that
  found it owned. This holds for every answer and failure of the outside.
\<close>
theorem lab_changes_guarded:
  assumes "(op, J) \<in> {(ignoreE (lab_Start E L cwd v), start_ok E L),
      (ignoreE (lab_Stop E L cwd v), patch_ok is_workload_object), (ignoreE (lab_Reset E L cwd), delete_ok)}"
    and "op w = (r, w')"
  shows "\<exists>es. trace w' = trace w @ es \<and> (\<forall>i < length es. mutates (es ! i) \<longrightarrow>
     (\<exists>lab \<in> {1..5}. \<exists>v. stored (lb_cluster L) (files w) v \<and>
        identified (trace w @ take i es) (st_ClusterID v) \<and>
        J lab (st_ClusterID v) (trace w @ take i es) (es ! i)))"
proof -
  have "careful_wp (in_lab L (files w) J) op (\<lambda>_ _. True) w"
    using assms(1) by (auto intro: wp_ignore careful_lab)
  from wp_trace [OF this assms(2)] show ?thesis by auto
qed

text \<open>A cluster whose objects are all owned; a namespace that is deleted is gone.\<close>

definition owned_obj :: kobj where
  "owned_obj = empty_obj\<lparr>GetLabels := [(''app.kubernetes.io/managed-by'', ''tripgoctl''),
       (''app.kubernetes.io/part-of'', ''tripgo-local''), (''tripgo.course/lab'', ''02''),
       (''tripgo.course/environment'', ''tripgo-lab-02'')],
     GetAnnotations := [(''tripgo.course/cluster-id'', ''id'')], data_cluster_id := ''id''\<rparr>"

definition lab_outside :: outside where
  "lab_outside = owned\<lparr>env_get := (\<lambda>tr g ns n.
     if g = Namespaces \<and> EDelete Namespaces [] ''tripgo-lab-02'' None \<in> set tr
     then Inl (ApiError NotFound ''gone'') else Inr owned_obj)\<rparr>"

definition sample_lab :: lab_service where
  "sample_lab = \<lparr>lb_cluster = sample_service\<lparr>sv_codec := \<lparr>encode_state = (\<lambda>_. ''{}''),
       decode_state = (\<lambda>_. Inr (sample_state\<lparr>st_KindConfigHash := env_sha256 owned []\<rparr>))\<rparr>\<rparr>,
     lb_decode = (\<lambda>_. Inr sample_document), lb_templates = naming_templates, lb_artifact = sample_artifact,
     lb_docs = (\<lambda>_. []), lb_pod = (\<lambda>_. Inl ErrNotExist), lb_event = (\<lambda>_. Inl ErrNotExist)\<rparr>"

definition lab_world :: world where
  "lab_world = owned_world\<lparr>files := ([''wd''], Dir) # ([''wd'', ''environment.toml''], RegFile [] mode0600) #
     files owned_world\<rparr>"

lemma lab_world_config:
  "loadCurrentConfig lab_outside sample_lab [''wd''] lab_world =
     (Inr \<lparr>cf_SchemaVersion = 1, cf_Lab = 2, cf_Components = [''postgres'', ''observability''],
           cf_CustomEnv = [\<lparr>ev_Name = ''ALPHA'', ev_Value = ''two words''\<rparr>,
                           \<lparr>ev_Name = ''ZETA'', ev_Value = ''1''\<rparr>]\<rparr>,
      log (EFs (ReadFile [''wd'', ''environment.toml'']) None) lab_world)"
  by (simp add: loadCurrentConfig_def ParseFile_def sample_lab_def sample_parse io_defs fs_get_def lab_world_def
      lab_outside_def owned_def quiet_def)

lemma kindConfig_total: "\<exists>m. kindConfig E = Inr (m, env_sha256 E m)"
  by (simp add: kindConfig_def Ports_eq Let_def)

lemma pad02_2: "pad02 2 = ''02''"
  by (simp add: pad02_def Itoa_def nat_digits_small char_of_def bit_0)

lemma lab_namespace_2: "lab_namespace 2 = ''tripgo-lab-02''"
proof -
  obtain e where "environment_entry 2 = Some e" "en_Namespace e = ''tripgo-lab-'' @ pad02 2"
    by (rule environment_entry_Some [of 2]) simp_all
  then show ?thesis by (simp add: lab_namespace_def pad02_2)
qed

lemma reading_filter:
  assumes "calm (\<lambda>_ e. \<not> mutates e) (\<lambda>_. True) m"
  shows "filter mutates (trace (snd (m w))) = filter mutates (trace w)"
  using wp_trace [OF calmD [OF assms] prod.collapse [symmetric], of w]
  by (auto simp: filter_empty_conv in_set_conv_nth)

lemma lab_outside_sel:
  "env_run lab_outside tr n args = (if args = [''get'', ''clusters''] then Inr cluster_Name
       else if take 2 args = [''ps'', ''-a''] then Inr RegistryContainer
       else if args = marker_args then Inr ''id''
       else if take 1 args = [''inspect''] then Inr ''tripgoctl|id''
       else Inr [])"
  "env_get lab_outside tr g ns n = (if g = Namespaces \<and> EDelete Namespaces [] ''tripgo-lab-02'' None \<in> set tr
     then Inl (ApiError NotFound ''gone'') else Inr owned_obj)"
  "env_delete lab_outside tr g ns n = None" "env_fault lab_outside tr op = None"
  "env_flock lab_outside tr = None" "env_ctx lab_outside tr = None" "env_restconfig lab_outside s = None"
  "env_client lab_outside tr = None" "env_reporter lab_outside = False"
  "env_sha256 lab_outside s = env_sha256 owned []"
  by (simp_all add: lab_outside_def owned_def quiet_def)

lemma owned_sha: "env_sha256 owned [] = ''a6875aaea358acf0ac07786b1a6755d08fd640f4c79b7a2e46681cc13f49a04b''"
  by (simp add: owned_def)

lemma sample_lab_sel:
  "sv_codec (lb_cluster sample_lab) = \<lparr>encode_state = (\<lambda>_. ''{}''),
       decode_state = (\<lambda>_. Inr (sample_state\<lparr>st_KindConfigHash := env_sha256 owned []\<rparr>))\<rparr>"
  "sv_configDir (lb_cluster sample_lab) = [''cfg'']" "sv_cacheDir (lb_cluster sample_lab) = [''cache'']"
  "sv_goos (lb_cluster sample_lab) = ''linux''" "sv_goarch (lb_cluster sample_lab) = ''amd64''"
  by (simp_all add: sample_lab_def sample_service_def)

lemma owned_obj_sel: "data_cluster_id owned_obj = ''id''" "verifyResourceOwnership owned_obj 2 ''tripgo-lab-02'' ''id'' = Inr ()"
  by (simp_all add: owned_obj_def verifyResourceOwnership_def lookup_str_def pad02_2)

lemma owned_lease:
  "\<exists>l. fst (lab_client lab_outside sample_lab (log e lab_world)) = Inr l \<and> lease_id l = ''id''"
proof -
  obtain m where config: "kindConfig lab_outside = Inr (m, env_sha256 owned [])"
    using kindConfig_total [of lab_outside] by (auto simp: lab_outside_sel)
  show ?thesis
    by (simp add: lab_client_def BeginEnvironmentOperation_def acquireLock_def flockE_def closeLock_def
      begin_locked_def verifyStateAndContainers_def kindKubernetesAccess_def running_args_def
      io_defs fs_defs lab_outside_sel sample_lab_sel lab_world_def owned_world_def config
      lockPath_def statePath_def checkPlatform_def checkDocker_def loadState_def decode_checked_def
      ensureKind_def EnsureKind_def validFileSHA256_def kind_path_def kindChecksums_def owned_sha
      verifyMarker_def owned_obj_sel verifyRegistryOwnership_def sample_state_def stateSchemaVersion_def
      upt_rec marker_args_def path_text_def KindVersion_def KubernetesVersion_def)
qed

lemma owned_poll:
  assumes "EDelete Namespaces [] ''tripgo-lab-02'' None \<in> set (trace w)"
  shows "poll lab_outside namespace_rounds (namespace_gone lab_outside ''tripgo-lab-02'') () w =
     (Inr (None, ()), log (EGet Namespaces [] ''tripgo-lab-02'' (Inl (ApiError NotFound ''gone''))) w)"
proof -
  have rounds: "namespace_rounds = Suc 1200" by (simp add: namespace_rounds_def)
  show ?thesis
    unfolding rounds poll.simps namespace_gone_def
    using assms by (simp add: io_defs lab_outside_sel getErrIfUnexpected_def IsNotFound_def)
qed

lemma owned_reset_leased:
  assumes "cf_Lab c = 2" "lease_id l = ''id''" "filter mutates (trace u) = []"
  shows "filter mutates (trace (snd (reset_leased lab_outside L cwd c l u))) = [EDelete Namespaces [] ''tripgo-lab-02'' None]"
proof -
  have "calm (\<lambda>_ e. \<not> mutates e) (\<lambda>_. True)
     (bindE (SetEnvironmentState lab_outside (lb_cluster L) l ''tripgo-lab-02'' False False) (\<lambda>_.
      bindE (removeGenerated lab_outside p False) (\<lambda>_. removeGenerated lab_outside q True)))" for p q
    by (intro reading.calm_prims reading.calm_lab)
  note tail = reading_filter [OF this]
  have fresh: "EDelete Namespaces [] ''tripgo-lab-02'' None \<notin> set (trace u)"
    using assms(3) by (auto simp: filter_empty_conv)
  have ns: "verifyNamespace lab_outside ''tripgo-lab-02'' 2 ''id'' u =
     (Inr (), log (EGet Namespaces [] ''tripgo-lab-02'' (Inr owned_obj)) u)"
    using fresh by (simp add: verifyNamespace_def io_defs lab_outside_sel owned_obj_sel)
  obtain v where v: "delete_namespace lab_outside ''tripgo-lab-02'' (log (EGet Namespaces [] ''tripgo-lab-02'' (Inr owned_obj)) u) =
     (Inr (), v)" "filter mutates (trace v) = [EDelete Namespaces [] ''tripgo-lab-02'' None]"
    using assms(3) owned_poll by (simp add: delete_namespace_def io_defs lab_outside_sel)
  have "bindE (delete_namespace lab_outside ''tripgo-lab-02'') f
      (log (EGet Namespaces [] ''tripgo-lab-02'' (Inr owned_obj)) u) = f () v" for f :: "unit \<Rightarrow> unit io"
    using v(1) by (simp add: bindE_def tryE_def)
  then show ?thesis
    using assms(1,2) ns v tail by (simp add: reset_leased_def Let_def lab_namespace_2 tryE_def)
qed

theorem lab_changes_guarded_witness:
  "\<exists>es. trace (snd (ignoreE (lab_Reset lab_outside sample_lab [''wd'']) lab_world)) = es \<and>
     length (filter mutates es) = 1 \<and> (\<forall>i < length es. mutates (es ! i) \<longrightarrow>
       (\<exists>lab \<in> {1..5}. \<exists>v. stored (lb_cluster sample_lab) (files lab_world) v \<and>
          identified (take i es) (st_ClusterID v) \<and> delete_ok lab (st_ClusterID v) (take i es) (es ! i)))"
proof -
  let ?u = "log (EFs (ReadFile [''wd'', ''environment.toml'']) None) lab_world"
  obtain l where l: "fst (lab_client lab_outside sample_lab ?u) = Inr l" "lease_id l = ''id''"
    using owned_lease by blast
  obtain u where u: "lab_client lab_outside sample_lab ?u = (Inr l, u)"
    using l by (metis prod.collapse)
  have client: "calm (\<lambda>_ e. \<not> mutates e) (\<lambda>_. True) (lab_client lab_outside sample_lab)"
    by (rule reading_client)
  have "filter mutates (trace u) = []"
    using reading_filter [OF client, of ?u] by (simp add: u) (simp add: lab_world_def owned_world_def)
  from owned_reset_leased [OF _ l(2) this]
  have "filter mutates (trace (snd (ignoreE (lab_Reset lab_outside sample_lab [''wd'']) lab_world))) =
     [EDelete Namespaces [] ''tripgo-lab-02'' None]"
    using reading_filter [OF reading_Close]
    by (simp add: lab_Reset_def ignoreE_def bindE_def tryE_def lab_world_config with_client_def u deferE_def retE_def
        case_prod_unfold)
  then show ?thesis
    using lab_changes_guarded [of "ignoreE (lab_Reset lab_outside sample_lab [''wd''])" delete_ok lab_outside sample_lab
        "[''wd'']" "[]" lab_world, OF _ prod.collapse [symmetric]]
    by (simp add: lab_world_def owned_world_def)
qed

theorem lab_operations_bracketed_witness:
  "\<not> held (snd (ignoreE (lab_List lab_outside sample_lab) lab_world))"
  using lab_operations_bracketed [of "ignoreE (lab_List lab_outside sample_lab)" lab_outside sample_lab "[]" "[]"
      lab_world, OF _ _ prod.collapse [symmetric]]
  by (simp add: lock_ok_def lock_held_def lab_world_def owned_world_def)

section \<open>Status and listing\<close>

text \<open>
  \<open>Status\<close> and \<open>List\<close> of environments change nothing outside the process: every Docker, kind and
  Kubernetes call they make, whatever the answers, is a query.
\<close>
theorem lab_status_reads_only:
  assumes "op \<in> {ignoreE (lab_Status E L cwd), ignoreE (lab_List E L)}" and "op w = (r, w')"
  shows "\<exists>es. trace w' = trace w @ es \<and> (\<forall>e \<in> set es. \<not> mutates e)"
proof -
  have "calm (\<lambda>_ e. \<not> mutates e) (\<lambda>_. True) op"
    using assms(1) unfolding lab_Status_def lab_List_def with_client_def
    by (auto intro!: reading.calm_prims reading.calm_lab reading_client reading_Close)
  from wp_trace [OF calmD [OF this] assms(2)] show ?thesis
    by (auto simp: in_set_conv_nth)
qed

theorem lab_status_reads_only_witness:
  "list_all (\<lambda>e. \<not> mutates e) (trace (snd (ignoreE (lab_Status lab_outside sample_lab [''wd'']) lab_world)))"
  using lab_status_reads_only [of "ignoreE (lab_Status lab_outside sample_lab [''wd''])" lab_outside sample_lab
      "[''wd'']" lab_world, OF _ prod.collapse [symmetric]]
  by (auto simp: lab_world_def owned_world_def list_all_iff)

end
