(* ===== verification/Lab_Readiness.thy ===== *)
theory Lab_Readiness
  imports Lab_Safety
begin

text \<open>
  Waiting for workloads and classifying an environment: success of \<open>waitForWorkloads\<close> rests on a
  last round of reads that found every workload ready; if the API reports readiness from some
  second within the limit on, waiting succeeds; and \<open>statusWith\<close> classifies an environment by
  exactly the owned objects it read last.
\<close>

section \<open>Reads of the API\<close>

definition is_get :: "event \<Rightarrow> bool" where
  "is_get e = (case e of EGet _ _ _ _ \<Rightarrow> True | _ \<Rightarrow> False)"

definition gets :: "history \<Rightarrow> event list" where
  "gets tr = filter is_get tr"

definition ticks :: "history \<Rightarrow> nat" where
  "ticks tr = length (filter (\<lambda>e. e = ETick) tr)"

definition get_event :: "string \<Rightarrow> workload \<Rightarrow> gerr + kobj \<Rightarrow> event" where
  "get_event ns item r = EGet (wl_resource item) ns (wl_name item) r"

lemma gets_simps [simp]:
  "gets [] = []" "gets (tr @ tr') = gets tr @ gets tr'"
  "gets (EGet g ns n r # tr) = EGet g ns n r # gets tr" "gets (EList g ns s l # tr) = gets tr"
  "gets (EReport k m # tr) = gets tr" "gets (ETick # tr) = gets tr"
  by (simp_all add: gets_def is_get_def)

lemma ticks_simps [simp]:
  "ticks [] = 0" "ticks (tr @ tr') = ticks tr + ticks tr'"
  "ticks (EGet g ns n r # tr) = ticks tr" "ticks (EList g ns s l # tr) = ticks tr"
  "ticks (EReport k m # tr) = ticks tr" "ticks (ETick # tr) = Suc (ticks tr)"
  by (simp_all add: ticks_def)

definition item_ready :: "int \<Rightarrow> gerr + kobj \<Rightarrow> bool" where
  "item_ready n r = (case r of Inl _ \<Rightarrow> False | Inr ob \<Rightarrow> workloadReady ob n)"

section \<open>A round\<close>

definition round_ok ::
    "outside \<Rightarrow> string \<Rightarrow> int \<Rightarrow> workload list \<Rightarrow> nat \<Rightarrow> history \<Rightarrow> world \<Rightarrow> gerr + string list \<times> string list \<Rightarrow> bool" where
  "round_ok E ns n items k tr w' res \<longleftrightarrow> ticks (trace w') = ticks tr \<and>
     (case res of
        Inl e \<Rightarrow> \<exists>h. env_ctx E h = Some e
      | Inr (ready, sts) \<Rightarrow> \<exists>rs. length rs = length items \<and>
          gets (trace w') = gets tr @ map2 (get_event ns) items rs \<and>
          length ready = k + length (filter (item_ready n) rs) \<and>
          (\<forall>(item, r) \<in> set (zip items rs). \<exists>h. ticks h = ticks tr \<and>
              r = env_get E h (wl_resource item) ns (wl_name item)))"

lemma round_ok_Cons:
  assumes "round_ok E ns n items (k + (if item_ready n got then 1 else 0))
      (tr @ [EGet (wl_resource item) ns (wl_name item) got]) w' res"
    and "got = env_get E tr (wl_resource item) ns (wl_name item)"
  shows "round_ok E ns n (item # items) k tr w' res"
proof (cases res)
  case (Inr p)
  obtain ready sts where p: "p = (ready, sts)" by (cases p)
  from assms(1) have "ticks (trace w') = ticks tr \<and> (\<exists>rs. length rs = length items \<and>
      gets (trace w') = (gets tr @ [get_event ns item got]) @ map2 (get_event ns) items rs \<and>
      length ready = k + (if item_ready n got then 1 else 0) + length (filter (item_ready n) rs) \<and>
      (\<forall>(item, r) \<in> set (zip items rs). \<exists>h. ticks h = ticks tr \<and> r = env_get E h (wl_resource item) ns (wl_name item)))"
    by (simp only: round_ok_def Inr p sum.case prod.case ticks_simps gets_simps get_event_def add_0_right)
  then obtain rs where rs: "length rs = length items"
    "gets (trace w') = (gets tr @ [get_event ns item got]) @ map2 (get_event ns) items rs"
    "length ready = k + (if item_ready n got then 1 else 0) + length (filter (item_ready n) rs)"
    "\<forall>(item, r) \<in> set (zip items rs). \<exists>h. ticks h = ticks tr \<and> r = env_get E h (wl_resource item) ns (wl_name item)"
    "ticks (trace w') = ticks tr"
    by blast
  then show ?thesis
    using assms(2) Inr p by (auto simp: round_ok_def intro!: exI [of _ "got # rs"])
qed (use assms in \<open>simp add: round_ok_def\<close>)

lemma opt_result_Inl: "opt_result x = Inl e \<Longrightarrow> x = Some e"
  by (auto simp: opt_result_def split: option.splits)

lemma wp_wait_items:
  "free_wp (wait_items E ns n items seen ready sts)
     (\<lambda>r w'. \<exists>res seen'. r = Inr (res, seen') \<and> round_ok E ns n items (length ready) (trace w) w' res) w"
proof (induction items arbitrary: seen ready sts w)
  case Nil
  show ?case by (simp add: wp_ret round_ok_def)
next
  case (Cons item items)
  define Q where "Q = (\<lambda>(r :: gerr + (gerr + string list \<times> string list) \<times> (string \<times> string) list) w'.
     \<exists>res seen'. r = Inr (res, seen') \<and> round_ok E ns n (item # items) (length ready) (trace w) w' res)"
  have ctx: "free_wp (retE (Inl e, seen)) Q u"
    if "opt_result (env_ctx E h) = Inl e" "ticks (trace u) = ticks (trace w)" for e h u
    using that opt_result_Inl [OF that(1)] by (auto simp: Q_def round_ok_def intro!: wp_ret)
  have rest: "free_wp (wait_items E ns n items seen' ready' sts') Q
      (log (EGet (wl_resource item) ns (wl_name item) got) w)"
    if "length ready' = length ready + (if item_ready n got then 1 else 0)"
      "got = env_get E (trace w) (wl_resource item) ns (wl_name item)" for seen' ready' sts' got
    unfolding Q_def using that
    by (intro wp_mono [OF Cons.IH]) (auto intro!: round_ok_Cons [OF _ that(2)])
  have after: "free_wp (case got of
       Inl e \<Rightarrow> wait_items E ns n items (f e) ready (g e)
     | Inr object \<Rightarrow> if \<not> workloadReady object n then wait_items E ns n items (f' object) ready (g' object)
         else wait_items E ns n items f'' (ready @ [x]) (g' object)) Q
      (log (EGet (wl_resource item) ns (wl_name item) got) w)"
    if "got = env_get E (trace w) (wl_resource item) ns (wl_name item)" for got f g f' g' f'' x
    using rest [OF _ that] by (cases got) (simp_all add: item_ready_def)
  have "free_wp (wait_items E ns n (item # items) seen ready sts) Q w"
    by (simp only: wait_items.simps)
       (rule wp_try wp_ctxErr wp_case_sum wp_kget after ctx conjI TrueI | assumption | erule trans [OF sym] | simp)+
  then show ?case by (simp only: Q_def)
qed

lemma wp_details:
  "free_wp (workloadStartupDetails E L ns) (\<lambda>r w'. (\<exists>x. r = Inr x) \<and> gets (trace w') = gets (trace w) \<and>
     ticks (trace w') = ticks (trace w)) w"
  unfolding workloadStartupDetails_def Let_def
  by (rule wp_try wp_klist wp_case_sum wp_ret conjI TrueI | simp)+

text \<open>What a round returns: the end of the context, or whether the reads of the round were all of ready workloads.\<close>

definition round_post ::
    "outside \<Rightarrow> string \<Rightarrow> int \<Rightarrow> workload list \<Rightarrow> history \<Rightarrow> gerr + (gerr + bool) \<times> wait_state \<Rightarrow> world \<Rightarrow> bool" where
  "round_post E ns n items tr r w' \<longleftrightarrow> (\<exists>res s. r = Inr (res, s) \<and> ticks (trace w') = ticks tr \<and>
     (case res of
        Inl e \<Rightarrow> \<exists>h. env_ctx E h = Some e
      | Inr done \<Rightarrow> \<exists>rs. length rs = length items \<and>
          gets (trace w') = gets tr @ map2 (get_event ns) items rs \<and>
          done = list_all (item_ready n) rs \<and>
          (\<forall>(item, r) \<in> set (zip items rs). \<exists>h. ticks h = ticks tr \<and>
              r = env_get E h (wl_resource item) ns (wl_name item))))"

lemma all_ready_count: "(length (filter P rs) = length rs) = list_all P rs"
proof (induction rs)
  case (Cons x rs)
  then show ?case using length_filter_le [of P rs] by (auto simp: Suc_le_eq simp del: length_filter_le)
qed simp

lemma round_post_error:
  "env_ctx E h = Some e \<Longrightarrow> ticks (trace u) = ticks tr \<Longrightarrow> round_post E ns n items tr (Inr (Inl e, s')) u"
  by (auto simp: round_post_def)

lemma round_post_result:
  assumes "round_ok E ns n items 0 tr u (Inr (ready, sts))" "gets (trace v) = gets (trace u)" "ticks (trace v) = ticks (trace u)"
  shows "round_post E ns n items tr (Inr (Inr (length ready = length items), s')) v"
  using assms by (auto simp: round_post_def round_ok_def all_ready_count [symmetric])

lemma wp_round_report:
  assumes "round_ok E ns n items 0 tr v (Inr (ready, sts))" "gets (trace u) = gets (trace v)" "ticks (trace u) = ticks (trace v)"
  shows "free_wp (\<lambda>w. bindE (report E k (m w)) (\<lambda>_. (\<lambda>w. retE (Inr (length ready = length items), f w) w)) w)
      (round_post E ns n items tr) u"
  using round_post_result [OF assms(1)] assms by (auto simp: wp_def report_def bindE_def tryE_def retE_def)

lemma wp_round_due:
  assumes ok: "round_ok E ns n items 0 tr u (Inr (ready, sts))"
  shows "free_wp (bindE (if b then workloadStartupDetails E L ns else retE ([], None)) (\<lambda>(details, detailErr).
        tryE (ctxErr E) (\<lambda>c. case c of
            Inl e \<Rightarrow> retE (Inl e, s')
          | Inr _ \<Rightarrow> (\<lambda>w. bindE (report E k (m details detailErr w))
              (\<lambda>_. (\<lambda>w. retE (Inr (length ready = length items), f w) w)) w)))) (round_post E ns n items tr) u"
proof -
  have tick: "ticks (trace u) = ticks tr" using ok by (simp add: round_ok_def)
  have tail: "free_wp (tryE (ctxErr E) (\<lambda>c. case c of
          Inl e \<Rightarrow> retE (Inl e, s')
        | Inr _ \<Rightarrow> (\<lambda>w. bindE (report E k (m d de w))
            (\<lambda>_. (\<lambda>w. retE (Inr (length ready = length items), f w) w)) w))) (round_post E ns n items tr) v"
    if v: "gets (trace v) = gets (trace u)" "ticks (trace v) = ticks (trace u)" for d de v
  proof (rule wp_try, rule wp_ctxErr, rule wp_case_sum, goal_cases)
    case (1 r e)
    then have "env_ctx E (trace v) = Some e" by (auto intro: opt_result_Inl)
    then show ?case using v tick by (auto intro!: wp_ret round_post_error)
  qed (rule wp_round_report [OF ok] v)+
  show ?thesis
    by (rule wp_bind, rule wp_if, rule wp_mono [OF wp_details], auto intro!: tail wp_ret)
qed

lemma wp_wait_round: "free_wp (wait_round E L ns items n t s) (round_post E ns n items (trace w)) w"
  unfolding wait_round_def Let_def
proof (rule wp_bind, rule wp_mono [OF wp_wait_items], clarsimp, goal_cases)
  case (1 u res seen)
  show ?case
  proof (cases res)
    case (Inl e)
    with 1 show ?thesis by (auto simp: round_ok_def intro!: wp_ret round_post_error)
  next
    case (Inr p)
    obtain ready sts where p: "p = (ready, sts)" by (cases p)
    note ok = 1 [unfolded Inr p]
    have split: "free_wp (\<lambda>w. (if g w then a w else retE (Inr (length ready = length items), s') ) w) Q u"
      if "free_wp (a u) Q u" "Q (Inr (Inr (length ready = length items), s')) u" for g a Q s'
      using that by (simp add: wp_def retE_def)
    show ?thesis
      unfolding Inr p sum.case prod.case by (rule split, rule wp_round_due [OF ok], rule round_post_result [OF ok]) simp_all
  qed
qed

section \<open>Polling\<close>

text \<open>
  The contract of a polled condition: it keeps the number of intervals, where it says that it is
  done the world is \<open>finished\<close>, the errors it returns are \<open>broken\<close>, and once the outside is \<open>stable\<close>
  it does not say \<open>not yet\<close>. What polling makes of such a condition is proved once.
\<close>

locale polled =
  fixes E :: outside and condition :: "'s \<Rightarrow> ((gerr + bool) \<times> 's) io"
    and finished :: "world \<Rightarrow> bool" and broken :: "gerr \<Rightarrow> bool" and stable :: "nat \<Rightarrow> bool"
  assumes round: "free_wp (condition s) (\<lambda>r w'. \<exists>res s'. r = Inr (res, s') \<and> ticks (trace w') = ticks (trace w) \<and>
      (case res of Inl e \<Rightarrow> broken e
       | Inr done \<Rightarrow> (done \<longrightarrow> finished w') \<and> (stable (ticks (trace w)) \<longrightarrow> done))) w"
begin

definition poll_post :: "nat \<Rightarrow> nat \<Rightarrow> gerr + gerr option \<times> 's \<Rightarrow> world \<Rightarrow> bool" where
  "poll_post m t r w' \<longleftrightarrow> (\<exists>res s'. r = Inr (res, s') \<and> ticks (trace w') \<le> t + m \<and>
     (case res of
        None \<Rightarrow> finished w'
      | Some e \<Rightarrow> broken e \<or> (\<exists>h. env_ctx E h = Some e) \<or>
          e = ContextDeadlineExceeded \<and> (0 < m \<longrightarrow> \<not> stable (t + m - 1))))"

lemma poll_later: "poll_post m (Suc t) r w' \<Longrightarrow> \<not> stable t \<Longrightarrow> poll_post (Suc m) t r w'"
  by (cases m) (auto simp: poll_post_def split: option.splits)

lemma outcome: "free_wp (poll E m condition s) (poll_post m (ticks (trace w))) w"
proof (induction m arbitrary: s w)
  case 0
  show ?case by (simp add: wp_ret poll_post_def)
next
  case (Suc m)
  have tail: "free_wp (bindE tickE (\<lambda>_. tryE (ctxErr E) (\<lambda>c. case c of
                Inl e \<Rightarrow> retE (Some e, s')
              | Inr _ \<Rightarrow> poll E m condition s'))) (poll_post (Suc m) (ticks (trace w))) u"
    if u: "ticks (trace u) = ticks (trace w)" "\<not> stable (ticks (trace w))" for u s'
  proof -
    have tick: "free_wp tickE Q v" if "Q (Inr ()) (log ETick v)" for Q v
      using that by (simp add: wp_def tickE_def)
    have ctx: "free_wp (retE (Some e, s')) (poll_post (Suc m) (ticks (trace w))) v"
      if "opt_result (env_ctx E h) = Inl e" "ticks (trace v) = Suc (ticks (trace w))" for e h v
      using that(2) opt_result_Inl [OF that(1)] by (auto simp: poll_post_def intro!: wp_ret)
    have rest: "free_wp (poll E m condition s') (poll_post (Suc m) (ticks (trace w))) (log ETick u)"
      using poll_later [OF _ u(2)] u(1) by (intro wp_mono [OF Suc.IH]) simp
    show ?thesis
      by (rule wp_bind tick wp_try wp_ctxErr wp_case_sum ctx rest | simp add: u | erule sym)+
  qed
  have ended: "poll_post (Suc m) (ticks (trace w)) (Inr (Some e, s')) u"
    if "ticks (trace u) = ticks (trace w)" "broken e" for e s' u
    using that by (auto simp: poll_post_def)
  have stopped: "finished u \<Longrightarrow> ticks (trace u) = ticks (trace w) \<Longrightarrow>
      poll_post (Suc m) (ticks (trace w)) (Inr (None, s')) u" for s' u
    by (auto simp: poll_post_def)
  show ?case
    by (simp only: poll.simps, rule wp_bind, rule wp_mono [OF round])
       (auto intro!: wp_ret wp_if tail ended stopped split: sum.split)
qed

end

definition workloads_stable :: "outside \<Rightarrow> string \<Rightarrow> workload list \<Rightarrow> int \<Rightarrow> nat \<Rightarrow> bool" where
  "workloads_stable E ns items n k \<longleftrightarrow> (\<forall>h item. item \<in> set items \<longrightarrow> k \<le> ticks h \<longrightarrow>
     item_ready n (env_get E h (wl_resource item) ns (wl_name item)))"

definition workloads_seen :: "string \<Rightarrow> workload list \<Rightarrow> int \<Rightarrow> history \<Rightarrow> bool" where
  "workloads_seen ns items n tr \<longleftrightarrow> (\<exists>pre obs. length obs = length items \<and>
     gets tr = pre @ map2 (\<lambda>item ob. get_event ns item (Inr ob)) items obs \<and>
     list_all (\<lambda>ob. workloadReady ob n) obs)"

lemma all_ready_objects:
  "list_all (item_ready n) rs \<Longrightarrow> \<exists>obs. rs = map Inr obs \<and> list_all (\<lambda>ob. workloadReady ob n) obs"
proof (induction rs)
  case (Cons r rs)
  then obtain obs where "rs = map Inr obs" "list_all (\<lambda>ob. workloadReady ob n) obs" by auto
  with Cons.prems show ?case
    by (cases r) (auto simp: item_ready_def intro!: exI [of _ "_ # obs"])
qed simp

interpretation waiting: polled E "wait_round E L ns items n t" "\<lambda>w. workloads_seen ns items n (trace w)"
    "\<lambda>e. \<exists>h. env_ctx E h = Some e" "workloads_stable E ns items n" for E L ns items n t
proof (unfold_locales, rule wp_mono [OF wp_wait_round], goal_cases)
  case (1 s w r w')
  then obtain res s' where r: "r = Inr (res, s')" "ticks (trace w') = ticks (trace w)" 
    by (auto simp: round_post_def)
  show ?case
  proof (cases res)
    case (Inl e)
    with 1 r show ?thesis by (auto simp: round_post_def)
  next
    case (Inr fin)
    with 1 r obtain rs where rs: "length rs = length items"
      "gets (trace w') = gets (trace w) @ map2 (get_event ns) items rs" "fin = list_all (item_ready n) rs"
      "\<forall>(item, r) \<in> set (zip items rs). \<exists>h. ticks h = ticks (trace w) \<and>
              r = env_get E h (wl_resource item) ns (wl_name item)"
      by (auto simp: round_post_def)
    have "workloads_seen ns items n (trace w')" if "fin"
    proof -
      obtain obs where "rs = map Inr obs" "list_all (\<lambda>ob. workloadReady ob n) obs"
        using all_ready_objects rs(3) \<open>fin\<close> by blast
      then show ?thesis using rs(1,2)
        by (auto simp: workloads_seen_def zip_map2 o_def case_prod_unfold intro!: exI [of _ obs])
    qed
    moreover have "fin" if "workloads_stable E ns items n (ticks (trace w))"
      unfolding rs(3) list_all_length
    proof (intro allI impI)
      fix i assume i: "i < length rs"
      have "(items ! i, rs ! i) \<in> set (zip items rs)" using i rs(1) by (auto simp: set_zip)
      then obtain h where "ticks h = ticks (trace w)" "rs ! i = env_get E h (wl_resource (items ! i)) ns (wl_name (items ! i))"
        using rs(4) by auto
      then show "item_ready n (rs ! i)" using that i rs(1) by (simp add: workloads_stable_def)
    qed
    ultimately show ?thesis using r Inr by auto
  qed
qed

definition gone_seen :: "string \<Rightarrow> history \<Rightarrow> bool" where
  "gone_seen ns tr \<longleftrightarrow> (\<exists>pre e. tr = pre @ [EGet Namespaces [] ns (Inl e)] \<and> IsNotFound e)"

definition gone_broken :: "outside \<Rightarrow> string \<Rightarrow> gerr \<Rightarrow> bool" where
  "gone_broken E ns e \<longleftrightarrow> (\<exists>h. env_get E h Namespaces [] ns = Inl e \<and> \<not> IsNotFound e)"

definition gone_stable :: "outside \<Rightarrow> string \<Rightarrow> nat \<Rightarrow> bool" where
  "gone_stable E ns k \<longleftrightarrow> (\<forall>h. k \<le> ticks h \<longrightarrow> (\<exists>e. env_get E h Namespaces [] ns = Inl e))"

interpretation deleting: polled E "namespace_gone E ns" "\<lambda>w. gone_seen ns (trace w)" "gone_broken E ns"
    "gone_stable E ns" for E ns
proof (unfold_locales, goal_cases)
  case (1 s w)
  show ?case
    unfolding namespace_gone_def
    by (rule wp_try, rule wp_kget, cases "env_get E (trace w) Namespaces [] ns")
       (auto simp: getErrIfUnexpected_def gone_seen_def gone_broken_def gone_stable_def intro!: wp_ret
         exI [of _ "trace w"])
qed

lemma wp_waitForWorkloads:
  "free_wp (waitForWorkloads E L ns items n) (\<lambda>r w'. ticks (trace w') \<le> ticks (trace w) + workload_rounds \<and>
     (case r of
        Inr _ \<Rightarrow> workloads_seen ns items n (trace w')
      | Inl e \<Rightarrow> (\<exists>h. env_ctx E h \<noteq> None) \<or> \<not> workloads_stable E ns items n (ticks (trace w) + 600))) w"
proof -
  let ?s = "\<lparr>ws_last = [], ws_summary = [], ws_report = None\<rparr>"
  have "free_wp (bindE (poll E workload_rounds (wait_round E L ns items n t) ?s) (\<lambda>(r, s). case r of
       None \<Rightarrow> retE () | Some e \<Rightarrow> failE (not_ready_error e (ws_last s))))
     (\<lambda>r w'. ticks (trace w') \<le> ticks (trace w) + workload_rounds \<and>
       (case r of
          Inr _ \<Rightarrow> workloads_seen ns items n (trace w')
        | Inl e \<Rightarrow> (\<exists>h. env_ctx E h \<noteq> None) \<or> \<not> workloads_stable E ns items n (ticks (trace w) + 600))) w" for t
  proof (rule wp_bind, rule wp_mono [OF waiting.outcome], goal_cases)
    case (1 r w')
    then obtain res s where "r = Inr (res, s)" by (auto simp: waiting.poll_post_def)
    with 1 show ?case
      by (cases res) (auto simp: waiting.poll_post_def workload_rounds_def add.commute intro!: wp_ret wp_fail)
  qed
  then show ?thesis by (simp add: wp_def waitForWorkloads_def)
qed

text \<open>
  C12: when \<open>waitForWorkloads\<close> succeeds, its last reads of the API were one read per workload, in
  order, and each found the workload at the expected number of replicas, observed, updated,
  ready and available; and whatever happens it waits for at most ten minutes of one-second
  intervals.
\<close>
theorem waitForWorkloads_sound:
  assumes "waitForWorkloads E L ns items n w = (r, w')"
  shows "ticks (trace w') \<le> ticks (trace w) + workload_rounds \<and>
    (r = Inr () \<longrightarrow> (\<exists>pre obs. length obs = length items \<and>
       gets (trace w') = pre @ map2 (\<lambda>item ob. get_event ns item (Inr ob)) items obs \<and>
       list_all (\<lambda>ob. workloadReady ob n) obs))"
  using wpD [OF wp_waitForWorkloads assms] by (auto simp: workloads_seen_def)


lemma wp_delete_namespace:
  "free_wp (delete_namespace E ns) (\<lambda>r w'. r = Inr () \<longrightarrow> gone_seen ns (trace w')) w"
proof -
  have wait: "free_wp (bindE (poll E m (namespace_gone E ns) ()) (\<lambda>(r, _). case r of
       None \<Rightarrow> retE () | Some e \<Rightarrow> failE (f e))) (\<lambda>r w'. r = Inr () \<longrightarrow> gone_seen ns (trace w')) u" for m f u
  proof (rule wp_bind, rule wp_mono [OF deleting.outcome], goal_cases)
    case (1 r w')
    then obtain res s where "r = Inr (res, s)" by (auto simp: deleting.poll_post_def)
    with 1 show ?case by (cases res) (auto simp: deleting.poll_post_def intro!: wp_ret wp_fail)
  qed
  show ?thesis
    unfolding delete_namespace_def
    by (rule wp_bind, rule wp_try, rule wp_kdelete)
       (auto intro!: wp_ret wp_fail wp_if wait split: sum.split)
qed

text \<open>
  When \<open>Reset\<close> of a leased environment succeeds although it had to delete the namespace, the API
  answered after the deletion that the namespace does not exist: the state file and the generated
  files are removed only after that answer.
\<close>
theorem delete_namespace_gone:
  assumes "delete_namespace E ns w = (Inr (), w')"
  shows "\<exists>tr e. trace w' = tr @ [EGet Namespaces [] ns (Inl e)] \<and> IsNotFound e"
  using wpD [OF wp_delete_namespace assms] by (simp add: gone_seen_def)

section \<open>Status\<close>

text \<open>The objects behind a status: what \<open>get_owned\<close> accepted, and the state they amount to.\<close>

definition owned_status :: "int \<Rightarrow> string \<Rightarrow> string \<Rightarrow> workload \<Rightarrow> kobj \<Rightarrow> component_status \<Rightarrow> bool" where
  "owned_status lab ns i item ob cs \<longleftrightarrow> verifyResourceOwnership ob lab ns i = Inr () \<and> workload_status item ob = Inr cs"

definition environment_state :: "kobj list \<Rightarrow> string" where
  "environment_state obs =
     (if list_all (\<lambda>ob. workloadReady ob 0) obs then ''stopped''
      else if list_all (\<lambda>ob. spec_replicas ob > 0 \<and> workloadReady ob (spec_replicas ob)) obs then ''ready''
      else ''starting'')"

lemma wp_get_owned:
  assumes "\<And>e u. Q (Inl e) u"
    and "\<And>ob. verifyResourceOwnership ob lab ns i = Inr () \<Longrightarrow> Q (Inr ob) (log (EGet g ns n (Inr ob)) w)"
  shows "free_wp (get_owned E g ns n lab i a f) Q w"
  unfolding get_owned_def
  by (rule wp_try, rule wp_kget, cases "env_get E (trace w) g ns n")
     (auto intro!: wp_if wp_fail wp_bind wp_lift wp_ret assms split: sum.split)

lemma wp_collect_status:
  "free_wp (collect_status E ns lab i items cs st rd) (\<lambda>r w'. \<forall>cs' st' rd'. r = Inr (cs', st', rd') \<longrightarrow>
     (\<exists>obs css. length obs = length items \<and> cs' = cs @ css \<and>
        list_all2 (\<lambda>(item, ob) c. owned_status lab ns i item ob c) (zip items obs) css \<and>
        gets (trace w') = gets (trace w) @ map2 (\<lambda>item ob. get_event ns item (Inr ob)) items obs \<and>
        st' = (st \<and> list_all (\<lambda>ob. workloadReady ob 0) obs) \<and>
        rd' = (rd \<and> list_all (\<lambda>ob. spec_replicas ob > 0 \<and> workloadReady ob (spec_replicas ob)) obs))) w"
proof (induction items arbitrary: cs st rd w)
  case Nil
  show ?case by (simp add: wp_ret)
next
  case (Cons item items)
  have zero: "workloadReady ob 0 \<Longrightarrow> spec_replicas ob = 0" for ob
    by (simp add: workloadReady_def)
  show ?case
    unfolding collect_status.simps
  proof (rule wp_bind, rule wp_get_owned, simp, unfold sum.case, rule wp_bind, rule wp_lift,
      clarsimp split: sum.split, rule wp_mono [OF Cons.IH], clarsimp, goal_cases)
    case (1 ob c w' obs css)
    then show ?case
      by (intro exI [of _ "ob # obs"]) (auto simp: owned_status_def get_event_def dest: zero)
  qed
qed

lemma wp_statusWith:
  "free_wp (statusWith E c i) (\<lambda>r w'. \<forall>st. r = Inr st \<longrightarrow> (\<exists>pre obs. length obs = length (workloads (cf_Lab c)) \<and>
     rs_Lab st = cf_Lab c \<and> rs_Namespace st = lab_namespace (cf_Lab c) \<and>
     list_all2 (\<lambda>(item, ob) s. owned_status (cf_Lab c) (lab_namespace (cf_Lab c)) i item ob s)
       (zip (workloads (cf_Lab c)) obs) (rs_Components st) \<and>
     gets (trace w') = pre @ map2 (\<lambda>item ob. get_event (lab_namespace (cf_Lab c)) item (Inr ob)) (workloads (cf_Lab c)) obs \<and>
     rs_State st = environment_state obs)) w"
proof (cases "environment_entry (cf_Lab c)")
  case None
  then show ?thesis by (simp add: statusWith_def wp_fail)
next
  case (Some e)
  then have ns: "lab_namespace (cf_Lab c) = en_Namespace e" by (simp add: lab_namespace_def)
  have services: "calm (\<lambda>_ _. True) (\<lambda>_. True) (verify_services E n l k)" for n l k
    unfolding verify_services_def by (intro free.calm_prims)
  show ?thesis
    unfolding statusWith_def Some option.case ns
    apply (rule wp_bind, rule free_calm [OF free.calm_verifyNamespace], simp split: sum.split, intro impI)
    apply (rule wp_bind, rule free_calm [OF services], simp split: sum.split, intro impI)
    apply (rule wp_bind, rule free_calm [OF calm_when [OF free.calm_verifyRedpanda]], simp split: sum.split, intro impI)
    apply (rule wp_bind, rule wp_mono [OF wp_collect_status])
    apply (fastforce simp: environment_state_def intro!: wp_ret split: sum.splits)
    done
qed

text \<open>
  C13: a status that \<open>statusWith\<close> returns is what the cluster holds: its last reads of the API were one
  read per workload of the lab, each of an object owned by this lab, environment and cluster and
  pinned to an image digest; the components report the replicas of exactly these objects, and the
  state is \<open>stopped\<close> when all of them are settled at zero replicas, otherwise \<open>ready\<close> when all are
  settled at their own positive number, otherwise \<open>starting\<close>.
\<close>
theorem statusWith_faithful:
  assumes "statusWith E c i w = (Inr st, w')"
  shows "\<exists>pre obs. length obs = length (workloads (cf_Lab c)) \<and>
     rs_Lab st = cf_Lab c \<and> rs_Namespace st = lab_namespace (cf_Lab c) \<and>
     list_all2 (\<lambda>(item, ob) s. verifyResourceOwnership ob (cf_Lab c) (lab_namespace (cf_Lab c)) i = Inr () \<and>
         workload_status item ob = Inr s) (zip (workloads (cf_Lab c)) obs) (rs_Components st) \<and>
     gets (trace w') = pre @ map2 (\<lambda>item ob. get_event (lab_namespace (cf_Lab c)) item (Inr ob)) (workloads (cf_Lab c)) obs \<and>
     rs_State st = environment_state obs"
  using wpD [OF wp_statusWith assms] by (simp add: owned_status_def)

section \<open>Concrete environments\<close>

text \<open>The object of lab 1, ready, in an API that is slow for three seconds.\<close>

definition postgres_obj :: kobj where
  "postgres_obj = empty_obj\<lparr>GetLabels := [(''app.kubernetes.io/managed-by'', ''tripgoctl''),
       (''app.kubernetes.io/part-of'', ''tripgo-local''), (''tripgo.course/lab'', pad02 1),
       (''tripgo.course/environment'', lab_namespace 1)],
     GetAnnotations := [(''tripgo.course/cluster-id'', ''id'')],
     spec_replicas := 1, status_readyReplicas := 1, status_updatedReplicas := 1, status_availableReplicas := 1,
     spec_type := ''NodePort'', spec_selector := [(''app.kubernetes.io/name'', ''postgres''),
       (''app.kubernetes.io/instance'', lab_namespace 1 @ ''-postgres'')],
     spec_ports := [Some \<lparr>kp_name = ''postgres'', kp_port = 5432,
       kp_nodePort = (case PortByName 1 ''postgres'' of None \<Rightarrow> 0 | Some p \<Rightarrow> NodePort p), kp_targetPort = ''postgres''\<rparr>],
     template_containers := [Some \<lparr>kc_image = ''postgres@sha256:1'', kc_args = []\<rparr>]\<rparr>"

definition slow :: outside where
  "slow = quiet\<lparr>env_get := (\<lambda>h g ns n. if ticks h < 3 then Inl (Foreign ''busy'' []) else Inr postgres_obj)\<rparr>"

definition prompt :: outside where
  "prompt = quiet\<lparr>env_get := (\<lambda>h g ns n. Inr postgres_obj)\<rparr>"

lemma postgres_ready: "workloadReady postgres_obj 1"
  by (simp add: workloadReady_def postgres_obj_def empty_obj_def)


theorem waitForWorkloads_sound_witness:
  "\<exists>pre obs. length obs = 1 \<and>
     gets (trace (snd (waitForWorkloads prompt sample_lab (lab_namespace 1) (workloads 1) 1 empty_world))) =
       pre @ map2 (\<lambda>item ob. get_event (lab_namespace 1) item (Inr ob)) (workloads 1) obs"
proof -
  let ?run = "waitForWorkloads prompt sample_lab (lab_namespace 1) (workloads 1) 1 empty_world"
  have "workloads_stable prompt (lab_namespace 1) (workloads 1) 1 k" for k
    by (simp add: workloads_stable_def prompt_def item_ready_def postgres_ready)
  then have "fst ?run = Inr ()"
    using wpD [OF wp_waitForWorkloads prod.collapse [symmetric], of prompt sample_lab "lab_namespace 1" "workloads 1" 1 empty_world]
    by (cases "fst ?run") (simp_all add: prompt_def quiet_def)
  then have "?run = (Inr (), snd ?run)" by (metis prod.collapse)
  from waitForWorkloads_sound [OF this] show ?thesis
    by (fastforce simp: workloads_def)
qed

theorem delete_namespace_gone_witness:
  "\<exists>tr e. trace (snd (delete_namespace lab_outside ''tripgo-lab-02'' empty_world)) =
     tr @ [EGet Namespaces [] ''tripgo-lab-02'' (Inl e)] \<and> IsNotFound e"
proof -
  have "delete_namespace lab_outside ''tripgo-lab-02'' empty_world =
      (Inr (), snd (delete_namespace lab_outside ''tripgo-lab-02'' empty_world))"
    by (simp add: delete_namespace_def io_defs lab_outside_sel owned_poll)
  then show ?thesis by (rule delete_namespace_gone)
qed

lemma postgres_status:
  "statusWith prompt (lab_config 1) ''id'' empty_world =
     (Inr \<lparr>rs_Lab = 1, rs_Namespace = lab_namespace 1, rs_State = ''ready'',
           rs_Components = [\<lparr>cs_Name = ''postgres'', cs_Desired = 1, cs_Ready = 1, cs_ImageDigest = ''sha256:1''\<rparr>]\<rparr>,
      snd (statusWith prompt (lab_config 1) ''id'' empty_world))"
proof -
  obtain e where e: "environment_entry 1 = Some e" "en_Lab e = 1" by (rule environment_entry_Some [of 1]) simp_all
  then have ns: "lab_namespace 1 = en_Namespace e" by (simp add: lab_namespace_def)
  have own: "verifyResourceOwnership postgres_obj 1 (en_Namespace e) ''id'' = Inr ()"
    by (simp add: verifyResourceOwnership_def postgres_obj_def lookup_str_def ns)
  have port: "PortByName 1 ''postgres'' \<noteq> None"
    by (rule PortByName_endpoint) (simp_all add: endpoint_names)
  have svc: "verifyEndpointService postgres_obj 1 (en_Namespace e) ''id'' x = Inr ()" if "x \<in> set (endpointServices 1)" for x
    using that own port
    by (auto simp: endpointServices_def verifyEndpointService_def mk_service_def mk_eport_def service_type_def
        selector_name_def port_matches_def lookup_str_def postgres_obj_def empty_obj_def ns)
  have svcs: "fst (verify_services prompt (en_Namespace e) 1 ''id'' u) = Inr ()" for u
    using svc by (simp add: verify_services_def endpointServices_def mk_service_def io_defs prompt_def quiet_def)
  have image: "workloadImageDigest postgres_obj = ''sha256:1''"
    by (simp add: workloadImageDigest_def workloadImageReference_def postgres_obj_def)
  have replicas: "spec_replicas postgres_obj = 1" "status_readyReplicas postgres_obj = 1"
    by (simp_all add: postgres_obj_def empty_obj_def)
  have "fst (statusWith prompt (lab_config 1) ''id'' empty_world) = Inr \<lparr>rs_Lab = 1, rs_Namespace = en_Namespace e,
      rs_State = ''ready'', rs_Components = [\<lparr>cs_Name = ''postgres'', cs_Desired = 1, cs_Ready = 1, cs_ImageDigest = ''sha256:1''\<rparr>]\<rparr>"
    using svcs own image postgres_ready replicas
    by (simp add: statusWith_def lab_config_def e verifyNamespace_def io_defs prompt_def quiet_def workloads_def mk_workload_def
        get_owned_def workload_status_def case_prod_unfold)
  then show ?thesis using ns by (metis prod.collapse)
qed

theorem statusWith_faithful_witness:
  "\<exists>obs. length obs = 1 \<and> environment_state obs = ''ready'' \<and>
     list_all (\<lambda>ob. verifyResourceOwnership ob 1 (lab_namespace 1) ''id'' = Inr ()) obs"
proof -
  obtain obs where obs: "length obs = length (workloads 1)" "environment_state obs = ''ready''"
    "list_all2 (\<lambda>(item, ob) s. verifyResourceOwnership ob 1 (lab_namespace 1) ''id'' = Inr () \<and>
       workload_status item ob = Inr s) (zip (workloads 1) obs)
       [\<lparr>cs_Name = ''postgres'', cs_Desired = 1, cs_Ready = 1, cs_ImageDigest = ''sha256:1''\<rparr>]"
    using statusWith_faithful [OF postgres_status] by (auto simp: lab_config_def)
  moreover have "length (workloads 1) = 1" by (simp add: workloads_def)
  ultimately show ?thesis
    by (intro exI [of _ obs]) (auto simp: length_Suc_conv list_all2_Cons2)
qed

end
