(* ===== verification/Push_Service.thy ===== *)
theory Push_Service
  imports Prelude Complex_Main "HOL-Library.Word"
begin

text \<open>
  The Push Service: process configuration (\<open>internal/pushservice/config.go\<close>) and the
  transport-neutral service (\<open>service.go\<close>). Go's \<open>int\<close>, \<open>int64\<close> and \<open>time.Duration\<close> are 64-bit words
  read as signed numbers; a \<open>float64\<close> is a rational, an infinity or not a number, as much as the code
  asks of one. The rate limiter (\<open>golang.org/x/time/rate\<close>) and the UUID parser are parameters, as
  are \<open>strconv.ParseFloat\<close> and \<open>time.ParseDuration\<close>. The mutex makes \<open>PatchBehaviour\<close> and
  \<open>snapshotAndAllow\<close> atomic: requests and admin calls interleave as the steps of an inductive
  relation, in which a request is admitted in one step and completed in a later one.
\<close>

section \<open>Numbers\<close>

type_synonym i64 = "64 word"

datatype f64 = NaN | Infty bool | Finite rat

fun f64_less :: "f64 \<Rightarrow> f64 \<Rightarrow> bool" where
  "f64_less (Finite a) (Finite b) = (a < b)"
| "f64_less (Infty a) (Infty b) = (\<not> a \<and> b)"
| "f64_less (Infty a) (Finite b) = (\<not> a)"
| "f64_less (Finite a) (Infty b) = b"
| "f64_less _ _ = False"

fun IsInf :: "f64 \<Rightarrow> bool" where
  "IsInf (Infty _) = True"
| "IsInf _ = False"

definition second_i64 :: i64 where "second_i64 = 1000000000"
definition millisecond_i64 :: i64 where "millisecond_i64 = 1000000"

text \<open>\<open>int64(time.Duration(1<<63-1) / time.Millisecond)\<close>.\<close>

definition max_latency_ms :: int where "max_latency_ms = (2 ^ 63 - 1) div 1000000"

section \<open>Configuration\<close>

record push_config =
  pc_HTTPAddr :: string
  pc_GRPCAddr :: string
  pc_LogLevel :: string
  pc_FailRate :: f64
  pc_Latency :: i64
  pc_RateLimitRPS :: i64
  pc_RateLimitBurst :: i64
  pc_ShutdownTimeout :: i64

text \<open>What the process finds outside: its environment and the two library parsers.\<close>

record push_outside =
  po_env :: "string \<Rightarrow> string option"
  po_float :: "string \<Rightarrow> gerr + f64"
  po_duration :: "string \<Rightarrow> gerr + i64"

definition to_lower :: "char \<Rightarrow> char" where
  "to_lower c = (if CHR ''A'' \<le> c \<and> c \<le> CHR ''Z'' then char_of (of_char c + (32 :: nat)) else c)"

definition ToLower :: "string \<Rightarrow> string" where
  "ToLower s = map to_lower s"

definition envOr :: "push_outside \<Rightarrow> string \<Rightarrow> string \<Rightarrow> string" where
  "envOr N name fallback = (case po_env N name of Some value \<Rightarrow> value | None \<Rightarrow> fallback)"

definition envFloat :: "push_outside \<Rightarrow> string \<Rightarrow> f64 \<Rightarrow> gerr + f64" where
  "envFloat N name fallback =
     (case po_env N name of
        None \<Rightarrow> Inr fallback
      | Some value \<Rightarrow>
          (case po_float N value of
             Inl e \<Rightarrow> Inl (Errorf [T (name @ '' must be a number: ''), W e])
           | Inr parsed \<Rightarrow> Inr parsed))"

text \<open>\<open>strconv.Atoi\<close>: the error of a text that is not a 64-bit integer.\<close>

definition atoi_error :: "string \<Rightarrow> gerr" where
  "atoi_error s = Foreign (''strconv.Atoi: '' @ s) []"

definition envInt :: "push_outside \<Rightarrow> string \<Rightarrow> i64 \<Rightarrow> gerr + i64" where
  "envInt N name fallback =
     (case po_env N name of
        None \<Rightarrow> Inr fallback
      | Some value \<Rightarrow>
          (case ParseInt64 value of
             None \<Rightarrow> Inl (Errorf [T (name @ '' must be an integer: ''), W (atoi_error value)])
           | Some parsed \<Rightarrow> Inr (word_of_int parsed)))"

definition push_Validate :: "push_config \<Rightarrow> gerr + unit" where
  "push_Validate c =
     (if TrimSpace (pc_HTTPAddr c) = [] \<or> TrimSpace (pc_GRPCAddr c) = []
      then Inl (errorsNew ''HTTP_ADDR and GRPC_ADDR must be non-empty'')
      else if pc_LogLevel c \<notin> {''debug'', ''info'', ''warn'', ''error''}
      then Inl (errorsNew ''LOG_LEVEL must be debug, info, warn, or error'')
      else if pc_FailRate c = NaN \<or> IsInf (pc_FailRate c) \<or> f64_less (pc_FailRate c) (Finite 0) \<or>
              f64_less (Finite 1) (pc_FailRate c)
      then Inl (errorsNew ''PUSH_FAIL_RATE must be between 0 and 1'')
      else if sint (pc_Latency c) < 0 then Inl (errorsNew ''PUSH_LATENCY_MS must be non-negative'')
      else if sint (pc_RateLimitRPS c) < 0 then Inl (errorsNew ''PUSH_RATE_LIMIT_RPS must be non-negative'')
      else if sint (pc_RateLimitBurst c) \<le> 0 then Inl (errorsNew ''PUSH_RATE_LIMIT_BURST must be positive'')
      else if sint (pc_ShutdownTimeout c) \<le> 0 then Inl (errorsNew ''shutdown timeout must be positive'')
      else Inr ())"

definition ConfigFromEnv :: "push_outside \<Rightarrow> gerr + push_config" where
  "ConfigFromEnv N =
     bindS (envFloat N ''PUSH_FAIL_RATE'' (Finite 0)) (\<lambda>failRate.
     bindS (envInt N ''PUSH_LATENCY_MS'' 0) (\<lambda>latencyMS.
     if sint latencyMS < 0 \<or> sint latencyMS > max_latency_ms
     then Inl (errorsNew ''PUSH_LATENCY_MS is outside the supported duration range'')
     else
     bindS (envInt N ''PUSH_RATE_LIMIT_RPS'' 20) (\<lambda>rps.
     bindS (envInt N ''PUSH_RATE_LIMIT_BURST'' 40) (\<lambda>burst.
     bindS (case po_env N ''SHUTDOWN_TIMEOUT'' of
              None \<Rightarrow> Inr (10 * second_i64)
            | Some value \<Rightarrow>
                (case po_duration N value of
                   Inl e \<Rightarrow> Inl (Errorf [T ''SHUTDOWN_TIMEOUT must be a duration: '', W e])
                 | Inr d \<Rightarrow> Inr d)) (\<lambda>shutdown.
     let config = \<lparr>pc_HTTPAddr = envOr N ''HTTP_ADDR'' '':8090'', pc_GRPCAddr = envOr N ''GRPC_ADDR'' '':9095'',
                   pc_LogLevel = ToLower (envOr N ''LOG_LEVEL'' ''info''), pc_FailRate = failRate,
                   pc_Latency = latencyMS * millisecond_i64, pc_RateLimitRPS = rps,
                   pc_RateLimitBurst = burst, pc_ShutdownTimeout = shutdown\<rparr>
     in bindS (push_Validate config) (\<lambda>_. Inr config))))))"

section \<open>Service\<close>

record push_request =
  pr_RequestID :: string
  pr_RecipientID :: string
  pr_Kind :: string
  pr_Title :: string
  pr_Body :: string
  pr_Data :: "(string \<times> string) list"

record accepted =
  ac_MessageID :: string
  ac_AcceptedAt :: int

record behaviour =
  bh_FailRate :: f64
  bh_Latency :: i64
  bh_RateLimitRPS :: i64

record behaviour_patch =
  bp_FailRate :: "f64 option"
  bp_LatencyMS :: "i64 option"
  bp_RateLimitRPS :: "i64 option"

datatype failure_kind = FailureInvalid | FailureRateLimited | FailureInjected | FailureCanceled

fun kind_text :: "failure_kind \<Rightarrow> string" where
  "kind_text FailureInvalid = ''invalid''"
| "kind_text FailureRateLimited = ''rate_limited''"
| "kind_text FailureInjected = ''injected_failure''"
| "kind_text FailureCanceled = ''canceled''"

record failure =
  fl_Kind :: failure_kind
  fl_RetryAfter :: i64
  fl_Err :: "gerr option"

definition failure_Error :: "failure \<Rightarrow> string" where
  "failure_Error f = (case fl_Err f of None \<Rightarrow> kind_text (fl_Kind f) | Some e \<Rightarrow> error_text e)"

text \<open>The limiter of \<open>golang.org/x/time/rate\<close>: creation for a rate and a burst, and \<open>AllowN(now, 1)\<close>.\<close>

record 'l limiter_ops =
  lim_new :: "i64 \<Rightarrow> i64 \<Rightarrow> 'l"
  lim_allow :: "'l \<Rightarrow> int \<Rightarrow> bool \<times> 'l"

record 'l push_state =
  ps_behaviour :: behaviour
  ps_burst :: i64
  ps_limiter :: "'l option"

definition resetLimiterLocked :: "'l limiter_ops \<Rightarrow> 'l push_state \<Rightarrow> 'l push_state" where
  "resetLimiterLocked K s = s\<lparr>ps_limiter :=
     (if bh_RateLimitRPS (ps_behaviour s) = 0 then None
      else Some (lim_new K (bh_RateLimitRPS (ps_behaviour s)) (ps_burst s)))\<rparr>"

definition push_NewService :: "'l limiter_ops \<Rightarrow> push_config \<Rightarrow> 'l push_state" where
  "push_NewService K c = resetLimiterLocked K
     \<lparr>ps_behaviour = \<lparr>bh_FailRate = pc_FailRate c, bh_Latency = pc_Latency c, bh_RateLimitRPS = pc_RateLimitRPS c\<rparr>,
      ps_burst = pc_RateLimitBurst c, ps_limiter = None\<rparr>"

definition patched :: "behaviour_patch \<Rightarrow> behaviour \<Rightarrow> behaviour" where
  "patched p b =
     \<lparr>bh_FailRate = (case bp_FailRate p of Some r \<Rightarrow> r | None \<Rightarrow> bh_FailRate b),
      bh_Latency = (case bp_LatencyMS p of Some ms \<Rightarrow> ms * millisecond_i64 | None \<Rightarrow> bh_Latency b),
      bh_RateLimitRPS = (case bp_RateLimitRPS p of Some r \<Rightarrow> r | None \<Rightarrow> bh_RateLimitRPS b)\<rparr>"

definition latency_ok :: "behaviour_patch \<Rightarrow> bool" where
  "latency_ok p = (case bp_LatencyMS p of None \<Rightarrow> True
     | Some ms \<Rightarrow> \<not> (sint ms < 0 \<or> sint ms > max_latency_ms))"

definition behaviour_bad :: "behaviour \<Rightarrow> bool" where
  "behaviour_bad b \<longleftrightarrow> bh_FailRate b = NaN \<or> IsInf (bh_FailRate b) \<or> f64_less (bh_FailRate b) (Finite 0) \<or>
     f64_less (Finite 1) (bh_FailRate b) \<or> sint (bh_Latency b) < 0 \<or> sint (bh_RateLimitRPS b) < 0"

definition PatchBehaviour :: "'l limiter_ops \<Rightarrow> behaviour_patch \<Rightarrow> 'l push_state \<Rightarrow> (gerr + unit) \<times> 'l push_state" where
  "PatchBehaviour K p s =
     (if \<not> latency_ok p then (Inl (errorsNew ''latency_ms is outside the supported duration range''), s)
      else
      let next = patched p (ps_behaviour s) in
      if behaviour_bad next then (Inl (errorsNew ''behaviour values are outside the supported range''), s)
      else
      let rateChanged = (bh_RateLimitRPS next \<noteq> bh_RateLimitRPS (ps_behaviour s));
          s' = s\<lparr>ps_behaviour := next\<rparr>
      in (Inr (), if rateChanged then resetLimiterLocked K s' else s'))"

text \<open>
  \<open>time.Duration(math.Ceil(1/float64(rps))) * time.Second\<close>, at least one second. The quotient is
  taken exactly; its ceiling is the one of the rounded quotient because both lie in the same
  interval of length one.
\<close>

definition retry_after :: "i64 \<Rightarrow> i64" where
  "retry_after rps =
     (let retry = word_of_int (ceiling (1 / (of_int (sint rps) :: rat))) * second_i64
      in if sint retry < sint second_i64 then second_i64 else retry)"

text \<open>\<open>None\<close> is the panic of a call on a nil limiter.\<close>

definition snapshotAndAllow ::
    "'l limiter_ops \<Rightarrow> int \<Rightarrow> 'l push_state \<Rightarrow> (behaviour \<times> bool \<times> i64) option \<times> 'l push_state" where
  "snapshotAndAllow K now s =
     (let current = ps_behaviour s in
      if bh_RateLimitRPS current = 0 then (Some (current, True, 0), s)
      else case ps_limiter s of
        None \<Rightarrow> (None, s)
      | Some l \<Rightarrow>
          (case lim_allow K l now of (ok, l') \<Rightarrow>
             if ok then (Some (current, True, 0), s\<lparr>ps_limiter := Some l'\<rparr>)
             else (Some (current, False, retry_after (bh_RateLimitRPS current)), s\<lparr>ps_limiter := Some l'\<rparr>)))"

definition data_value :: "push_request \<Rightarrow> string \<Rightarrow> string" where
  "data_value r k = (case map_of (pr_Data r) k of None \<Rightarrow> [] | Some v \<Rightarrow> v)"

definition validatePush :: "(string \<Rightarrow> bool) \<Rightarrow> push_request \<Rightarrow> gerr option" where
  "validatePush uuid r =
     (if pr_RequestID r = [] then Some (errorsNew ''request_id is required'')
      else if \<not> uuid (pr_RecipientID r) then Some (errorsNew ''recipient_id must be a UUID'')
      else if pr_Kind r \<notin> {''REQUEST_POSITION'', ''TRIP_CREATED'', ''TRIP_COMPLETED''}
      then Some (errorsNew ''kind is required and must be supported'')
      else if pr_Kind r = ''REQUEST_POSITION'' \<and> \<not> uuid (data_value r ''trip_id'')
      then Some (errorsNew ''data.trip_id must be a UUID for REQUEST_POSITION'')
      else None)"

text \<open>The first part of \<open>Process\<close>, up to the admission by the limiter.\<close>

definition admit ::
    "'l limiter_ops \<Rightarrow> (string \<Rightarrow> bool) \<Rightarrow> int \<Rightarrow> push_request \<Rightarrow> 'l push_state \<Rightarrow>
     (failure + behaviour) option \<times> 'l push_state" where
  "admit K uuid now r s =
     (case validatePush uuid r of
        Some err \<Rightarrow> (Some (Inl \<lparr>fl_Kind = FailureInvalid, fl_RetryAfter = 0, fl_Err = Some err\<rparr>), s)
      | None \<Rightarrow>
          (case snapshotAndAllow K now s of
             (None, s') \<Rightarrow> (None, s')
           | (Some (b, ok, retry), s') \<Rightarrow>
               if \<not> ok then (Some (Inl \<lparr>fl_Kind = FailureRateLimited, fl_RetryAfter = retry,
                        fl_Err = Some (errorsNew ''global push rate limit exceeded'')\<rparr>), s')
               else (Some (Inr b), s')))"

text \<open>
  The rest: the wait for the latency (or the look at the context where there is none), which the
  context ends with \<open>cancel\<close>, then the injected failure, then acceptance.
\<close>

record completion =
  cp_cancel :: "gerr option"
  cp_random :: rat
  cp_messageID :: string
  cp_now :: int

definition complete :: "completion \<Rightarrow> behaviour \<Rightarrow> failure + accepted" where
  "complete x b =
     (case cp_cancel x of
        Some e \<Rightarrow> Inl \<lparr>fl_Kind = FailureCanceled, fl_RetryAfter = 0, fl_Err = Some e\<rparr>
      | None \<Rightarrow>
          if f64_less (Finite (cp_random x)) (bh_FailRate b)
          then Inl \<lparr>fl_Kind = FailureInjected, fl_RetryAfter = 0, fl_Err = Some (errorsNew ''injected push failure'')\<rparr>
          else Inr \<lparr>ac_MessageID = cp_messageID x, ac_AcceptedAt = cp_now x\<rparr>)"

record attempt =
  at_request_id :: string
  at_recipient_id :: string
  at_kind :: string
  at_transport :: string
  at_result :: string

definition logAttempt :: "string \<Rightarrow> push_request \<Rightarrow> string \<Rightarrow> attempt" where
  "logAttempt transport r result =
     \<lparr>at_request_id = pr_RequestID r, at_recipient_id = pr_RecipientID r, at_kind = pr_Kind r,
      at_transport = transport, at_result = result\<rparr>"

definition result_text :: "failure + 'a \<Rightarrow> string" where
  "result_text res = (case res of Inl f \<Rightarrow> kind_text (fl_Kind f) | Inr _ \<Rightarrow> ''accepted'')"

text \<open>\<open>Process\<close> with no other call in between: the outcome, the state and the log entry.\<close>

definition push_Process ::
    "'l limiter_ops \<Rightarrow> (string \<Rightarrow> bool) \<Rightarrow> string \<Rightarrow> int \<Rightarrow> completion \<Rightarrow> push_request \<Rightarrow> 'l push_state \<Rightarrow>
     ((failure + accepted) \<times> attempt) option \<times> 'l push_state" where
  "push_Process K uuid transport now x r s =
     (case admit K uuid now r s of
        (None, s') \<Rightarrow> (None, s')
      | (Some (Inl f), s') \<Rightarrow> (Some (Inl f, logAttempt transport r (result_text (Inl f :: failure + accepted))), s')
      | (Some (Inr b), s') \<Rightarrow>
          (Some (complete x b, logAttempt transport r (result_text (complete x b))), s'))"

section \<open>Ranges\<close>

definition wf_behaviour :: "behaviour \<Rightarrow> bool" where
  "wf_behaviour b \<longleftrightarrow> (\<exists>r. bh_FailRate b = Finite r \<and> 0 \<le> r \<and> r \<le> 1) \<and>
     0 \<le> sint (bh_Latency b) \<and> 0 \<le> sint (bh_RateLimitRPS b)"

lemma unit_interval:
  "\<not> (x = NaN \<or> IsInf x \<or> f64_less x (Finite 0) \<or> f64_less (Finite 1) x) \<longleftrightarrow> (\<exists>r. x = Finite r \<and> 0 \<le> r \<and> r \<le> 1)"
  by (cases x) auto

lemma behaviour_bad_iff: "behaviour_bad b \<longleftrightarrow> \<not> wf_behaviour b"
  using unit_interval [of "bh_FailRate b"] by (auto simp: behaviour_bad_def wf_behaviour_def not_less)

text \<open>Milliseconds within the guard do not overflow as nanoseconds.\<close>

lemma sint_small:
  assumes "0 \<le> n" and "n < 2 ^ 63"
  shows "sint (word_of_int n :: i64) = n"
  using assms by (simp add: sint_sbintrunc' signed_take_bit_int_eq_self)

lemma millisecond_sint: "sint millisecond_i64 = 1000000" "sint second_i64 = 1000000000"
  by (simp_all add: millisecond_i64_def second_i64_def)

lemma latency_exact:
  assumes "0 \<le> sint ms" and "sint ms \<le> max_latency_ms"
  shows "sint (ms * millisecond_i64) = sint ms * 1000000"
proof -
  have product: "word_of_int (sint ms * 1000000) = ms * millisecond_i64"
    by (simp add: millisecond_i64_def)
  have "sint ms * 1000000 < 2 ^ 63"
    using assms(2) by (simp add: max_latency_ms_def)
  with assms(1) have "sint (word_of_int (sint ms * 1000000) :: i64) = sint ms * 1000000"
    by (intro sint_small) simp_all
  then show ?thesis by (simp only: product)
qed

lemma retry_one_second:
  assumes "0 < sint rps"
  shows "retry_after rps = second_i64"
proof -
  have "ceiling (1 / (of_int n :: rat)) = 1" if "0 < n" for n :: int
    using that by (intro ceiling_unique) (auto simp: divide_le_eq)
  then show ?thesis using assms unfolding retry_after_def by (simp only: Let_def) simp
qed

text \<open>
  C29: \<open>PatchBehaviour\<close> is all or nothing: on an error the service is unchanged; it succeeds exactly
  when the latency is within the representable range and every resulting value is in range, and
  then the new behaviour has the supplied fields and keeps the others, the latency in nanoseconds
  is the supplied milliseconds times a million without overflow, and the limiter is replaced by
  a fresh one (or by none) exactly when the rate changed.
\<close>
theorem PatchBehaviour_atomic:
  assumes "PatchBehaviour K p s = (r, s')"
  shows "((\<exists>e. r = Inl e) \<longrightarrow> s' = s) \<and>
    (r = Inr () \<longleftrightarrow> latency_ok p \<and> wf_behaviour (patched p (ps_behaviour s))) \<and>
    (r = Inr () \<longrightarrow> ps_behaviour s' = patched p (ps_behaviour s) \<and> ps_burst s' = ps_burst s \<and>
       (\<forall>ms. bp_LatencyMS p = Some ms \<longrightarrow> sint (bh_Latency (ps_behaviour s')) = sint ms * 1000000) \<and>
       ps_limiter s' = (if bh_RateLimitRPS (ps_behaviour s') = bh_RateLimitRPS (ps_behaviour s) then ps_limiter s
         else if bh_RateLimitRPS (ps_behaviour s') = 0 then None
         else Some (lim_new K (bh_RateLimitRPS (ps_behaviour s')) (ps_burst s))))"
proof (cases "latency_ok p \<and> wf_behaviour (patched p (ps_behaviour s))")
  case True
  have "sint (bh_Latency (patched p (ps_behaviour s))) = sint ms * 1000000" if "bp_LatencyMS p = Some ms" for ms
    using True that latency_exact [of ms] by (auto simp: latency_ok_def patched_def)
  moreover have "r = Inr ()" "s' = (if bh_RateLimitRPS (patched p (ps_behaviour s)) \<noteq> bh_RateLimitRPS (ps_behaviour s)
      then resetLimiterLocked K (s\<lparr>ps_behaviour := patched p (ps_behaviour s)\<rparr>)
      else s\<lparr>ps_behaviour := patched p (ps_behaviour s)\<rparr>)"
    using True assms by (simp_all add: PatchBehaviour_def behaviour_bad_iff Let_def)
  ultimately show ?thesis using True by (simp add: resetLimiterLocked_def)
next
  case False
  with assms show ?thesis by (auto simp: PatchBehaviour_def behaviour_bad_iff Let_def split: if_splits)
qed

section \<open>Interleaving\<close>

text \<open>
  A running service: its state, the admitted requests that still wait, with the behaviour they saw,
  the log, the number of requests that arrived, and whether a call on a nil limiter panicked.
\<close>

record 'l push_system =
  sy_state :: "'l push_state"
  sy_pending :: "(string \<times> push_request \<times> behaviour) list"
  sy_log :: "attempt list"
  sy_arrived :: nat
  sy_panic :: bool

inductive push_step :: "'l limiter_ops \<Rightarrow> (string \<Rightarrow> bool) \<Rightarrow> 'l push_system \<Rightarrow> 'l push_system \<Rightarrow> bool"
  for K uuid where
  patch: "PatchBehaviour K p (sy_state y) = (r, s') \<Longrightarrow> push_step K uuid y (y\<lparr>sy_state := s'\<rparr>)"
| admitted: "admit K uuid now r (sy_state y) = (Some (Inr b), s') \<Longrightarrow>
    push_step K uuid y (y\<lparr>sy_state := s', sy_pending := (tr, r, b) # sy_pending y, sy_arrived := Suc (sy_arrived y)\<rparr>)"
| refused: "admit K uuid now r (sy_state y) = (Some (Inl f), s') \<Longrightarrow>
    push_step K uuid y (y\<lparr>sy_state := s', sy_log := sy_log y @ [logAttempt tr r (kind_text (fl_Kind f))],
      sy_arrived := Suc (sy_arrived y)\<rparr>)"
| panicked: "admit K uuid now r (sy_state y) = (None, s') \<Longrightarrow>
    push_step K uuid y (y\<lparr>sy_state := s', sy_arrived := Suc (sy_arrived y), sy_panic := True\<rparr>)"
| completed: "sy_pending y = before @ (tr, r, b) # after \<Longrightarrow> 0 \<le> cp_random x \<Longrightarrow> cp_random x < 1 \<Longrightarrow>
    push_step K uuid y (y\<lparr>sy_pending := before @ after,
      sy_log := sy_log y @ [logAttempt tr r (result_text (complete x b))]\<rparr>)"

definition push_init :: "'l limiter_ops \<Rightarrow> push_config \<Rightarrow> 'l push_system" where
  "push_init K c = \<lparr>sy_state = push_NewService K c, sy_pending = [], sy_log = [], sy_arrived = 0, sy_panic = False\<rparr>"

inductive push_reachable :: "'l limiter_ops \<Rightarrow> (string \<Rightarrow> bool) \<Rightarrow> push_config \<Rightarrow> 'l push_system \<Rightarrow> bool"
  for K uuid c where
  start: "push_Validate c = Inr () \<Longrightarrow> push_reachable K uuid c (push_init K c)"
| step: "push_reachable K uuid c y \<Longrightarrow> push_step K uuid y z \<Longrightarrow> push_reachable K uuid c z"

text \<open>The limiters that grow from a fresh one for a rate and a burst.\<close>

inductive bucket :: "'l limiter_ops \<Rightarrow> i64 \<Rightarrow> i64 \<Rightarrow> 'l \<Rightarrow> bool" for K rps burst where
  fresh: "bucket K rps burst (lim_new K rps burst)"
| used: "bucket K rps burst l \<Longrightarrow> bucket K rps burst (snd (lim_allow K l now))"

definition service_ok :: "'l limiter_ops \<Rightarrow> i64 \<Rightarrow> 'l push_state \<Rightarrow> bool" where
  "service_ok K burst s \<longleftrightarrow> wf_behaviour (ps_behaviour s) \<and> ps_burst s = burst \<and>
     (case ps_limiter s of
        None \<Rightarrow> bh_RateLimitRPS (ps_behaviour s) = 0
      | Some l \<Rightarrow> bh_RateLimitRPS (ps_behaviour s) \<noteq> 0 \<and> bucket K (bh_RateLimitRPS (ps_behaviour s)) burst l)"

lemma reset_ok: "wf_behaviour (ps_behaviour s) \<Longrightarrow> service_ok K (ps_burst s) (resetLimiterLocked K s)"
  by (auto simp: service_ok_def resetLimiterLocked_def intro: bucket.fresh)

lemma NewService_ok: "push_Validate c = Inr () \<Longrightarrow> service_ok K (pc_RateLimitBurst c) (push_NewService K c)"
  using unit_interval [of "pc_FailRate c"]
    reset_ok [of "\<lparr>ps_behaviour = \<lparr>bh_FailRate = pc_FailRate c, bh_Latency = pc_Latency c,
       bh_RateLimitRPS = pc_RateLimitRPS c\<rparr>, ps_burst = pc_RateLimitBurst c, ps_limiter = None\<rparr>" K]
  by (auto simp: push_NewService_def push_Validate_def wf_behaviour_def not_less split: if_splits)

lemma PatchBehaviour_ok:
  assumes "service_ok K burst s" and "PatchBehaviour K p s = (r, s')"
  shows "service_ok K burst s'"
  using assms reset_ok [of "s\<lparr>ps_behaviour := patched p (ps_behaviour s)\<rparr>" K]
  by (auto simp: PatchBehaviour_def behaviour_bad_iff Let_def service_ok_def split: if_splits option.splits)

lemma sint_positive: "w \<noteq> 0 \<Longrightarrow> 0 \<le> sint w \<Longrightarrow> 0 < sint (w :: i64)"
  using signed_word_eqI [of w 0] by (auto simp: le_less)

lemma snapshot_ok:
  assumes "service_ok K burst s" and "snapshotAndAllow K now s = (out, s')"
  shows "service_ok K burst s' \<and> ps_behaviour s' = ps_behaviour s \<and>
    (\<exists>ok retry. out = Some (ps_behaviour s, ok, retry) \<and> (\<not> ok \<longrightarrow> retry = second_i64))"
proof -
  have "0 < sint (bh_RateLimitRPS (ps_behaviour s))" if "bh_RateLimitRPS (ps_behaviour s) \<noteq> 0"
    using assms(1) that sint_positive by (simp add: service_ok_def wf_behaviour_def)
  moreover have "bucket K (bh_RateLimitRPS (ps_behaviour s)) burst l'"
    if "bucket K (bh_RateLimitRPS (ps_behaviour s)) burst l" "lim_allow K l now = (b, l')" for l l' b
    using bucket.used [OF that(1), of now] that(2) by simp
  ultimately show ?thesis
    using assms
    by (auto simp: snapshotAndAllow_def service_ok_def retry_one_second Let_def split: if_splits option.splits prod.splits)
qed

lemma admit_ok:
  assumes "service_ok K burst s" and "admit K uuid now r s = (out, s')"
  shows "service_ok K burst s' \<and> ps_behaviour s' = ps_behaviour s \<and> out \<noteq> None \<and>
    (\<forall>b. out = Some (Inr b) \<longrightarrow> b = ps_behaviour s)"
proof (cases "validatePush uuid r")
  case None
  obtain o' s'' where snap: "snapshotAndAllow K now s = (o', s'')" by fastforce
  from snapshot_ok [OF assms(1) snap] None assms(2) snap show ?thesis
    by (auto simp: admit_def split: if_splits)
qed (use assms in \<open>auto simp: admit_def\<close>)

definition system_ok :: "'l limiter_ops \<Rightarrow> i64 \<Rightarrow> 'l push_system \<Rightarrow> bool" where
  "system_ok K burst y \<longleftrightarrow> service_ok K burst (sy_state y) \<and> \<not> sy_panic y \<and>
     list_all (\<lambda>(tr, r, b). wf_behaviour b) (sy_pending y) \<and>
     sy_arrived y = length (sy_log y) + length (sy_pending y)"

lemma push_step_ok: "push_step K uuid y z \<Longrightarrow> system_ok K burst y \<Longrightarrow> system_ok K burst z"
proof (induction rule: push_step.induct)
  case (patch p y r s')
  then show ?case by (auto simp: system_ok_def intro: PatchBehaviour_ok)
next
  case (admitted now r y b s' tr)
  then have "service_ok K burst s'" "b = ps_behaviour (sy_state y)" "wf_behaviour (ps_behaviour (sy_state y))"
    using admit_ok [OF _ admitted(1), of burst] by (simp_all add: system_ok_def service_ok_def)
  with admitted.prems show ?case by (simp add: system_ok_def)
next
  case (refused now r y f s' tr)
  then have "service_ok K burst s'" using admit_ok [OF _ refused(1), of burst] by (simp add: system_ok_def)
  with refused.prems show ?case by (simp add: system_ok_def)
next
  case (panicked now r y s')
  then show ?case using admit_ok [OF _ panicked(1), of burst] by (simp add: system_ok_def)
next
  case (completed y before tr r b after x)
  then show ?case by (auto simp: system_ok_def)
qed

text \<open>
  C28: however requests and admin patches interleave, from a validated configuration: the service never
  calls a nil limiter; the fail rate stays a number between 0 and 1 and latency and rate stay
  non-negative, also in the behaviour that an admitted request still carries; the limiter exists
  exactly while a rate is set and is one that was created for the current rate and the configured
  burst; and every request that arrived is either still waiting or has exactly one log entry.
\<close>
theorem push_service_invariant:
  assumes "push_reachable K uuid c y"
  shows "\<not> sy_panic y \<and> wf_behaviour (ps_behaviour (sy_state y)) \<and>
     list_all (\<lambda>(tr, r, b). wf_behaviour b) (sy_pending y) \<and>
     (case ps_limiter (sy_state y) of
        None \<Rightarrow> bh_RateLimitRPS (ps_behaviour (sy_state y)) = 0
      | Some l \<Rightarrow> bh_RateLimitRPS (ps_behaviour (sy_state y)) \<noteq> 0 \<and>
          bucket K (bh_RateLimitRPS (ps_behaviour (sy_state y))) (pc_RateLimitBurst c) l) \<and>
     sy_arrived y = length (sy_log y) + length (sy_pending y)"
proof -
  from assms have "system_ok K (pc_RateLimitBurst c) y"
  proof induction
    case start
    then show ?case by (simp add: system_ok_def push_init_def NewService_ok)
  next
    case (step y z)
    then show ?case by (blast intro: push_step_ok)
  qed
  then show ?thesis by (simp add: system_ok_def service_ok_def)
qed

section \<open>Processing\<close>

lemma snapshot_cases:
  assumes "service_ok K burst s"
  obtains (open_gate) "snapshotAndAllow K now s = (Some (ps_behaviour s, True, 0), s)"
      "bh_RateLimitRPS (ps_behaviour s) = 0"
    | (allowed) l l' where "ps_limiter s = Some l" "lim_allow K l now = (True, l')" "bh_RateLimitRPS (ps_behaviour s) \<noteq> 0"
      "snapshotAndAllow K now s = (Some (ps_behaviour s, True, 0), s\<lparr>ps_limiter := Some l'\<rparr>)"
    | (limited) l l' where "ps_limiter s = Some l" "lim_allow K l now = (False, l')" "bh_RateLimitRPS (ps_behaviour s) \<noteq> 0"
      "snapshotAndAllow K now s = (Some (ps_behaviour s, False, second_i64), s\<lparr>ps_limiter := Some l'\<rparr>)"
proof (cases "bh_RateLimitRPS (ps_behaviour s) = 0")
  case True
  then show ?thesis using open_gate by (simp add: snapshotAndAllow_def Let_def)
next
  case False
  with assms obtain l where l: "ps_limiter s = Some l" "0 < sint (bh_RateLimitRPS (ps_behaviour s))"
    by (auto simp: service_ok_def wf_behaviour_def sint_positive split: option.splits)
  obtain ok l' where ok: "lim_allow K l now = (ok, l')" by fastforce
  show ?thesis
  proof (cases ok)
    case True
    with allowed [of l l'] l ok False show ?thesis by (simp add: snapshotAndAllow_def Let_def)
  next
    case not_ok: False
    with limited [of l l'] l ok False show ?thesis
      by (simp add: snapshotAndAllow_def Let_def retry_one_second)
  qed
qed


section \<open>Bursts\<close>

text \<open>The outcomes of requests that arrive one after the other at the same instant.\<close>

fun admit_all ::
    "'l limiter_ops \<Rightarrow> (string \<Rightarrow> bool) \<Rightarrow> int \<Rightarrow> push_request list \<Rightarrow> 'l push_state \<Rightarrow> (failure + behaviour) option list" where
  "admit_all K uuid now [] s = []"
| "admit_all K uuid now (r # rs) s =
     fst (admit K uuid now r s) # admit_all K uuid now rs (snd (admit K uuid now r s))"

definition is_admitted :: "(failure + behaviour) option \<Rightarrow> bool" where
  "is_admitted out = (case out of Some (Inr _) \<Rightarrow> True | _ \<Rightarrow> False)"

text \<open>
  C30: the limiter bounds what is let through: with a token bucket as \<open>golang.org/x/time/rate\<close> documents
  it (a fresh bucket holds as many tokens as the burst, an event takes a token when there is one and
  is refused when there is none, and no token comes back within an instant), of any number of valid
  requests that arrive at one instant exactly as many are admitted as the bucket holds tokens, and
  a service that was just created admits exactly the configured burst.
\<close>
theorem admit_burst:
  assumes "\<And>l t. lim_allow K l t = (0 < tokens l t, snd (lim_allow K l t)) \<and>
      tokens (snd (lim_allow K l t)) t = tokens l t - (1 :: nat)"
    and "\<And>rps b t. tokens (lim_new K rps b) t = nat (sint b)"
    and "list_all (\<lambda>r. validatePush uuid r = None) rs"
    and "push_Validate c = Inr ()" and "pc_RateLimitRPS c \<noteq> 0"
  shows "length (filter is_admitted (admit_all K uuid now rs (push_NewService K c))) =
     min (length rs) (nat (sint (pc_RateLimitBurst c)))"
proof -
  have bucket: "length (filter is_admitted (admit_all K uuid now rs s)) = min (length rs) (tokens l now)"
    if "service_ok K b s" "ps_limiter s = Some l" "list_all (\<lambda>r. validatePush uuid r = None) rs" for s l b rs
    using that
  proof (induction rs arbitrary: s l)
    case (Cons r rs)
    have l': "lim_allow K l now = (0 < tokens l now, snd (lim_allow K l now))"
      "tokens (snd (lim_allow K l now)) now = tokens l now - 1" using assms(1) by auto
    obtain out s' where adm: "admit K uuid now r s = (out, s')" by fastforce
    then have ok: "service_ok K b s'" using admit_ok [OF Cons.prems(1) adm] by simp
    have step: "ps_limiter s' = Some (snd (lim_allow K l now))" "is_admitted out = (0 < tokens l now)"
    proof -
      have "fst (lim_allow K l now) = (0 < tokens l now)" using l'(1) by (metis fst_conv)
      then show "ps_limiter s' = Some (snd (lim_allow K l now))" "is_admitted out = (0 < tokens l now)"
        using Cons.prems adm
        by (cases rule: snapshot_cases [OF Cons.prems(1), where now = now];
            auto simp: admit_def is_admitted_def service_ok_def)+
    qed
    have "length (filter is_admitted (admit_all K uuid now rs s')) = min (length rs) (tokens l now - 1)"
      using Cons.IH [OF ok step(1)] Cons.prems(3) by (simp add: l'(2))
    then show ?case by (cases "tokens l now") (simp_all add: adm step(2))
  qed simp
  have "ps_limiter (push_NewService K c) = Some (lim_new K (pc_RateLimitRPS c) (pc_RateLimitBurst c))"
    using assms(5) by (simp add: push_NewService_def resetLimiterLocked_def)
  from bucket [OF NewService_ok [OF assms(4)] this assms(3)] show ?thesis by (simp add: assms(2))
qed

section \<open>Configuration from the environment\<close>

lemma ParseInt64_range: "ParseInt64 s = Some n \<Longrightarrow> sint (word_of_int n :: i64) = n"
  by (auto simp: ParseInt64_def Let_def sint_sbintrunc' intro!: signed_take_bit_int_eq_self split: option.splits if_splits)

text \<open>
  A configuration that \<open>ConfigFromEnv\<close> returns is valid, its latency is exactly the milliseconds of
  \<open>PUSH_LATENCY_MS\<close> (0 when the variable is absent) in nanoseconds, without overflow, and a service
  created from it satisfies the invariant of the service.
\<close>
theorem ConfigFromEnv_sound:
  assumes "ConfigFromEnv N = Inr c"
  shows "push_Validate c = Inr () \<and> service_ok K (pc_RateLimitBurst c) (push_NewService K c) \<and>
     (case po_env N ''PUSH_LATENCY_MS'' of
        None \<Rightarrow> sint (pc_Latency c) = 0
      | Some v \<Rightarrow> \<exists>ms. ParseInt64 v = Some ms \<and> sint (pc_Latency c) = ms * 1000000)"
proof -
  from assms obtain ms where ms: "envInt N ''PUSH_LATENCY_MS'' 0 = Inr ms" "0 \<le> sint ms" "sint ms \<le> max_latency_ms"
    and c: "pc_Latency c = ms * millisecond_i64" "push_Validate c = Inr ()"
    by (auto simp: ConfigFromEnv_def bindS_Inr_iff Let_def split: if_splits)
  have "sint (pc_Latency c) = sint ms * 1000000" using latency_exact [OF ms(2,3)] c(1) by simp
  moreover have "case po_env N ''PUSH_LATENCY_MS'' of None \<Rightarrow> sint ms = 0
      | Some v \<Rightarrow> ParseInt64 v = Some (sint ms)"
    using ms(1) by (auto simp: envInt_def ParseInt64_range split: option.splits)
  ultimately show ?thesis using c(2) NewService_ok [OF c(2)] by (auto split: option.splits)
qed

section \<open>Concrete runs\<close>

text \<open>A token bucket that counts down and is never refilled, and a validated configuration.\<close>

definition countdown :: "nat limiter_ops" where
  "countdown = \<lparr>lim_new = (\<lambda>rps b. nat (sint b)), lim_allow = (\<lambda>l t. (0 < l, l - 1))\<rparr>"

definition sample_push :: push_config where
  "sample_push = \<lparr>pc_HTTPAddr = '':8090'', pc_GRPCAddr = '':9095'', pc_LogLevel = ''info'', pc_FailRate = Finite 0,
     pc_Latency = 0, pc_RateLimitRPS = 20, pc_RateLimitBurst = 2, pc_ShutdownTimeout = 10\<rparr>"

definition sample_request :: push_request where
  "sample_request = \<lparr>pr_RequestID = ''r1'', pr_RecipientID = ''u'', pr_Kind = ''TRIP_CREATED'', pr_Title = [],
     pr_Body = [], pr_Data = []\<rparr>"

lemma sample_push_valid: "push_Validate sample_push = Inr ()"
  by (simp add: push_Validate_def sample_push_def TrimSpace_def runes_ascii)

lemma sample_request_valid: "validatePush (\<lambda>s. s = ''u'') sample_request = None"
  by (simp add: validatePush_def sample_request_def)

theorem admit_burst_witness:
  "length (filter is_admitted (admit_all countdown (\<lambda>s. s = ''u'') 7 (replicate 5 sample_request)
     (push_NewService countdown sample_push))) = 2"
  using admit_burst [of countdown "\<lambda>l t. l" "\<lambda>s. s = ''u''" "replicate 5 sample_request" sample_push 7,
      OF _ _ _ sample_push_valid]
  by (simp add: countdown_def sample_push_def sample_request_valid list_all_iff)

theorem PatchBehaviour_atomic_witness:
  "fst (PatchBehaviour countdown \<lparr>bp_FailRate = None, bp_LatencyMS = Some 250, bp_RateLimitRPS = None\<rparr>
      (push_NewService countdown sample_push)) = Inr () \<and>
   sint (bh_Latency (ps_behaviour (snd (PatchBehaviour countdown
      \<lparr>bp_FailRate = None, bp_LatencyMS = Some 250, bp_RateLimitRPS = None\<rparr>
      (push_NewService countdown sample_push))))) = 250000000"
proof -
  let ?p = "\<lparr>bp_FailRate = None, bp_LatencyMS = Some 250, bp_RateLimitRPS = None\<rparr>"
  let ?s = "push_NewService countdown sample_push"
  have "latency_ok ?p \<and> wf_behaviour (patched ?p (ps_behaviour ?s))"
    by (simp add: latency_ok_def max_latency_ms_def wf_behaviour_def patched_def push_NewService_def
        resetLimiterLocked_def sample_push_def millisecond_i64_def)
  then show ?thesis
    using PatchBehaviour_atomic [of countdown ?p ?s, OF prod.collapse [symmetric]]
    by (auto simp del: split_paired_Ex)
qed

theorem push_service_invariant_witness:
  "\<exists>y. push_reachable countdown (\<lambda>s. s = ''u'') sample_push y \<and> sy_arrived y = 1 \<and>
     sy_arrived y = length (sy_log y) + length (sy_pending y) \<and> \<not> sy_panic y"
proof -
  let ?y = "push_init countdown sample_push"
  obtain out s' where adm: "admit countdown (\<lambda>s. s = ''u'') 7 sample_request (sy_state ?y) = (out, s')" by fastforce
  then have "\<exists>b. out = Some (Inr b)"
    by (auto simp: admit_def sample_request_valid snapshotAndAllow_def push_init_def push_NewService_def
        resetLimiterLocked_def sample_push_def countdown_def Let_def)
  with adm obtain b where b: "admit countdown (\<lambda>s. s = ''u'') 7 sample_request (sy_state ?y) = (Some (Inr b), s')"
    by blast
  define z where "z = ?y\<lparr>sy_state := s', sy_pending := (''http'', sample_request, b) # sy_pending ?y,
    sy_arrived := Suc (sy_arrived ?y)\<rparr>"
  have z: "push_step countdown (\<lambda>s. s = ''u'') ?y z" "sy_arrived z = Suc (sy_arrived ?y)"
    unfolding z_def by (rule push_step.admitted [OF b]) simp
  have "push_reachable countdown (\<lambda>s. s = ''u'') sample_push z"
    by (rule push_reachable.step [OF push_reachable.start [OF sample_push_valid] z(1)])
  then show ?thesis using push_service_invariant [of countdown "\<lambda>s. s = ''u''" sample_push z] z(2)
    by (auto simp: push_init_def)
qed


definition sample_push_outside :: push_outside where
  "sample_push_outside = \<lparr>po_env = (\<lambda>n. if n = ''PUSH_LATENCY_MS'' then Some ''7'' else None),
     po_float = (\<lambda>_. Inr NaN), po_duration = (\<lambda>_. Inr 0)\<rparr>"

theorem ConfigFromEnv_sound_witness:
  "\<exists>c. ConfigFromEnv sample_push_outside = Inr c \<and> sint (pc_Latency c) = 7000000 \<and>
     service_ok countdown (pc_RateLimitBurst c) (push_NewService countdown c)"
proof -
  have seven: "ParseInt64 ''7'' = Some 7"
    by (simp add: ParseInt64_def parse_nat_def is_decimal_def less_eq_char_def digits_value_def)
  obtain c where "ConfigFromEnv sample_push_outside = Inr c"
    by (simp add: ConfigFromEnv_def envFloat_def envInt_def envOr_def sample_push_outside_def seven bindS_def
        push_Validate_def max_latency_ms_def second_i64_def millisecond_i64_def ToLower_def to_lower_def
        TrimSpace_def runes_ascii less_eq_char_def Let_def)
  with ConfigFromEnv_sound [OF this, of countdown] seven show ?thesis
    by (auto simp: sample_push_outside_def)
qed

end
