(* ===== verification/Push_Transport.thy ===== *)
theory Push_Transport
  imports Push_Service
begin

text \<open>
  The transports of the Push Service: the strict HTTP API (\<open>internal/pushservice/http.go\<close>), the gRPC
  server (\<open>grpc.go\<close>) and the lifecycle of the process (\<open>app.go\<close>). A JSON text is read by a parameter
  \<open>js\<close> into the sequence of its values and what ended it, an object as the list of its members in
  order, repetitions included, a number as what \<open>strconv\<close> makes of its literal; how \<open>encoding/json\<close>
  stores such a value into the two request structs (matching of names, null, repeated members,
  unknown members, values of another type) is modelled.
\<close>

section \<open>JSON\<close>

datatype json = JNull | JBool bool | JNumber "int option" "rat option" | JString string
  | JArray "json list" | JObject "(string \<times> json) list"

text \<open>
  \<open>foldName\<close> of \<open>encoding/json\<close>: names are equal up to the case of ASCII letters, the Kelvin sign
  (U+212A) and the long s (U+017F), the only other characters that fold to an ASCII letter.
\<close>

fun fold_name :: "string \<Rightarrow> string" where
  "fold_name [] = []"
| "fold_name (c # cs) =
     (case cs of
        d # e # rest \<Rightarrow>
          if c = CHR 0xE2 \<and> d = CHR 0x84 \<and> e = CHR 0xAA then CHR ''k'' # fold_name rest
          else if c = CHR 0xC5 \<and> d = CHR 0xBF then CHR ''s'' # fold_name (e # rest)
          else to_lower c # fold_name cs
      | [d] \<Rightarrow> if c = CHR 0xC5 \<and> d = CHR 0xBF then [CHR ''s''] else to_lower c # fold_name cs
      | [] \<Rightarrow> [to_lower c])"

text \<open>The field a member name selects: the exact name first, else a name that folds to the same.\<close>

definition field_of :: "string list \<Rightarrow> string \<Rightarrow> string option" where
  "field_of names name =
     (if name \<in> set names then Some name else find (\<lambda>f. fold_name f = fold_name name) names)"

text \<open>
  Storing a member. The first error is kept and decoding goes on; \<open>null\<close> leaves a string as it is,
  clears a pointer and empties a map; a map is extended by a further object.
\<close>

definition keep_error :: "gerr option \<Rightarrow> gerr \<Rightarrow> gerr option" where
  "keep_error err e = (case err of None \<Rightarrow> Some e | Some _ \<Rightarrow> err)"

definition type_error :: "string \<Rightarrow> gerr" where
  "type_error field = Foreign (''json: cannot unmarshal into Go struct field '' @ field) []"

definition unknown_field :: "string \<Rightarrow> gerr" where
  "unknown_field name = Foreign (''json: unknown field '' @ name) []"

definition store_string :: "string \<Rightarrow> json \<Rightarrow> string \<Rightarrow> gerr option \<Rightarrow> string \<times> gerr option" where
  "store_string field v old err =
     (case v of JString s \<Rightarrow> (s, err) | JNull \<Rightarrow> (old, err) | _ \<Rightarrow> (old, keep_error err (type_error field)))"

fun store_data :: "(string \<times> json) list \<Rightarrow> (string \<times> string) list \<Rightarrow> gerr option \<Rightarrow> (string \<times> string) list \<times> gerr option" where
  "store_data [] m err = (m, err)"
| "store_data ((k, v) # kvs) m err =
     (case store_string ''data'' v [] err of
        (s, err') \<Rightarrow> store_data kvs ((k, s) # filter (\<lambda>(k', _). k' \<noteq> k) m) err')"

definition push_fields :: "string list" where
  "push_fields = [''request_id'', ''recipient_id'', ''kind'', ''title'', ''body'', ''data'']"

definition patch_fields :: "string list" where
  "patch_fields = [''fail_rate'', ''latency_ms'', ''rate_limit_rps'']"

definition store_push :: "string \<times> json \<Rightarrow> push_request \<times> gerr option \<Rightarrow> push_request \<times> gerr option" where
  "store_push kv acc =
     (case (kv, acc) of ((name, v), (r, err)) \<Rightarrow>
       (case field_of push_fields name of
          None \<Rightarrow> (r, keep_error err (unknown_field name))
        | Some f \<Rightarrow>
            if f = ''request_id'' then (case store_string f v (pr_RequestID r) err of (s, e) \<Rightarrow> (r\<lparr>pr_RequestID := s\<rparr>, e))
            else if f = ''recipient_id'' then (case store_string f v (pr_RecipientID r) err of (s, e) \<Rightarrow> (r\<lparr>pr_RecipientID := s\<rparr>, e))
            else if f = ''kind'' then (case store_string f v (pr_Kind r) err of (s, e) \<Rightarrow> (r\<lparr>pr_Kind := s\<rparr>, e))
            else if f = ''title'' then (case store_string f v (pr_Title r) err of (s, e) \<Rightarrow> (r\<lparr>pr_Title := s\<rparr>, e))
            else if f = ''body'' then (case store_string f v (pr_Body r) err of (s, e) \<Rightarrow> (r\<lparr>pr_Body := s\<rparr>, e))
            else (case v of
                JNull \<Rightarrow> (r\<lparr>pr_Data := []\<rparr>, err)
              | JObject kvs \<Rightarrow> (case store_data kvs (pr_Data r) err of (m, e) \<Rightarrow> (r\<lparr>pr_Data := m\<rparr>, e))
              | _ \<Rightarrow> (r, keep_error err (type_error f)))))"

text \<open>\<open>*int64\<close> and \<open>*int\<close> take an integer literal that fits, \<open>*float64\<close> one within range.\<close>

definition store_int :: "string \<Rightarrow> json \<Rightarrow> i64 option \<Rightarrow> gerr option \<Rightarrow> i64 option \<times> gerr option" where
  "store_int field v old err =
     (case v of
        JNull \<Rightarrow> (None, err)
      | JNumber (Some n) _ \<Rightarrow>
          if - (2 ^ 63) \<le> n \<and> n < 2 ^ 63 then (Some (word_of_int n), err)
          else (Some (case old of None \<Rightarrow> 0 | Some x \<Rightarrow> x), keep_error err (type_error field))
      | _ \<Rightarrow> (Some (case old of None \<Rightarrow> 0 | Some x \<Rightarrow> x), keep_error err (type_error field)))"

definition store_float :: "string \<Rightarrow> json \<Rightarrow> f64 option \<Rightarrow> gerr option \<Rightarrow> f64 option \<times> gerr option" where
  "store_float field v old err =
     (case v of
        JNull \<Rightarrow> (None, err)
      | JNumber _ (Some q) \<Rightarrow> (Some (Finite q), err)
      | _ \<Rightarrow> (Some (case old of None \<Rightarrow> Finite 0 | Some x \<Rightarrow> x), keep_error err (type_error field)))"

definition store_patch :: "string \<times> json \<Rightarrow> behaviour_patch \<times> gerr option \<Rightarrow> behaviour_patch \<times> gerr option" where
  "store_patch kv acc =
     (case (kv, acc) of ((name, v), (p, err)) \<Rightarrow>
       (case field_of patch_fields name of
          None \<Rightarrow> (p, keep_error err (unknown_field name))
        | Some f \<Rightarrow>
            if f = ''fail_rate'' then (case store_float f v (bp_FailRate p) err of (x, e) \<Rightarrow> (p\<lparr>bp_FailRate := x\<rparr>, e))
            else if f = ''latency_ms'' then (case store_int f v (bp_LatencyMS p) err of (x, e) \<Rightarrow> (p\<lparr>bp_LatencyMS := x\<rparr>, e))
            else (case store_int f v (bp_RateLimitRPS p) err of (x, e) \<Rightarrow> (p\<lparr>bp_RateLimitRPS := x\<rparr>, e))))"

definition empty_push :: push_request where
  "empty_push = \<lparr>pr_RequestID = [], pr_RecipientID = [], pr_Kind = [], pr_Title = [], pr_Body = [], pr_Data = []\<rparr>"

definition empty_patch :: behaviour_patch where
  "empty_patch = \<lparr>bp_FailRate = None, bp_LatencyMS = None, bp_RateLimitRPS = None\<rparr>"

definition decode_struct ::
    "(string \<times> json \<Rightarrow> 'a \<times> gerr option \<Rightarrow> 'a \<times> gerr option) \<Rightarrow> 'a \<Rightarrow> json \<Rightarrow> 'a \<times> gerr option" where
  "decode_struct store zero v =
     (case v of
        JObject kvs \<Rightarrow> fold store kvs (zero, None)
      | JNull \<Rightarrow> (zero, None)
      | _ \<Rightarrow> (zero, Some (type_error [])))"

section \<open>HTTP\<close>

definition maxRequestBody :: nat where "maxRequestBody = 2 ^ 20"

text \<open>
  A request as the handlers see it: the media type \<open>mime.ParseMediaType\<close> finds in its header and the
  bytes of its body, or the errors of reading them.
\<close>

record http_request =
  rq_method :: string
  rq_path :: string
  rq_media :: "gerr + string"
  rq_body :: "gerr + string"

text \<open>The values of a JSON text up to its end (\<open>None\<close>) or to an error.\<close>

type_synonym json_reader = "string \<Rightarrow> json list \<times> gerr option"

definition last_member :: "json \<Rightarrow> string \<Rightarrow> json option" where
  "last_member v name = (case v of JObject kvs \<Rightarrow> map_of (rev kvs) name | _ \<Rightarrow> None)"

definition must_not_be_null :: "string \<Rightarrow> gerr" where
  "must_not_be_null field = errorsNew (field @ '' must not be null'')"

text \<open>
  \<open>rejectExplicitNulls\<close> of the single value of the body; the members of \<open>data\<close> are those the map of
  raw messages keeps, the last one of each name.
\<close>

definition rejectExplicitNulls :: "string list \<Rightarrow> bool \<Rightarrow> json \<Rightarrow> gerr option" where
  "rejectExplicitNulls names with_data v =
     (case v of
        JObject _ \<Rightarrow>
          (case find (\<lambda>f. last_member v f = Some JNull) names of
             Some f \<Rightarrow> Some (must_not_be_null f)
           | None \<Rightarrow>
               if \<not> with_data then None
               else (case last_member v ''data'' of
                   None \<Rightarrow> None
                 | Some (JObject kvs) \<Rightarrow>
                     (case find (\<lambda>(k, _). last_member (JObject kvs) k = Some JNull) kvs of
                        Some (k, _) \<Rightarrow> Some (must_not_be_null (''data.'' @ k))
                      | None \<Rightarrow> None)
                 | Some _ \<Rightarrow> Some (type_error ''data'')))
      | JNull \<Rightarrow> None
      | _ \<Rightarrow> Some (type_error []))"

definition decodeStrictJSON ::
    "json_reader \<Rightarrow> (json \<Rightarrow> 'a \<times> gerr option) \<Rightarrow> 'a \<Rightarrow> string list \<Rightarrow> bool \<Rightarrow> http_request \<Rightarrow> 'a \<times> gerr option" where
  "decodeStrictJSON js decode zero names with_data request =
     (case rq_media request of
        Inl _ \<Rightarrow> (zero, Some (errorsNew ''Content-Type must be application/json''))
      | Inr media \<Rightarrow>
          if ToLower media \<noteq> ''application/json'' then (zero, Some (errorsNew ''Content-Type must be application/json''))
          else (case rq_body request of
            Inl e \<Rightarrow> (zero, Some e)
          | Inr body \<Rightarrow>
              if length body > maxRequestBody then (zero, Some (Foreign ''http: request body too large'' []))
              else (case js body of
                  ([], None) \<Rightarrow> (zero, Some (Foreign ''EOF'' []))
                | ([], Some e) \<Rightarrow> (zero, Some e)
                | (v # vs, stop) \<Rightarrow>
                    (case decode v of
                       (x, Some e) \<Rightarrow> (x, Some e)
                     | (x, None) \<Rightarrow>
                         (case (vs, stop) of
                            ([], None) \<Rightarrow> (x, rejectExplicitNulls names with_data v)
                          | ([], Some e) \<Rightarrow> (x, Some e)
                          | (_ # _, _) \<Rightarrow> (x, Some (errorsNew ''multiple JSON values are not allowed'')))))))"

definition decode_push :: "json_reader \<Rightarrow> http_request \<Rightarrow> push_request \<times> gerr option" where
  "decode_push js = decodeStrictJSON js (decode_struct store_push empty_push) empty_push push_fields True"

definition decode_patch :: "json_reader \<Rightarrow> http_request \<Rightarrow> behaviour_patch \<times> gerr option" where
  "decode_patch js = decodeStrictJSON js (decode_struct store_patch empty_patch) empty_patch patch_fields False"

record http_response =
  hr_status :: nat
  hr_retry :: "int option"
  hr_accepted :: "accepted option"

definition plain_response :: "nat \<Rightarrow> http_response" where
  "plain_response code = \<lparr>hr_status = code, hr_retry = None, hr_accepted = None\<rparr>"

text \<open>\<open>int(math.Ceil(failure.RetryAfter.Seconds()))\<close>, at least 1.\<close>

definition retry_seconds :: "i64 \<Rightarrow> int" where
  "retry_seconds d = (let seconds = - ((- sint d) div 1000000000) in if seconds < 1 then 1 else seconds)"

definition push_response :: "(accepted \<Rightarrow> bool) \<Rightarrow> failure + accepted \<Rightarrow> http_response" where
  "push_response encodes res =
     (case res of
        Inl f \<Rightarrow>
          (case fl_Kind f of
             FailureInvalid \<Rightarrow> plain_response 400
           | FailureRateLimited \<Rightarrow> (plain_response 429)\<lparr>hr_retry := Some (retry_seconds (fl_RetryAfter f))\<rparr>
           | FailureInjected \<Rightarrow> plain_response 503
           | FailureCanceled \<Rightarrow> plain_response 503)
      | Inr a \<Rightarrow> if encodes a then (plain_response 202)\<lparr>hr_accepted := Some a\<rparr> else plain_response 500)"

text \<open>
  The handlers: the response (\<open>None\<close> when the service panicked), the log entries and the state.
  \<open>encodes\<close> says whether \<open>encoding/json\<close> can write an answer.
\<close>

definition handle_push ::
    "'l limiter_ops \<Rightarrow> (string \<Rightarrow> bool) \<Rightarrow> json_reader \<Rightarrow> (accepted \<Rightarrow> bool) \<Rightarrow> int \<Rightarrow> completion \<Rightarrow> http_request \<Rightarrow>
     'l push_state \<Rightarrow> http_response option \<times> attempt list \<times> 'l push_state" where
  "handle_push K uuid js encodes now x request s =
     (case decode_push js request of
        (push, Some _) \<Rightarrow> (Some (plain_response 400), [logAttempt ''http'' push (kind_text FailureInvalid)], s)
      | (push, None) \<Rightarrow>
          (case push_Process K uuid ''http'' now x push s of
             (None, s') \<Rightarrow> (None, [], s')
           | (Some (res, entry), s') \<Rightarrow> (Some (push_response encodes res), [entry], s')))"

definition handle_behaviour ::
    "'l limiter_ops \<Rightarrow> json_reader \<Rightarrow> http_request \<Rightarrow> 'l push_state \<Rightarrow> http_response \<times> 'l push_state" where
  "handle_behaviour K js request s =
     (case decode_patch js request of
        (_, Some _) \<Rightarrow> (plain_response 400, s)
      | (patch, None) \<Rightarrow>
          (case PatchBehaviour K patch s of
             (Inl _, s') \<Rightarrow> (plain_response 400, s')
           | (Inr _, s') \<Rightarrow> (plain_response 200, s')))"

text \<open>\<open>http.ServeMux\<close> with the three patterns, for a clean path: a GET pattern also serves HEAD.\<close>

definition HTTPHandler ::
    "'l limiter_ops \<Rightarrow> (string \<Rightarrow> bool) \<Rightarrow> json_reader \<Rightarrow> (accepted \<Rightarrow> bool) \<Rightarrow> int \<Rightarrow> completion \<Rightarrow> http_request \<Rightarrow>
     'l push_state \<Rightarrow> http_response option \<times> attempt list \<times> 'l push_state" where
  "HTTPHandler K uuid js encodes now x request s =
     (if rq_path request = ''/health''
      then (Some (plain_response (if rq_method request \<in> {''GET'', ''HEAD''} then 200 else 405)), [], s)
      else if rq_path request = ''/api/v1/push''
      then if rq_method request = ''POST'' then handle_push K uuid js encodes now x request s
           else (Some (plain_response 405), [], s)
      else if rq_path request = ''/admin/behaviour''
      then if rq_method request = ''POST''
           then (case handle_behaviour K js request s of (r, s') \<Rightarrow> (Some r, [], s'))
           else (Some (plain_response 405), [], s)
      else (Some (plain_response 404), [], s))"

section \<open>gRPC\<close>

datatype grpc_code = GrpcOK | InvalidArgument | ResourceExhausted | Unavailable | DeadlineExceeded | Canceled

text \<open>The enum of the protocol: any other number is no kind.\<close>

definition grpcKind :: "int \<Rightarrow> string" where
  "grpcKind kind = (if kind = 1 then ''REQUEST_POSITION'' else if kind = 2 then ''TRIP_CREATED''
     else if kind = 3 then ''TRIP_COMPLETED'' else [])"

record grpc_request =
  gq_RequestId :: string
  gq_RecipientId :: string
  gq_Kind :: int
  gq_Title :: string
  gq_Body :: string
  gq_Data :: "(string \<times> string) list"

definition grpc_push :: "grpc_request \<Rightarrow> push_request" where
  "grpc_push q = \<lparr>pr_RequestID = gq_RequestId q, pr_RecipientID = gq_RecipientId q, pr_Kind = grpcKind (gq_Kind q),
     pr_Title = gq_Title q, pr_Body = gq_Body q, pr_Data = gq_Data q\<rparr>"

definition grpc_status :: "failure + accepted \<Rightarrow> grpc_code \<times> string" where
  "grpc_status res =
     (case res of
        Inr _ \<Rightarrow> (GrpcOK, [])
      | Inl f \<Rightarrow>
          ((case fl_Kind f of
              FailureInvalid \<Rightarrow> InvalidArgument
            | FailureRateLimited \<Rightarrow> ResourceExhausted
            | FailureInjected \<Rightarrow> Unavailable
            | FailureCanceled \<Rightarrow>
                (case fl_Err f of
                   Some e \<Rightarrow> if errors_Is e ContextDeadlineExceeded then DeadlineExceeded else Canceled
                 | None \<Rightarrow> Canceled)), failure_Error f))"

definition SendPush ::
    "'l limiter_ops \<Rightarrow> (string \<Rightarrow> bool) \<Rightarrow> int \<Rightarrow> completion \<Rightarrow> grpc_request \<Rightarrow> 'l push_state \<Rightarrow>
     (grpc_code \<times> string \<times> accepted option) option \<times> attempt list \<times> 'l push_state" where
  "SendPush K uuid now x q s =
     (case push_Process K uuid ''grpc'' now x (grpc_push q) s of
        (None, s') \<Rightarrow> (None, [], s')
      | (Some (res, entry), s') \<Rightarrow>
          (case grpc_status res of (code, text) \<Rightarrow>
             (Some (code, text, case res of Inr a \<Rightarrow> Some a | Inl _ \<Rightarrow> None), [entry], s')))"

section \<open>Process\<close>

text \<open>
  What \<open>App.Run\<close> does to listeners and servers, in order, and what it is told: whether a listener can
  be opened, what ended the wait (the context, or the first of the two \<open>Serve\<close> calls to return), what
  \<open>Shutdown\<close> of the HTTP server returned and whether the gRPC server stopped before the deadline.
\<close>

datatype app_action = ListenHTTP bool | ListenGRPC bool | ServeBoth | HealthShutdown | ShutdownHTTP
  | GracefulStop | ForceStop | CloseHTTP | CloseGRPC

datatype app_end = ContextDone | ServeReturned "gerr option"

record app_outside =
  ao_config :: "gerr + push_config"
  ao_http :: "gerr option"
  ao_grpc :: "gerr option"
  ao_end :: app_end
  ao_shutdown :: "gerr option"
  ao_deadline :: "gerr option"

definition wrap_serve :: "app_end \<Rightarrow> gerr option" where
  "wrap_serve e = (case e of ContextDone \<Rightarrow> None | ServeReturned None \<Rightarrow> None
     | ServeReturned (Some err) \<Rightarrow> Some (Errorf [T ''serve Push Service: '', W err]))"

definition or_error :: "gerr option \<Rightarrow> (gerr \<Rightarrow> gerr) \<Rightarrow> gerr option \<Rightarrow> gerr option" where
  "or_error run g e = (case (e, run) of (Some err, None) \<Rightarrow> Some (g err) | _ \<Rightarrow> run)"

definition app_Run :: "app_outside \<Rightarrow> gerr option \<times> app_action list" where
  "app_Run A =
     (case ao_config A of
        Inl e \<Rightarrow> (Some e, [])
      | Inr config \<Rightarrow>
          (case ao_http A of
             Some e \<Rightarrow> (Some (Errorf [T (''listen HTTP on '' @ pc_HTTPAddr config @ '': ''), W e]), [ListenHTTP False])
           | None \<Rightarrow>
               (case ao_grpc A of
                  Some e \<Rightarrow> (Some (Errorf [T (''listen gRPC on '' @ pc_GRPCAddr config @ '': ''), W e]),
                              [ListenHTTP True, ListenGRPC False, CloseHTTP])
                | None \<Rightarrow>
                    let runError = or_error (wrap_serve (ao_end A)) (\<lambda>e. Errorf [T ''shutdown HTTP server: '', W e]) (ao_shutdown A)
                    in (case ao_deadline A of
                          None \<Rightarrow> (runError, [ListenHTTP True, ListenGRPC True, ServeBoth, HealthShutdown,
                                    ShutdownHTTP, GracefulStop, CloseGRPC, CloseHTTP])
                        | Some e \<Rightarrow>
                            (or_error runError (\<lambda>e. Errorf [T ''shutdown gRPC server: '', W e]) (Some e),
                             [ListenHTTP True, ListenGRPC True, ServeBoth, HealthShutdown,
                              ShutdownHTTP, GracefulStop, ForceStop, CloseGRPC, CloseHTTP])))))"

definition app_config :: "push_config option \<Rightarrow> push_outside \<Rightarrow> gerr + push_config" where
  "app_config given N =
     (case given of
        None \<Rightarrow> ConfigFromEnv N
      | Some c \<Rightarrow> bindS (push_Validate c) (\<lambda>_. Inr c))"

definition log_level :: "string \<Rightarrow> string" where
  "log_level name = (if name \<in> {''debug'', ''warn'', ''error''} then name else ''info'')"

section \<open>Both transports\<close>

fun status_of_code :: "grpc_code \<Rightarrow> nat" where
  "status_of_code GrpcOK = 202"
| "status_of_code InvalidArgument = 400"
| "status_of_code ResourceExhausted = 429"
| "status_of_code Unavailable = 503"
| "status_of_code DeadlineExceeded = 503"
| "status_of_code Canceled = 503"

lemma response_status:
  assumes "\<And>a. encodes a"
  shows "hr_status (push_response encodes res) = status_of_code (fst (grpc_status res)) \<and>
    hr_accepted (push_response encodes res) = (case res of Inr a \<Rightarrow> Some a | Inl _ \<Rightarrow> None)"
  using assms
  by (auto simp: push_response_def grpc_status_def plain_response_def split: sum.split failure_kind.split option.split)

lemma Process_transport:
  "push_Process K uuid t now x r s = (case push_Process K uuid t' now x r s of
     (None, s') \<Rightarrow> (None, s') | (Some (res, e), s') \<Rightarrow> (Some (res, e\<lparr>at_transport := t\<rparr>), s'))"
  by (auto simp: push_Process_def logAttempt_def split: option.split sum.split prod.split)

text \<open>
  C31: HTTP and gRPC are two views of one service: the same request at the same moment has the same
  effect on the service, the same log entry up to the name of the transport, the same accepted
  message, and an HTTP status that is the image of the gRPC code: 202 for OK, 400 for invalid
  argument, 429 for resource exhausted, 503 for unavailable, cancelled and deadline exceeded.
\<close>
theorem transports_agree:
  assumes "decode_push js request = (grpc_push q, None)" and "\<And>a. encodes a"
    and "handle_push K uuid js encodes now x request s = (h, lh, s1)"
    and "SendPush K uuid now x q s = (g, lg, s2)"
  shows "s1 = s2 \<and> lh = map (\<lambda>e. e\<lparr>at_transport := ''http''\<rparr>) lg \<and>
     (case (h, g) of
        (Some hr, Some (code, text, a)) \<Rightarrow> hr_status hr = status_of_code code \<and> hr_accepted hr = a
      | (None, None) \<Rightarrow> True
      | _ \<Rightarrow> False)"
proof -
  obtain out s' where p: "push_Process K uuid ''grpc'' now x (grpc_push q) s = (out, s')" by fastforce
  show ?thesis
  proof (cases out)
    case None
    with assms(1,3,4) p Process_transport [of K uuid "''http''" now x "grpc_push q" s "''grpc''"]
    show ?thesis by (simp add: handle_push_def SendPush_def)
  next
    case (Some pr)
    obtain res e where pr: "pr = (res, e)" by (cases pr)
    obtain code msg where code: "grpc_status res = (code, msg)" by fastforce
    from assms(1,3,4) p Some pr code response_status [of encodes res, OF assms(2)]
      Process_transport [of K uuid "''http''" now x "grpc_push q" s "''grpc''"]
    show ?thesis by (auto simp: handle_push_def SendPush_def)
  qed
qed

section \<open>Strict decoding\<close>

text \<open>
  The contract of storing a member into a struct: an error that was found stays, and a member that
  names no field is one.
\<close>

locale strict_store =
  fixes store :: "string \<times> json \<Rightarrow> 'a \<times> gerr option \<Rightarrow> 'a \<times> gerr option" and names :: "string list"
  assumes keeps: "snd (store kv (x, Some e)) = Some e"
    and unknown: "field_of names k = None \<Longrightarrow> snd (store (k, v) (x, None)) \<noteq> None"
begin

lemma fold_keeps: "snd (fold store kvs (x, Some e)) = Some e"
proof (induction kvs arbitrary: x)
  case (Cons kv kvs)
  have "store kv (x, Some e) = (fst (store kv (x, Some e)), Some e)" by (simp add: keeps prod_eq_iff)
  then show ?case using Cons.IH by (metis fold_simps(2))
qed simp

lemma fold_known:
  assumes "snd (fold store kvs (x, None)) = None"
  shows "list_all (\<lambda>(k, v). field_of names k \<noteq> None) kvs"
  using assms
proof (induction kvs arbitrary: x)
  case (Cons kv kvs)
  obtain y err where y: "store kv (x, None) = (y, err)" by fastforce
  from Cons.prems y have err: "err = None" using fold_keeps [of kvs y] by (cases err) auto
  moreover obtain k v where kv: "kv = (k, v)" by (cases kv)
  ultimately have "field_of names k \<noteq> None" using unknown [of k v x] y by auto
  moreover have "list_all (\<lambda>(k, v). field_of names k \<noteq> None) kvs"
    using Cons.IH [of y] Cons.prems y err by simp
  ultimately show ?case by (simp add: kv)
qed simp

lemma accepts:
  assumes "decodeStrictJSON js (decode_struct store zero) zero names wd request = (p, None)"
  shows "\<exists>media body v. rq_media request = Inr media \<and> ToLower media = ''application/json'' \<and>
     rq_body request = Inr body \<and> length body \<le> maxRequestBody \<and> js body = ([v], None) \<and>
     (v = JNull \<and> p = zero \<or> (\<exists>kvs. v = JObject kvs \<and> list_all (\<lambda>(k, v). field_of names k \<noteq> None) kvs \<and>
        (\<forall>f \<in> set names. map_of (rev kvs) f \<noteq> Some JNull)))"
proof -
  from assms obtain media body v where m: "rq_media request = Inr media" "ToLower media = ''application/json''"
    "rq_body request = Inr body" "length body \<le> maxRequestBody" "js body = ([v], None)"
    and d: "decode_struct store zero v = (p, None)" "rejectExplicitNulls names wd v = None"
    by (auto simp: decodeStrictJSON_def split: sum.splits if_splits prod.splits list.splits option.splits)
  have "v = JNull \<and> p = zero \<or> (\<exists>kvs. v = JObject kvs)"
    using d(1) by (cases v) (auto simp: decode_struct_def)
  moreover have "list_all (\<lambda>(k, v). field_of names k \<noteq> None) kvs \<and> (\<forall>f \<in> set names. map_of (rev kvs) f \<noteq> Some JNull)"
    if "v = JObject kvs" for kvs
    using d that fold_known [of kvs zero]
    by (auto simp: decode_struct_def rejectExplicitNulls_def last_member_def find_None_iff split: option.splits)
  ultimately show ?thesis using m by auto
qed

end

lemma store_string_err: "snd (store_string f v old (Some e)) = Some e"
  by (simp add: store_string_def keep_error_def split: json.split)

lemma store_data_err: "snd (store_data kvs m (Some e)) = Some e"
proof (induction kvs arbitrary: m)
  case (Cons kv kvs)
  obtain k v where kv: "kv = (k, v)" by (cases kv)
  obtain s where "store_string ''data'' v [] (Some e) = (s, Some e)"
    using store_string_err [of "''data''" v "[]" e] by (metis prod.collapse)
  then show ?case using Cons.IH by (simp add: kv)
qed simp

interpretation push_decoding: strict_store store_push push_fields
proof
  fix kv x e
  show "snd (store_push kv (x, Some e)) = Some e"
    by (simp add: store_push_def case_prod_unfold store_string_err store_data_err keep_error_def
        split: option.split json.split)
next
  fix k v x
  assume "field_of push_fields k = None"
  then show "snd (store_push (k, v) (x, None)) \<noteq> None"
    by (simp add: store_push_def keep_error_def)
qed

interpretation patch_decoding: strict_store store_patch patch_fields
proof
  fix kv x e
  show "snd (store_patch kv (x, Some e)) = Some e"
    by (auto simp: store_patch_def store_int_def store_float_def keep_error_def
        split: prod.split option.split json.split)
next
  fix k v x
  assume "field_of patch_fields k = None"
  then show "snd (store_patch (k, v) (x, None)) \<noteq> None"
    by (simp add: store_patch_def keep_error_def)
qed


definition json_request :: http_request where
  "json_request = \<lparr>rq_method = ''POST'', rq_path = ''/admin/behaviour'', rq_media = Inr ''application/json'', rq_body = Inr []\<rparr>"

lemma json_media: "ToLower ''application/json'' = ''application/json''"
  by (simp add: ToLower_def to_lower_def less_eq_char_def)

definition reads :: "json \<Rightarrow> json_reader" where
  "reads v = (\<lambda>_. ([v], None))"

lemma decode_patch_reads:
  "decode_patch (reads v) json_request = (case decode_struct store_patch empty_patch v of
     (p, None) \<Rightarrow> (p, rejectExplicitNulls patch_fields False v) | (p, Some e) \<Rightarrow> (p, Some e))"
  by (simp add: decode_patch_def decodeStrictJSON_def json_request_def json_media reads_def maxRequestBody_def)

lemma fold_patch_names:
  "fold_name ''fail_rate'' = ''fail_rate''" "fold_name ''FAIL_RATE'' = ''fail_rate''"
  by (simp_all add: to_lower_def less_eq_char_def char_of_def bit_0)

lemma decode_latency:
  "decode_patch (reads (JObject [(''latency_ms'', JNumber (Some 5) (Some 5))])) json_request =
     (empty_patch\<lparr>bp_LatencyMS := Some 5\<rparr>, None)"
  by (simp add: decode_patch_reads decode_struct_def store_patch_def field_of_def patch_fields_def store_int_def
      rejectExplicitNulls_def last_member_def empty_patch_def)


text \<open>
  A field that is \<open>null\<close> is refused under its own name, but accepted under a name that differs only
  in case: \<open>encoding/json\<close> matches names up to case, while \<open>rejectExplicitNulls\<close> looks for the exact
  name. The request is answered as an empty patch. So is the body \<open>null\<close>.
\<close>
theorem explicit_null_case_variant:
  "(\<exists>e. decode_patch (reads (JObject [(''fail_rate'', JNull)])) json_request = (empty_patch, Some e)) \<and>
   decode_patch (reads (JObject [(''FAIL_RATE'', JNull)])) json_request = (empty_patch, None) \<and>
   decode_patch (reads JNull) json_request = (empty_patch, None)"
proof -
  have exact: "field_of patch_fields ''fail_rate'' = Some ''fail_rate''"
    by (simp add: field_of_def patch_fields_def)
  have variant: "field_of patch_fields ''FAIL_RATE'' = Some ''fail_rate''"
    unfolding field_of_def patch_fields_def find.simps fold_patch_names by simp
  show ?thesis
    by (simp add: decode_patch_reads decode_struct_def store_patch_def exact variant store_float_def
        rejectExplicitNulls_def last_member_def empty_patch_def)
       (simp add: patch_fields_def)
qed

section \<open>The HTTP API as a whole\<close>

lemma retry_seconds_one: "retry_seconds second_i64 = 1"
  by (simp add: retry_seconds_def second_i64_def)

definition is_push :: "http_request \<Rightarrow> bool" where
  "is_push request \<longleftrightarrow> rq_path request = ''/api/v1/push'' \<and> rq_method request = ''POST''"

definition is_patch :: "http_request \<Rightarrow> bool" where
  "is_patch request \<longleftrightarrow> rq_path request = ''/admin/behaviour'' \<and> rq_method request = ''POST''"

lemma Process_ok:
  assumes "service_ok K burst s" and "push_Process K uuid tr now x r s = (out, s')"
  shows "service_ok K burst s' \<and> ps_behaviour s' = ps_behaviour s \<and>
    (\<exists>res. out = Some (res, logAttempt tr r (result_text res)) \<and>
       (\<forall>f. res = Inl f \<longrightarrow> fl_Kind f = FailureRateLimited \<longrightarrow> fl_RetryAfter f = second_i64))"
proof -
  obtain o' u where adm: "admit K uuid now r s = (o', u)" by fastforce
  note ok = admit_ok [OF assms(1) adm]
  have retry: "fl_RetryAfter f = second_i64" if "o' = Some (Inl f)" "fl_Kind f = FailureRateLimited" for f
    using that adm
    by (cases rule: snapshot_cases [OF assms(1), where now = now]; auto simp: admit_def split: option.splits)+
  have "fl_Kind f \<noteq> FailureRateLimited" if "complete x b = Inl f" for b f
    using that by (auto simp: complete_def split: option.splits if_splits)
  with ok retry assms(2) adm show ?thesis
    by (cases o') (auto simp: push_Process_def split: sum.splits)
qed

lemma handle_push_ok:
  assumes "service_ok K burst s" and "handle_push K uuid js encodes now x request s = (h, entries, s')"
  shows "\<exists>hr e. h = Some hr \<and> entries = [e] \<and> service_ok K burst s' \<and> ps_behaviour s' = ps_behaviour s \<and>
     hr_status hr \<in> {202, 400, 429, 500, 503} \<and> (hr_status hr = 202 \<longrightarrow> at_result e = ''accepted'') \<and>
     (hr_status hr = 429 \<longrightarrow> hr_retry hr = Some 1)"
proof -
  obtain r err where d: "decode_push js request = (r, err)" by fastforce
  show ?thesis
  proof (cases err)
    case (Some e)
    with assms d show ?thesis by (auto simp: handle_push_def plain_response_def)
  next
    case None
    obtain out u where p: "push_Process K uuid ''http'' now x r s = (out, u)" by fastforce
    from Process_ok [OF assms(1) p] obtain res where res: "out = Some (res, logAttempt ''http'' r (result_text res))"
      "service_ok K burst u" "ps_behaviour u = ps_behaviour s"
      "\<forall>f. res = Inl f \<longrightarrow> fl_Kind f = FailureRateLimited \<longrightarrow> fl_RetryAfter f = second_i64" by auto
    with assms(2) d None p show ?thesis
      by (auto simp: handle_push_def push_response_def plain_response_def logAttempt_def result_text_def
          retry_seconds_one split: sum.splits failure_kind.splits)
  qed
qed



definition push_json :: json where
  "push_json = JObject [(''request_id'', JString ''r1''), (''recipient_id'', JString ''u''), (''kind'', JString ''TRIP_CREATED'')]"

definition grpc_sample :: grpc_request where
  "grpc_sample = \<lparr>gq_RequestId = ''r1'', gq_RecipientId = ''u'', gq_Kind = 2, gq_Title = [], gq_Body = [], gq_Data = []\<rparr>"

lemma decode_sample: "decode_push (reads push_json) json_request = (grpc_push grpc_sample, None)"
  by (simp add: decode_push_def decodeStrictJSON_def json_request_def json_media reads_def maxRequestBody_def push_json_def
      decode_struct_def store_push_def field_of_def push_fields_def store_string_def empty_push_def grpc_sample_def
      grpc_push_def grpcKind_def rejectExplicitNulls_def last_member_def)

theorem transports_agree_witness:
  "snd (snd (handle_push countdown (\<lambda>s. s = ''u'') (reads push_json) (\<lambda>_. True) 7
      \<lparr>cp_cancel = None, cp_random = 0, cp_messageID = ''m'', cp_now = 8\<rparr> json_request (push_NewService countdown sample_push))) =
   snd (snd (SendPush countdown (\<lambda>s. s = ''u'') 7
      \<lparr>cp_cancel = None, cp_random = 0, cp_messageID = ''m'', cp_now = 8\<rparr> grpc_sample (push_NewService countdown sample_push)))"
proof -
  let ?x = "\<lparr>cp_cancel = None, cp_random = 0, cp_messageID = ''m'', cp_now = 8\<rparr>" and ?s = "push_NewService countdown sample_push"
  obtain h lh s1 where h: "handle_push countdown (\<lambda>s. s = ''u'') (reads push_json) (\<lambda>_. True) 7 ?x json_request ?s = (h, lh, s1)"
    by (metis prod_cases3)
  obtain g lg s2 where g: "SendPush countdown (\<lambda>s. s = ''u'') 7 ?x grpc_sample ?s = (g, lg, s2)"
    by (metis prod_cases3)
  show ?thesis using transports_agree [OF decode_sample TrueI h g] by (simp add: h g)
qed

section \<open>Lifecycle\<close>

text \<open>
  On every path, errors included, \<open>Run\<close> closes exactly the listeners it opened, and once both servers
  run it takes the health service down before it shuts down the HTTP server and then the gRPC server,
  which it stops by force exactly when the deadline passes; it returns no error exactly when the
  configuration and both listeners were good, serving ended without an error, and both servers
  stopped in time.
\<close>
theorem app_Run_closes:
  "(case app_Run A of (e, actions) \<Rightarrow>
      (CloseHTTP \<in> set actions \<longleftrightarrow> ListenHTTP True \<in> set actions) \<and>
      (CloseGRPC \<in> set actions \<longleftrightarrow> ListenGRPC True \<in> set actions) \<and>
      (if ServeBoth \<in> set actions
       then \<exists>rest. actions = [ListenHTTP True, ListenGRPC True, ServeBoth, HealthShutdown, ShutdownHTTP, GracefulStop] @
               rest @ [CloseGRPC, CloseHTTP] \<and> rest = (if ao_deadline A = None then [] else [ForceStop])
       else e \<noteq> None) \<and>
      (e = None \<longleftrightarrow> (\<exists>c. ao_config A = Inr c) \<and> ao_http A = None \<and> ao_grpc A = None \<and>
         ao_end A \<in> {ContextDone, ServeReturned None} \<and> ao_shutdown A = None \<and> ao_deadline A = None))"
  by (auto simp: app_Run_def wrap_serve_def or_error_def Let_def split: sum.split option.split app_end.split)

end
