(* ===== verification/Redact.thy ===== *)
theory Redact
  imports Prelude "HOL-Library.Sublist"
begin

text \<open>
  \<open>internal/redact/redact.go\<close>: removal of credentials and terminal controls from text that reaches a
  user. Go's regular expressions take the leftmost match and, for it, the first alternative with the
  longest repetitions that lets the rest match. In the four expressions of this package no character
  that a repetition accepts can start what follows it, so a match from a given position is found
  without going back; each expression is a function from the text at a position to the part that
  is kept, the part that is replaced and the rest. Text is bytes: the classes are ASCII or exclude
  only ASCII, so they can be read byte by byte, except that under \<open>(?i)\<close> the letters \<open>k\<close> and \<open>s\<close> also
  stand for the Kelvin sign and the long s.
\<close>

section \<open>Characters\<close>

text \<open>\<open>\s\<close> of package \<open>regexp\<close>.\<close>

definition re_space :: "char \<Rightarrow> bool" where
  "re_space c \<longleftrightarrow> c \<in> {CHR 0x09, CHR 0x0A, CHR 0x0C, CHR 0x0D, CHR 0x20}"

definition is_alpha :: "char \<Rightarrow> bool" where
  "is_alpha c \<longleftrightarrow> CHR ''A'' \<le> c \<and> c \<le> CHR ''Z'' \<or> CHR ''a'' \<le> c \<and> c \<le> CHR ''z''"

definition is_digit :: "char \<Rightarrow> bool" where
  "is_digit c \<longleftrightarrow> CHR ''0'' \<le> c \<and> c \<le> CHR ''9''"

definition scheme_char :: "char \<Rightarrow> bool" where
  "scheme_char c \<longleftrightarrow> is_alpha c \<or> is_digit c \<or> c \<in> set ''+.-''"

definition credential_char :: "char \<Rightarrow> bool" where
  "credential_char c \<longleftrightarrow> c \<notin> {CHR ''/'', CHR ''@''} \<and> \<not> re_space c"

definition token_char :: "char \<Rightarrow> bool" where
  "token_char c \<longleftrightarrow> is_alpha c \<or> is_digit c \<or> c \<in> set ''._~+/=-''"

definition value_char :: "char \<Rightarrow> bool" where
  "value_char c \<longleftrightarrow> c \<notin> {CHR '','', CHR ''}''} \<and> \<not> re_space c"

definition kelvin :: string where "kelvin = [CHR 0xE2, CHR 0x84, CHR 0xAA]"
definition long_s :: string where "long_s = [CHR 0xC5, CHR 0xBF]"

section \<open>Matching\<close>

text \<open>A match: what is kept of it, what is replaced, and the text after it.\<close>

type_synonym re_match = "string \<times> string \<times> string"

text \<open>\<open>([A-Za-z][A-Za-z0-9+.-]*://)[^/@\s]+@\<close>, the group kept.\<close>

definition match_uri :: "string \<Rightarrow> re_match option" where
  "match_uri s =
     (case s of
        [] \<Rightarrow> None
      | c # s1 \<Rightarrow>
          if \<not> is_alpha c then None
          else let scheme = c # takeWhile scheme_char s1; s2 = dropWhile scheme_char s1 in
          if \<not> HasPrefix s2 ''://'' then None
          else let s3 = drop 3 s2; user = takeWhile credential_char s3; s4 = dropWhile credential_char s3 in
          if user = [] \<or> take 1 s4 \<noteq> ''@'' then None
          else Some (scheme @ ''://'', user @ ''@'', drop 1 s4))"

text \<open>
  A literal under \<open>(?i)\<close>, in lower case: the bytes it takes and the rest. A byte that is not part of
  either of the two folding characters is compared without case.
\<close>

definition fold_char :: "char \<Rightarrow> string \<Rightarrow> (string \<times> string) option" where
  "fold_char l s =
     (if l = CHR ''k'' \<and> HasPrefix s kelvin then Some (kelvin, drop 3 s)
      else if l = CHR ''s'' \<and> HasPrefix s long_s then Some (long_s, drop 2 s)
      else case s of
        [] \<Rightarrow> None
      | c # s' \<Rightarrow>
          if c = l \<or> is_alpha c \<and> is_alpha l \<and> of_char l = (of_char c :: nat) + 32 then Some ([c], s') else None)"

fun match_fold :: "string \<Rightarrow> string \<Rightarrow> (string \<times> string) option" where
  "match_fold [] s = Some ([], s)"
| "match_fold (l # ls) s =
     (case fold_char l s of
        None \<Rightarrow> None
      | Some (b, s') \<Rightarrow> map_option (\<lambda>(a, r). (b @ a, r)) (match_fold ls s'))"

text \<open>\<open>[A-Za-z0-9._~+/=-]+\<close> under \<open>(?i)\<close>: the longest such prefix.\<close>

fun token_prefix :: "string \<Rightarrow> nat" where
  "token_prefix [] = 0"
| "token_prefix (c # s) =
     (if HasPrefix (c # s) kelvin then 3 + token_prefix (drop 2 s)
      else if HasPrefix (c # s) long_s then 2 + token_prefix (drop 1 s)
      else if token_char c then 1 + token_prefix s else 0)"

text \<open>\<open>(?i)(Bearer\s+)[A-Za-z0-9._~+/=-]+\<close>.\<close>

definition match_bearer :: "string \<Rightarrow> re_match option" where
  "match_bearer s =
     (case match_fold ''bearer'' s of
        None \<Rightarrow> None
      | Some (word, s1) \<Rightarrow>
          let gap = takeWhile re_space s1; s2 = dropWhile re_space s1; n = token_prefix s2 in
          if gap = [] \<or> n = 0 then None
          else Some (word @ gap, take n s2, drop n s2))"

definition credential_words :: "string list" where
  "credential_words = [''password'', ''passwd'', ''token'', ''secret'', ''authorization'']"

text \<open>The first word of the alternation that matches; \<open>api[_-]?key\<close> is the last.\<close>

fun match_words :: "string list \<Rightarrow> string \<Rightarrow> (string \<times> string) option" where
  "match_words [] s =
     (case match_fold ''api'' s of
        None \<Rightarrow> None
      | Some (api, s1) \<Rightarrow>
          let sep = (if take 1 s1 = ''_'' \<or> take 1 s1 = ''-'' then take 1 s1 else []) in
          (case match_fold ''key'' (drop (length sep) s1) of
             None \<Rightarrow> None
           | Some (key, s2) \<Rightarrow> Some (api @ sep @ key, s2)))"
| "match_words (w # ws) s =
     (case match_fold w s of Some m \<Rightarrow> Some m | None \<Rightarrow> match_words ws s)"

definition quote_opt :: "string \<Rightarrow> string \<times> string" where
  "quote_opt s = (if take 1 s = [CHR 0x22] then ([CHR 0x22], drop 1 s) else ([], s))"

text \<open>\<open>"[^"]*"\<close> and \<open>'[^']*'\<close>: the length of the quoted text, if it is closed.\<close>

definition quoted_value :: "char \<Rightarrow> string \<Rightarrow> nat option" where
  "quoted_value q s =
     (if take 1 s \<noteq> [q] then None
      else let body = takeWhile (\<lambda>c. c \<noteq> q) (drop 1 s) in
           if length body + 1 < length s then Some (length body + 2) else None)"

definition secret_length :: "string \<Rightarrow> nat" where
  "secret_length s =
     (case quoted_value (CHR 0x22) s of
        Some n \<Rightarrow> n
      | None \<Rightarrow>
          (case quoted_value (CHR 0x27) s of
             Some n \<Rightarrow> n
           | None \<Rightarrow> length (takeWhile value_char s)))"

text \<open>
  \<open>(?i)("?(?:password|...|api[_-]?key)"?\s*[:=]\s*)("[^"]*"|'[^']*'|[^,\s}]+)\<close>.
\<close>

definition match_field :: "string \<Rightarrow> re_match option" where
  "match_field s =
     (let (q1, s1) = quote_opt s in
      case match_words credential_words s1 of
        None \<Rightarrow> None
      | Some (word, s2) \<Rightarrow>
          let (q2, s3) = quote_opt s2; gap1 = takeWhile re_space s3; s4 = dropWhile re_space s3 in
          if take 1 s4 \<noteq> '':'' \<and> take 1 s4 \<noteq> ''='' then None
          else let gap2 = takeWhile re_space (drop 1 s4); s5 = dropWhile re_space (drop 1 s4); n = secret_length s5 in
          if n = 0 then None
          else Some (q1 @ word @ q2 @ gap1 @ take 1 s4 @ gap2, take n s5, drop n s5))"

text \<open>\<open>\x1b\[[0-?]*[ -/]*[@-~]\<close>: nothing is kept.\<close>

definition match_ansi :: "string \<Rightarrow> re_match option" where
  "match_ansi s =
     (if \<not> HasPrefix s [CHR 0x1B, CHR ''['' ] then None
      else let s1 = dropWhile (\<lambda>c. CHR ''0'' \<le> c \<and> c \<le> CHR ''?'') (drop 2 s);
               s2 = dropWhile (\<lambda>c. CHR '' '' \<le> c \<and> c \<le> CHR ''/'') s1 in
           (case s2 of
              c # rest \<Rightarrow> if CHR ''@'' \<le> c \<and> c \<le> CHR ''~'' then Some ([], take (length s - length rest) s, rest) else None
            | [] \<Rightarrow> None))"

section \<open>Replacing\<close>

text \<open>
  \<open>ReplaceAllString\<close>: from left to right, a match is replaced by what it keeps and the replacement and
  the search goes on after it. The fuel is the length of the text, since no match is empty.
\<close>

fun replace_all :: "(string \<Rightarrow> re_match option) \<Rightarrow> string \<Rightarrow> nat \<Rightarrow> string \<Rightarrow> string" where
  "replace_all m new 0 s = s"
| "replace_all m new (Suc n) s =
     (case m s of
        Some (kept, secret, rest) \<Rightarrow> kept @ new @ replace_all m new n rest
      | None \<Rightarrow> (case s of [] \<Rightarrow> [] | c # s' \<Rightarrow> c # replace_all m new n s'))"

definition redacted :: string where "redacted = ''[REDACTED]''"
definition uri_new :: string where "uri_new = redacted @ ''@''"

definition redact_Text :: "string \<Rightarrow> string" where
  "redact_Text s =
     (let a = replace_all match_uri uri_new (length s) s;
          b = replace_all match_bearer redacted (length a) a
      in replace_all match_field redacted (length b) b)"

text \<open>\<open>strings.Map\<close> with the function of \<open>TerminalText\<close>: C0 controls other than \<open>\n\<close>, \<open>\r\<close> and \<open>\t\<close> go.\<close>

definition keep_byte :: "char \<Rightarrow> bool" where
  "keep_byte c \<longleftrightarrow> c \<in> {CHR 0x0A, CHR 0x0D, CHR 0x09} \<or> CHR '' '' \<le> c"

definition map_rune :: "string \<Rightarrow> string" where
  "map_rune r =
     (if \<not> valid_rune r then RuneError
      else case r of [c] \<Rightarrow> if keep_byte c then [c] else [] | _ \<Rightarrow> r)"

definition drop_controls :: "string \<Rightarrow> string" where
  "drop_controls s = concat (map map_rune (runes s))"

text \<open>\<open>for !utf8.ValidString(value) { value = value[:len(value)-1] }\<close>\<close>

function cut_valid :: "string \<Rightarrow> string" where
  "cut_valid s = (if ValidString s then s else cut_valid (butlast s))"
  by pat_completeness auto
termination
proof (relation "measure length")
  fix s assume "\<not> ValidString s"
  then have "s \<noteq> []" by auto
  then show "(butlast s, s) \<in> measure length" by simp
qed simp

declare cut_valid.simps [simp del]

definition ellipsis :: string where
  "ellipsis = [CHR 0xE2, CHR 0x80, CHR 0xA6]"

definition TerminalText :: "string \<Rightarrow> int \<Rightarrow> string" where
  "TerminalText s maxBytes =
     (let plain = drop_controls (replace_all match_ansi [] (length s) s);
          v = redact_Text plain
      in if maxBytes \<le> 0 \<or> int (length v) \<le> maxBytes then v
         else cut_valid (take (nat maxBytes) v) @ ellipsis)"

section \<open>Matchers\<close>

text \<open>
  What \<^const>\<open>replace_all\<close> relies on: a match splits the text it is found at and takes at least one
  byte away. Then the length of the text is enough fuel, and the result is the one of the
  recursion without fuel.
\<close>

locale matcher =
  fixes m :: "string \<Rightarrow> re_match option"
  assumes split: "m s = Some (k, x, r) \<Longrightarrow> s = k @ x @ r"
    and taken: "m s = Some (k, x, r) \<Longrightarrow> x \<noteq> []"
begin

lemma shorter: "m s = Some (k, x, r) \<Longrightarrow> length r < length s"
  using split taken by fastforce

lemma fuel: "length s \<le> n \<Longrightarrow> length s \<le> n' \<Longrightarrow> replace_all m new n s = replace_all m new n' s"
proof (induction "length s" arbitrary: s n n' rule: less_induct)
  case less
  show ?case
  proof (cases s)
    case Nil
    have "m [] = None" using split taken by (cases "m []") fastforce+
    with Nil show ?thesis by (cases n; cases n') simp_all
  next
    case (Cons c s')
    then obtain a b where "n = Suc a" "n' = Suc b" "length s' \<le> a" "length s' \<le> b"
      using less.prems by (cases n; cases n') auto
    with Cons shorter [of s] show ?thesis
      by (auto split: option.splits intro!: less.hyps)
  qed
qed

abbreviation subst :: "string \<Rightarrow> string \<Rightarrow> string" where
  "subst new s \<equiv> replace_all m new (length s) s"

lemma subst_match: "m s = Some (k, x, r) \<Longrightarrow> subst new s = k @ new @ subst new r"
  using shorter [of s k x r] fuel [of r "length s - 1" "length r" new]
  by (cases "length s") simp_all

lemma subst_skip: "m (c # s) = None \<Longrightarrow> subst new (c # s) = c # subst new s"
  by simp

lemma subst_Nil: "subst new [] = []"
  by simp

lemma subst_induct [case_names match skip nil]:
  assumes match: "\<And>s k x r. m s = Some (k, x, r) \<Longrightarrow> P r \<Longrightarrow> P s"
    and skip: "\<And>c s. m (c # s) = None \<Longrightarrow> P s \<Longrightarrow> P (c # s)"
    and nil: "P []"
  shows "P s"
proof (induction "length s" arbitrary: s rule: less_induct)
  case less
  show ?case
  proof (cases "m s")
    case None
    then show ?thesis using less skip nil by (cases s) auto
  next
    case (Some p)
    then show ?thesis using less match shorter by (cases p) blast
  qed
qed

text \<open>Nothing is added to the text but the replacement.\<close>

lemma subst_set: "set (subst new s) \<subseteq> set s \<union> set new"
proof (induction s rule: subst_induct)
  case (match s k x r)
  have "set k \<union> set r \<subseteq> set s" using split [OF match(1)] by auto
  with match(2) show ?case unfolding subst_match [OF match(1)] by auto
qed (auto simp: subst_skip)

text \<open>The text stays as it is, or up to the first match, which is replaced.\<close>

lemma subst_first:
  "subst new s = s \<or>
   (\<exists>t k x r. s = t @ k @ x @ r \<and> m (k @ x @ r) = Some (k, x, r) \<and> subst new s = t @ k @ new @ subst new r)"
proof (induction s rule: subst_induct)
  case (match s k x r)
  have "s = k @ x @ r" using match(1) by (rule split)
  with match(1) subst_match [OF match(1), of new] show ?case by (metis append_Nil)
next
  case (skip c s)
  then show ?case by (metis subst_skip append_Cons)
qed simp

end

lemma HasPrefix_drop: "HasPrefix s p \<Longrightarrow> p @ drop (length p) s = s"
  by (metis HasPrefix_def append_take_drop_id)

lemma match_uri_iff:
  "match_uri s = Some (k, x, r) \<longleftrightarrow>
     (\<exists>c sch u. s = c # sch @ ''://'' @ u @ ''@'' @ r \<and> is_alpha c \<and> list_all scheme_char sch \<and>
        u \<noteq> [] \<and> list_all credential_char u \<and> k = c # sch @ ''://'' \<and> x = u @ ''@'')"
  (is "?l \<longleftrightarrow> ?r")
proof
  assume ?l
  then obtain c s1 where s: "s = c # s1" "is_alpha c" and
    pre: "HasPrefix (dropWhile scheme_char s1) ''://''"
    by (auto simp: match_uri_def Let_def split: list.splits if_splits)
  define s3 where "s3 = drop 3 (dropWhile scheme_char s1)"
  have rest: "dropWhile scheme_char s1 = ''://'' @ s3"
    using HasPrefix_drop [OF pre] by (simp add: s3_def numeral_3_eq_3)
  have s1: "s1 = takeWhile scheme_char s1 @ ''://'' @ s3"
    by (metis rest takeWhile_dropWhile_id)
  from \<open>?l\<close> s pre have u: "takeWhile credential_char s3 \<noteq> []" "take 1 (dropWhile credential_char s3) = ''@''"
      and res: "k = c # takeWhile scheme_char s1 @ ''://''" "x = takeWhile credential_char s3 @ ''@''"
        "r = drop 1 (dropWhile credential_char s3)"
    by (auto simp: match_uri_def Let_def s3_def split: if_splits)
  have "s3 = takeWhile credential_char s3 @ ''@'' @ r"
    by (metis append_take_drop_id res(3) takeWhile_dropWhile_id u(2))
  then have "s = c # takeWhile scheme_char s1 @ ''://'' @ takeWhile credential_char s3 @ ''@'' @ r"
    using s(1) s1 by metis
  moreover have "list_all scheme_char (takeWhile scheme_char s1)" "list_all credential_char (takeWhile credential_char s3)"
    by (meson list_all_iff set_takeWhileD)+
  ultimately show ?r using s(2) u(1) res(1,2) by blast
next
  assume ?r
  then obtain c sch u where s: "s = c # sch @ ''://'' @ u @ ''@'' @ r" and sch: "is_alpha c" "list_all scheme_char sch"
    and u: "u \<noteq> []" "list_all credential_char u" and res: "k = c # sch @ ''://''" "x = u @ ''@''" by blast
  have colon: "\<not> scheme_char CHR '':''" "\<not> credential_char CHR ''@''"
    by (simp_all add: scheme_char_def is_alpha_def is_digit_def credential_char_def less_eq_char_def)
  have "takeWhile scheme_char (sch @ ''://'' @ u @ ''@'' @ r) = sch"
       "dropWhile scheme_char (sch @ ''://'' @ u @ ''@'' @ r) = ''://'' @ u @ ''@'' @ r"
    using sch(2) colon(1) by (simp_all add: list_all_iff takeWhile_append2 dropWhile_append2)
  moreover have "takeWhile credential_char (u @ ''@'' @ r) = u"
       "dropWhile credential_char (u @ ''@'' @ r) = ''@'' @ r"
    using u(2) colon(2) by (simp_all add: list_all_iff takeWhile_append2 dropWhile_append2)
  ultimately show ?l
    using s sch u(1) res by (simp add: match_uri_def Let_def HasPrefix_def)
qed

lemma fold_char_split: "fold_char l s = Some (b, s') \<Longrightarrow> s = b @ s' \<and> b \<noteq> []"
  using HasPrefix_drop [of s kelvin] HasPrefix_drop [of s long_s]
  by (auto simp: fold_char_def kelvin_def long_s_def numeral_3_eq_3 numeral_2_eq_2 split: if_splits list.splits)

lemma match_fold_split: "match_fold w s = Some (a, r) \<Longrightarrow> s = a @ r"
proof (induction w arbitrary: s a)
  case (Cons l ls)
  then obtain b s' a' where "fold_char l s = Some (b, s')" "match_fold ls s' = Some (a', r)" "a = b @ a'"
    by (auto split: option.splits)
  with Cons.IH fold_char_split show ?case by fastforce
qed simp

declare match_fold.simps [simp del]

interpretation uri: matcher match_uri
  by unfold_locales (auto simp: match_uri_iff)

lemma match_bearer_split: "match_bearer s = Some (k, x, r) \<Longrightarrow> s = k @ x @ r \<and> x \<noteq> []"
proof -
  assume m: "match_bearer s = Some (k, x, r)"
  then obtain w s1 where w: "match_fold ''bearer'' s = Some (w, s1)"
    by (auto simp: match_bearer_def split: option.splits)
  let ?s2 = "dropWhile re_space s1"
  have res: "k = w @ takeWhile re_space s1" "x = take (token_prefix ?s2) ?s2" "r = drop (token_prefix ?s2) ?s2"
    "token_prefix ?s2 \<noteq> 0"
    using m w by (auto simp: match_bearer_def Let_def split: if_splits)
  then have "?s2 \<noteq> []" by (metis token_prefix.simps(1))
  with res match_fold_split [OF w] show ?thesis
    by (simp add: append_assoc [symmetric] del: append_assoc) (simp add: append_assoc)
qed

interpretation bearer: matcher match_bearer
  by unfold_locales (use match_bearer_split in blast)+

lemma match_words_split: "match_words ws s = Some (a, r) \<Longrightarrow> s = a @ r"
proof (induction ws)
  case Nil
  then obtain api s1 where api: "match_fold ''api'' s = Some (api, s1)"
    by (auto split: option.splits)
  define sep where "sep = (if take 1 s1 = ''_'' \<or> take 1 s1 = ''-'' then take 1 s1 else [])"
  have sep: "sep @ drop (length sep) s1 = s1" by (cases s1) (auto simp: sep_def)
  obtain key where key: "match_fold ''key'' (drop (length sep) s1) = Some (key, r)" "a = api @ sep @ key"
    using Nil api by (auto simp: sep_def Let_def split: option.splits)
  show ?case
    using match_fold_split [OF api] match_fold_split [OF key(1)] sep key(2) by (metis append_assoc)
next
  case (Cons w ws)
  then show ?case by (auto split: option.splits dest: match_fold_split)
qed

lemma quote_opt_split: "quote_opt s = (q, r) \<Longrightarrow> s = q @ r"
  by (cases s) (auto simp: quote_opt_def split: if_splits)

lemma match_field_split: "match_field s = Some (k, x, r) \<Longrightarrow> s = k @ x @ r \<and> x \<noteq> []"
proof -
  assume m: "match_field s = Some (k, x, r)"
  obtain q1 s1 where q1: "quote_opt s = (q1, s1)" by fastforce
  with m obtain w s2 where w: "match_words credential_words s1 = Some (w, s2)"
    by (auto simp: match_field_def split: option.splits)
  obtain q2 s3 where q2: "quote_opt s2 = (q2, s3)" by fastforce
  let ?s4 = "dropWhile re_space s3"
  let ?s5 = "dropWhile re_space (drop 1 ?s4)"
  have res: "k = q1 @ w @ q2 @ takeWhile re_space s3 @ take 1 ?s4 @ takeWhile re_space (drop 1 ?s4)"
    "x = take (secret_length ?s5) ?s5" "r = drop (secret_length ?s5) ?s5" "secret_length ?s5 \<noteq> 0"
    using m q1 w q2 by (auto simp: match_field_def Let_def split: if_splits)
  have five: "takeWhile re_space (drop 1 ?s4) @ x @ r = drop 1 ?s4" using res(2,3) by simp
  have four: "takeWhile re_space s3 @ take 1 ?s4 @ drop 1 ?s4 = s3" by (metis append_take_drop_id takeWhile_dropWhile_id)
  have "secret_length [] = 0" by (simp add: secret_length_def quoted_value_def)
  then have "?s5 \<noteq> []" using res(4) by metis
  then have "x \<noteq> []" using res(2,4) by simp
  moreover have "s = q1 @ w @ q2 @ s3"
    using quote_opt_split [OF q1] match_words_split [OF w] quote_opt_split [OF q2] by simp
  then have "s = k @ x @ r" unfolding res(1) using four five by (metis append_assoc)
  ultimately show ?thesis by blast
qed

interpretation field: matcher match_field
  by unfold_locales (use match_field_split in blast)+

lemma match_ansi_split: "match_ansi s = Some (k, x, r) \<Longrightarrow> k = [] \<and> s = x @ r \<and> x \<noteq> []"
proof -
  assume m: "match_ansi s = Some (k, x, r)"
  let ?s1 = "dropWhile (\<lambda>c. CHR ''0'' \<le> c \<and> c \<le> CHR ''?'') (drop 2 s)"
  let ?s2 = "dropWhile (\<lambda>c. CHR '' '' \<le> c \<and> c \<le> CHR ''/'') ?s1"
  from m obtain c where c: "?s2 = c # r" and res: "k = []" "x = take (length s - length r) s"
    by (auto simp: match_ansi_def Let_def split: list.splits if_splits)
  have "suffix ?s2 s"
    by (metis suffix_dropWhile suffix_drop suffix_order.trans)
  then obtain a where "s = (a @ [c]) @ r" using c by (auto simp: suffix_def)
  with res show ?thesis by simp
qed

interpretation ansi: matcher match_ansi
  by unfold_locales (use match_ansi_split in auto)

end
