(* ===== verification/Redact_Safety.thy ===== *)
theory Redact_Safety
  imports Redact
begin

text \<open>
  What replacing the matches of an expression leaves behind: the contract under which no position of
  the result matches with a secret any more, and the expressions for URI credentials and bearer
  tokens as instances of it.
\<close>

section \<open>What a replacement leaves\<close>

text \<open>
  A replacement is complete when no position of the result matches again with a secret that is not
  allowed. It is enough that replacing a match does not turn an earlier position that did not match
  into one that does, and that what is put in place of a match is itself allowed.
\<close>

lemma append_cases:
  assumes "a @ b = c @ d"
  obtains (left) v where "a = c @ v" "d = v @ b" | (right) v where "c = a @ v" "v \<noteq> []" "b = v @ d"
proof -
  from assms obtain us where "a = c @ us \<and> us @ b = d \<or> a @ us = c \<and> b = us @ d"
    by (auto simp: append_eq_append_conv2)
  with left right show thesis by (cases "us = []") auto
qed

lemma HasPrefix_before: "v \<noteq> [] \<Longrightarrow> last v \<notin> set p \<Longrightarrow> HasPrefix (v @ z) p = HasPrefix v p"
proof
  assume v: "v \<noteq> []" "last v \<notin> set p" and "HasPrefix (v @ z) p"
  then obtain q where "v @ z = p @ q" by (auto simp: HasPrefix_iff)
  then show "HasPrefix v p"
  proof (cases rule: append_cases)
    case (right u)
    with v show ?thesis by simp
  qed simp
qed (auto simp: HasPrefix_iff)

lemma suffix_append_cases:
  assumes "suffix u (a @ b)"
  obtains (later) "suffix u b" | (across) v where "u = v @ b" "suffix v a" "v \<noteq> []"
  using assms by (metis append_Nil suffix_append suffix_order.refl)

locale redactor = matcher +
  fixes new :: string and harmless :: "string \<Rightarrow> bool"
  assumes stable: "m (k @ x @ r) = Some (k, x, r) \<Longrightarrow> m (t @ k @ x @ r) = None \<Longrightarrow>
      m (t @ k @ new @ r') = Some (k', x', r'') \<Longrightarrow> harmless x'"
    and inside: "m (k @ x @ r) = Some (k, x, r) \<Longrightarrow> suffix b (k @ new) \<Longrightarrow> b \<noteq> [] \<Longrightarrow>
      m (b @ r') = Some (k', x', r'') \<Longrightarrow> harmless x'"
begin

lemma clean:
  assumes "suffix u (subst new s)" and "m u = Some (k', x', r'')"
  shows "harmless x'"
  using assms
proof (induction s rule: subst_induct)
  case (match s k x r)
  have own: "m (k @ x @ r) = Some (k, x, r)" using match(1) split by metis
  from match(3) have "suffix u ((k @ new) @ subst new r)" by (simp add: subst_match [OF match(1)])
  then show ?case
    using match inside [OF own] by (cases rule: suffix_append_cases) blast+
next
  case (skip c s)
  show ?case
  proof (cases "suffix u (subst new s)")
    case True
    with skip show ?thesis by blast
  next
    case False
    with skip have u: "u = c # subst new s" by (simp add: subst_skip suffix_Cons)
    from subst_first [of new s] show ?thesis
    proof
      assume "subst new s = s"
      with u skip show ?thesis by simp
    next
      assume "\<exists>t k x r. s = t @ k @ x @ r \<and> m (k @ x @ r) = Some (k, x, r) \<and> subst new s = t @ k @ new @ subst new r"
      then obtain t k x r where "s = t @ k @ x @ r" "m (k @ x @ r) = Some (k, x, r)"
        "subst new s = t @ k @ new @ subst new r" by blast
      with u skip stable [of k x r "c # t" "subst new r" k' x' r''] show ?thesis by simp
    qed
  qed
next
  case nil
  then show ?case using split taken by fastforce
qed

end

text \<open>The positions of a URI: nothing of the scheme can be taken for the separator and nothing of it for the user part.\<close>

lemma scheme_plain: "scheme_char c \<Longrightarrow> c \<notin> set '':/@''" "is_alpha c \<Longrightarrow> c \<notin> set '':/@[]''"
  by (auto simp: scheme_char_def is_alpha_def is_digit_def less_eq_char_def)

lemma uri_found:
  assumes "is_alpha c" "list_all scheme_char sch" "w \<noteq> []" "list_all credential_char w"
  shows "match_uri ((c # sch @ ''://'') @ w @ ''@'' @ z) = Some (c # sch @ ''://'', w @ ''@'', z)"
  unfolding match_uri_iff using assms by auto

lemma uri_one_colon:
  assumes "(c # sch) @ ''://'' = s @ ''://'' @ v" "v \<noteq> []"
  shows "CHR '':'' \<in> set (c # sch)"
  using assms(1)
proof (cases rule: append_cases)
  case (left w)
  with assms(2) have "w \<noteq> []" by auto
  with left have "hd w = CHR '':''" by (cases w) auto
  with left(1) hd_in_set [OF \<open>w \<noteq> []\<close>] show ?thesis by auto
next
  case (right w)
  with arg_cong [OF right(3), of length] show ?thesis by simp
qed

lemma uri_stable:
  assumes own: "match_uri (k @ x @ r) = Some (k, x, r)" and none: "match_uri (t @ k @ x @ r) = None"
    and some: "match_uri (t @ k @ uri_new @ r') = Some (k', x', r'')"
  shows False
proof -
  from own obtain c0 sch0 u0 where k: "k = c0 # sch0 @ ''://''" "x = u0 @ ''@''" "u0 \<noteq> []" "list_all credential_char u0"
    by (auto simp: match_uri_iff)
  from some obtain c sch u where e: "t @ k @ uri_new @ r' = c # sch @ ''://'' @ u @ ''@'' @ r''"
    and ok: "is_alpha c" "list_all scheme_char sch" "u \<noteq> []" "list_all credential_char u"
    by (auto simp: match_uri_iff)
  let ?P = "t @ k" let ?Q = "c # sch @ ''://''"
  have plain: "CHR '':'' \<notin> set (c # sch)" using ok(1,2) scheme_plain by (fastforce simp: list_all_iff)
  have keeps: "match_uri (?Q @ w @ ''@'' @ z) \<noteq> None" if "w \<noteq> []" "list_all credential_char w" for w z
    using uri_found [OF ok(1,2) that] by simp
  have "?P @ uri_new @ r' = ?Q @ u @ ''@'' @ r''" using e by simp
  then show False
  proof (cases rule: append_cases)
    case (right v)
    then show False using uri_one_colon [of c sch "t @ c0 # sch0" v] plain by (simp add: k(1))
  next
    case (left v)
    show False
    proof (cases "v = []")
      case True
      then have "t @ k @ x @ r = ?Q @ u0 @ ''@'' @ r" using left(1) k(2) by (metis append.right_neutral append_assoc)
      with none keeps [OF k(3,4)] show False by metis
    next
      case False
      then have "last v = last ?P" using left(1) by simp
      then have slash: "CHR ''/'' \<in> set v" using False k(1) last_in_set [of v] by simp
      from left(2) show False
      proof (cases rule: append_cases)
        case (left w)
        with slash ok(4) show False by (auto simp: credential_char_def list_all_iff)
      next
        case (right w)
        then obtain w' where "v = u @ ''@'' @ w'" by (cases w) auto
        then have "t @ k @ x @ r = ?Q @ u @ ''@'' @ w' @ x @ r" using left(1) by (metis append_assoc)
        with none keeps [OF ok(3,4)] show False by metis
      qed
    qed
  qed
qed

lemma uri_suffix:
  assumes b: "suffix b ((c0 # sch0) @ ''://'' @ uri_new)" "b \<noteq> []" and plain: "set (c # sch) \<inter> set '':/@'' = {}"
    and e: "b @ r' = (c # sch) @ ''://'' @ rest"
  obtains s0 where "b = s0 @ ''://'' @ uri_new" "suffix s0 (c0 # sch0)"
  using b(1)
proof (cases rule: suffix_append_cases)
  case later
  then obtain a where a: "''://'' @ uri_new = a @ b" by (auto simp: suffix_def)
  have "last b = last (''://'' @ uri_new)" using a b(2) by simp
  then have at: "CHR ''@'' \<in> set b" using last_in_set [OF b(2)] by (simp add: uri_new_def)
  have tail: "CHR '':'' \<notin> set (tl b)"
  proof (cases a)
    case Nil
    with a have "tl b = ''//'' @ uri_new" by (metis append_Nil append_Cons list.sel(3))
    then show ?thesis by (simp add: uri_new_def redacted_def)
  next
    case (Cons _ a')
    with a have "''//'' @ uri_new = a' @ b" by simp
    then have "set b \<subseteq> set (''//'' @ uri_new)" by (metis Un_upper2 set_append)
    then have "CHR '':'' \<notin> set b" by (auto simp: uri_new_def redacted_def)
    then show ?thesis by (metis list.set_sel(2) tl_Nil)
  qed
  from e have False
  proof (cases rule: append_cases)
    case (left v)
    show False
    proof (cases v)
      case Nil
      with left(1) at plain show False by auto
    next
      case (Cons d v')
      with left tail show False by simp
    qed
  next
    case (right v)
    have "CHR ''@'' \<in> set (c # sch)" unfolding right(1) using at by simp
    with plain show False by auto
  qed
  then show thesis ..
next
  case (across v)
  with that show thesis by blast
qed

lemma uri_inside:
  assumes own: "match_uri (k @ x @ r) = Some (k, x, r)" and b: "suffix b (k @ uri_new)" "b \<noteq> []"
    and some: "match_uri (b @ r') = Some (k', x', r'')"
  shows "x' = uri_new"
proof -
  from own obtain c0 sch0 where k: "k = c0 # sch0 @ ''://''" "is_alpha c0" "list_all scheme_char sch0"
    by (auto simp: match_uri_iff)
  from some obtain c sch u where e: "b @ r' = (c # sch) @ ''://'' @ u @ ''@'' @ r''"
    and ok: "is_alpha c" "list_all scheme_char sch" "u \<noteq> []" "list_all credential_char u" and x': "x' = u @ ''@''"
    by (auto simp: match_uri_iff)
  have plain: "set (c # sch) \<inter> set '':/@'' = {}" "set (c0 # sch0) \<inter> set '':/@'' = {}"
    using ok(1,2) k(2,3) scheme_plain by (fastforce simp: list_all_iff)+
  have "suffix b ((c0 # sch0) @ ''://'' @ uri_new)" using b(1) k(1) by simp
  from uri_suffix [OF this b(2) plain(1) e] obtain s0 where s0: "b = s0 @ ''://'' @ uri_new" "suffix s0 (c0 # sch0)" .
  have "s0 @ ''://'' @ uri_new @ r' = (c # sch) @ ''://'' @ u @ ''@'' @ r''" using e s0(1) by simp
  then show ?thesis
  proof (cases rule: append_cases)
    case (left v)
    have "v = []"
    proof (rule ccontr)
      assume "v \<noteq> []"
      then have "CHR '':'' \<in> set s0" using left by (cases v) auto
      then show False using s0(2) plain(2) by (metis disjoint_iff list.set_intros(1) set_mono_suffix subsetD)
    qed
    with left(2) have "u @ CHR ''@'' # r'' = redacted @ CHR ''@'' # r'" by (simp add: uri_new_def)
    moreover have "CHR ''@'' \<notin> set u" "CHR ''@'' \<notin> set redacted"
      using ok(4) by (auto simp: credential_char_def list_all_iff redacted_def)
    ultimately show ?thesis using x' by (metis Cut_append uri_new_def option.inject prod.inject)
  next
    case (right v)
    then have "CHR '':'' \<in> set (c # sch)" by (cases v) auto
    with plain(1) show ?thesis by auto
  qed
qed

interpretation uri: redactor match_uri uri_new "\<lambda>x. x = uri_new"
proof unfold_locales
  fix k x r t r' k' x' r''
  show "match_uri (k @ x @ r) = Some (k, x, r) \<Longrightarrow> match_uri (t @ k @ x @ r) = None \<Longrightarrow>
      match_uri (t @ k @ uri_new @ r') = Some (k', x', r'') \<Longrightarrow> x' = uri_new"
    using uri_stable by blast
next
  fix k x r b r' k' x' r''
  show "match_uri (k @ x @ r) = Some (k, x, r) \<Longrightarrow> suffix b (k @ uri_new) \<Longrightarrow> b \<noteq> [] \<Longrightarrow>
      match_uri (b @ r') = Some (k', x', r'') \<Longrightarrow> x' = uri_new"
    using uri_inside by blast
qed

text \<open>The same for bearer tokens, where nothing is left that matches.\<close>

definition same_fold :: "char \<Rightarrow> char \<Rightarrow> bool" where
  "same_fold l c \<longleftrightarrow> c = l \<or> is_alpha c \<and> is_alpha l \<and> of_char l = (of_char c :: nat) + 32"

lemma match_fold_iff:
  "set l \<inter> {CHR ''k'', CHR ''s''} = {} \<Longrightarrow> match_fold l s = Some (w, r) \<longleftrightarrow> s = w @ r \<and> list_all2 same_fold l w"
proof (induction l arbitrary: s w)
  case (Cons c l)
  show ?case
  proof (cases s)
    case Nil
    with Cons.prems show ?thesis by (auto simp: match_fold.simps fold_char_def)
  next
    case (Cons d s')
    with Cons.prems Cons.IH show ?thesis
      by (cases w) (auto simp: match_fold.simps fold_char_def same_fold_def split: option.splits)
  qed
qed (auto simp: match_fold.simps)

lemma same_fold_alpha: "same_fold l c \<Longrightarrow> is_alpha l \<Longrightarrow> is_alpha c"
  by (auto simp: same_fold_def)

definition bearer_word :: "string \<Rightarrow> bool" where
  "bearer_word w \<longleftrightarrow> list_all2 same_fold ''bearer'' w"

lemma bearer_word_plain:
  assumes "bearer_word w"
  shows "length w = 6" "list_all is_alpha w" "hd w \<in> {CHR ''b'', CHR ''B''}" "w \<noteq> []"
proof -
  show "length w = 6" using assms by (auto simp: bearer_word_def dest: list_all2_lengthD)
  then show "w \<noteq> []" by auto
  show "list_all is_alpha w"
  proof -
    have "same_fold (''bearer'' ! i) (w ! i)" "is_alpha (''bearer'' ! i)" if "i < 6" for i
    proof -
      show "same_fold (''bearer'' ! i) (w ! i)" using assms that by (simp add: bearer_word_def list_all2_conv_all_nth)
      have "list_all is_alpha ''bearer''" by (simp add: is_alpha_def less_eq_char_def)
      then show "is_alpha (''bearer'' ! i)" using that by (simp add: list_all_length)
    qed
    then have "is_alpha (w ! i)" if "i < 6" for i using that same_fold_alpha by blast
    then show ?thesis using \<open>length w = 6\<close> by (simp add: list_all_length)
  qed
  from assms obtain c where c: "hd w = c" "same_fold CHR ''b'' c" unfolding bearer_word_def by (auto simp: list_all2_Cons1)
  have "c = CHR ''B''" if "of_char c = (66 :: nat)"
  proof -
    have "(of_char c :: nat) = of_char CHR ''B''" using that by simp
    then show ?thesis by (simp only: of_char_eq_iff)
  qed
  with c show "hd w \<in> {CHR ''b'', CHR ''B''}" by (auto simp: same_fold_def)
qed

lemma token_prefix_pos:
  "0 < token_prefix y \<longleftrightarrow> y \<noteq> [] \<and> (token_char (hd y) \<or> HasPrefix y kelvin \<or> HasPrefix y long_s)"
  by (cases y) auto

lemma token_start:
  assumes "0 < token_prefix y"
  shows "\<not> re_space (hd y)" "hd y \<noteq> CHR ''[''"
proof -
  have "token_char (hd y) \<or> hd y = CHR 0xE2 \<or> hd y = CHR 0xC5"
    using assms unfolding token_prefix_pos by (cases y) (auto simp: HasPrefix_def kelvin_def long_s_def)
  then show "\<not> re_space (hd y)" "hd y \<noteq> CHR ''[''"
    by (auto simp: token_char_def is_alpha_def is_digit_def re_space_def less_eq_char_def)
qed

lemma match_bearer_Some:
  assumes "match_bearer s = Some (k, x, r)"
  obtains w g where "k = w @ g" "bearer_word w" "g \<noteq> []" "list_all re_space g" "0 < token_prefix (x @ r)" "s = w @ g @ x @ r"
proof -
  from assms obtain w s1 where w: "match_fold ''bearer'' s = Some (w, s1)"
    by (auto simp: match_bearer_def split: option.splits)
  let ?y = "dropWhile re_space s1"
  have "k = w @ takeWhile re_space s1" "takeWhile re_space s1 \<noteq> []" "x @ r = ?y" "0 < token_prefix ?y"
    using assms w by (auto simp: match_bearer_def Let_def split: if_splits)
  moreover have "list_all re_space (takeWhile re_space s1)" by (meson list_all_iff set_takeWhileD)
  moreover have "s = w @ s1" "bearer_word w" using w match_fold_iff [of "''bearer''"] by (auto simp: bearer_word_def)
  ultimately show thesis using that by (metis takeWhile_dropWhile_id)
qed

lemma match_bearer_some:
  assumes "bearer_word w" "g \<noteq> []" "list_all re_space g" "0 < token_prefix y"
  shows "match_bearer (w @ g @ y) \<noteq> None"
proof -
  have y: "y \<noteq> []" "\<not> re_space (hd y)" using assms(4) token_start(1) by (auto simp: token_prefix_pos)
  then have "takeWhile re_space (g @ y) = g" "dropWhile re_space (g @ y) = y"
    using assms(3) by (cases y; simp add: list_all_iff takeWhile_append2 dropWhile_append2)+
  moreover have "match_fold ''bearer'' (w @ g @ y) = Some (w, g @ y)"
    using assms(1) match_fold_iff [of "''bearer''"] by (simp add: bearer_word_def)
  ultimately show ?thesis using assms(2,4) by (simp add: match_bearer_def Let_def)
qed

lemma redacted_head: "redacted @ r = CHR ''['' # tl redacted @ r"
  by (simp add: redacted_def)

lemma bearer_keep:
  assumes none: "match_bearer (p @ z) = None" and p: "p \<noteq> []" "last p \<notin> set kelvin \<union> set long_s"
    and some: "match_bearer (p @ redacted @ r') = Some (k', x', r'')"
  shows False
proof -
  from some obtain w g where w: "bearer_word w" "g \<noteq> []" "list_all re_space g"
    and y: "0 < token_prefix (x' @ r'')" "p @ redacted @ r' = w @ g @ x' @ r''"
    by (elim match_bearer_Some) blast
  have "p @ redacted @ r' = (w @ g) @ x' @ r''" using y(2) by simp
  then show False
  proof (cases rule: append_cases)
    case (right v)
    then have "CHR ''['' \<in> set (w @ g)" using redacted_head by (cases v) auto
    moreover have "\<not> is_alpha CHR ''[''" "\<not> re_space CHR ''[''"
      by (simp_all add: is_alpha_def re_space_def less_eq_char_def)
    ultimately show False using w(3) bearer_word_plain(2) [OF w(1)] by (auto simp: list_all_iff)
  next
    case (left v)
    have v: "v \<noteq> []" using token_start(2) [OF y(1)] left(2) redacted_head by auto
    then have "last v \<notin> set kelvin \<union> set long_s" using left(1) p(2) by simp
    then have "HasPrefix (v @ u) q = HasPrefix v q" if "q = kelvin \<or> q = long_s" for q u
      using that v HasPrefix_before by auto
    then have "0 < token_prefix (v @ z)" using y(1) left(2) v by (simp add: token_prefix_pos)
    with match_bearer_some [OF w] none left(1) show False by (metis append_assoc)
  qed
qed

lemma ascii_not_folding: "of_char c < (0x80 :: nat) \<Longrightarrow> c \<notin> set kelvin \<union> set long_s"
  by (auto simp: kelvin_def long_s_def)

lemma re_space_ascii: "re_space c \<Longrightarrow> of_char c < (0x80 :: nat)"
  by (auto simp: re_space_def)

lemma bearer_stable:
  assumes own: "match_bearer (k @ x @ r) = Some (k, x, r)" and none: "match_bearer (t @ k @ x @ r) = None"
    and some: "match_bearer (t @ k @ redacted @ r') = Some (k', x', r'')"
  shows False
proof -
  from own obtain w0 g0 where k: "k = w0 @ g0" "g0 \<noteq> []" "list_all re_space g0" by (elim match_bearer_Some) blast
  then have "re_space (last (t @ k))" using last_in_set [of g0] by (simp add: list_all_iff)
  then have "last (t @ k) \<notin> set kelvin \<union> set long_s" by (intro ascii_not_folding re_space_ascii)
  with bearer_keep [of "t @ k" "x @ r"] none some k(1,2) show False by simp
qed

lemma bearer_inside:
  assumes own: "match_bearer (k @ x @ r) = Some (k, x, r)" and b: "suffix b (k @ redacted)" "b \<noteq> []"
    and some: "match_bearer (b @ r') = Some (k', x', r'')"
  shows False
proof -
  from own obtain w0 g0 where k: "k = w0 @ g0" "bearer_word w0" "g0 \<noteq> []" "list_all re_space g0"
    by (elim match_bearer_Some) blast
  from some obtain w g where w: "bearer_word w" "g \<noteq> []" "list_all re_space g"
    and y: "0 < token_prefix (x' @ r'')" "b @ r' = w @ g @ x' @ r''"
    by (elim match_bearer_Some) blast
  have "suffix b (w0 @ g0 @ redacted)" using b(1) k(1) by simp
  then show False
  proof (cases rule: suffix_append_cases)
    case later
    have "hd b = hd w" using y(2) b(2) bearer_word_plain(4) [OF w(1)] by (metis hd_append2)
    then have "hd b \<in> {CHR ''b'', CHR ''B''}" using bearer_word_plain(3) [OF w(1)] by simp
    moreover have "hd b \<in> set g0 \<union> set redacted"
      using later b(2) set_mono_suffix by (metis hd_in_set set_append subsetD)
    moreover have "hd b \<notin> set redacted" "\<not> re_space (hd b)" using calculation(1) by (auto simp: redacted_def re_space_def)
    ultimately show False using k(4) by (auto simp: list_all_iff)
  next
    case (across v)
    have "v @ g0 @ redacted @ r' = w @ g @ x' @ r''" using across(1) y(2) by simp
    then show False
    proof (cases rule: append_cases)
      case (right z)
      then have "hd g0 \<in> set w" using k(3) by (cases z; cases g0) auto
      moreover have "re_space (hd g0)" using k(3,4) by (cases g0) auto
      ultimately show False using bearer_word_plain(2) [OF w(1)]
        by (auto simp: list_all_iff is_alpha_def re_space_def less_eq_char_def)
    next
      case (left z)
      have "length v \<le> 6" using across(2) bearer_word_plain(1) [OF k(2)] suffix_length_le by fastforce
      then have "z = []" using left(1) bearer_word_plain(1) [OF w(1)] by simp
      with left(2) have "dropWhile re_space (g @ x' @ r'') = dropWhile re_space (g0 @ redacted @ r')" by simp
      then have "dropWhile re_space (x' @ r'') = dropWhile re_space (redacted @ r')"
        using w(3) k(4) by (simp add: list_all_iff dropWhile_append2)
      moreover have "dropWhile re_space (redacted @ r') = redacted @ r'"
        by (simp add: redacted_def re_space_def)
      moreover have "dropWhile re_space (x' @ r'') = x' @ r''"
        using token_start(1) [OF y(1)] by (metis dropWhile_eq_self_iff)
      ultimately show False using token_start(2) [OF y(1)] redacted_head by simp
    qed
  qed
qed

interpretation bearer: redactor match_bearer redacted "\<lambda>_. False"
proof unfold_locales
  fix k x r t r' k' x' r''
  show "match_bearer (k @ x @ r) = Some (k, x, r) \<Longrightarrow> match_bearer (t @ k @ x @ r) = None \<Longrightarrow>
      match_bearer (t @ k @ redacted @ r') = Some (k', x', r'') \<Longrightarrow> False"
    using bearer_stable by blast
next
  fix k x r b r' k' x' r''
  show "match_bearer (k @ x @ r) = Some (k, x, r) \<Longrightarrow> suffix b (k @ redacted) \<Longrightarrow> b \<noteq> [] \<Longrightarrow>
      match_bearer (b @ r') = Some (k', x', r'') \<Longrightarrow> False"
    using bearer_inside by blast
qed

end
