(* ===== verification/Redact_Text.thy ===== *)
theory Redact_Text
  imports Redact_Safety
begin

text \<open>
  What \<open>internal/redact\<close> guarantees of the text it returns. \<open>Text\<close> leaves no bearer token and no credential
  field with a value; \<open>TerminalText\<close> also returns valid UTF-8 without C0 controls and of bounded length.
\<close>

section \<open>Credential fields\<close>

text \<open>
  What a field holds in the result starts with the replacement. A literal
  under \<open>(?i)\<close> determines the letter it stands for, so at most one of the words matches at a position.
\<close>

definition lower_letter :: "char \<Rightarrow> bool" where
  "lower_letter c \<longleftrightarrow> CHR ''a'' \<le> c \<and> c \<le> CHR ''z''"

text \<open>The letter that the text at a position stands for, and the bytes of it.\<close>

definition folded :: "string \<Rightarrow> (char \<times> string) option" where
  "folded s =
     (if HasPrefix s kelvin then Some (CHR ''k'', kelvin)
      else if HasPrefix s long_s then Some (CHR ''s'', long_s)
      else case s of
        [] \<Rightarrow> None
      | c # _ \<Rightarrow> if lower_letter c then Some (c, [c])
                 else if is_alpha c then Some (char_of (of_char c + (32 :: nat)), [c]) else None)"

lemma upper_char: "is_alpha c \<Longrightarrow> is_alpha l \<Longrightarrow> of_char l = (of_char c :: nat) + 32 \<Longrightarrow>
    \<not> lower_letter c \<and> l = char_of (of_char c + (32 :: nat))"
proof
  assume a: "is_alpha c" "is_alpha l" "of_char l = (of_char c :: nat) + 32"
  then show "l = char_of (of_char c + (32 :: nat))" by (metis char_of_char)
  show "\<not> lower_letter c"
    using a by (auto simp: is_alpha_def lower_letter_def less_eq_char_def)
qed

lemma fold_char_iff:
  assumes "lower_letter l"
  shows "fold_char l s = Some (b, s') \<longleftrightarrow> folded s = Some (l, b) \<and> s = b @ s'"
proof -
  consider (kelvin) z where "s = kelvin @ z" | (long) z where "s = long_s @ z"
    | (plain) "\<not> HasPrefix s kelvin" "\<not> HasPrefix s long_s" by (auto simp: HasPrefix_iff)
  then show ?thesis
  proof cases
    case kelvin
    moreover have "\<not> HasPrefix (kelvin @ z) long_s" by (simp add: HasPrefix_def kelvin_def long_s_def)
    moreover have "\<not> (CHR 0xE2 = l \<or> is_alpha CHR 0xE2)"
      using assms by (auto simp: lower_letter_def is_alpha_def less_eq_char_def)
    ultimately show ?thesis
      by (auto simp: fold_char_def folded_def kelvin_def)
  next
    case long
    moreover have "\<not> HasPrefix (long_s @ z) kelvin" by (simp add: HasPrefix_def kelvin_def long_s_def)
    moreover have "\<not> (CHR 0xC5 = l \<or> is_alpha CHR 0xC5)"
      using assms by (auto simp: lower_letter_def is_alpha_def less_eq_char_def)
    ultimately show ?thesis
      by (auto simp: fold_char_def folded_def long_s_def)
  next
    case plain
    show ?thesis
    proof (cases s)
      case Nil
      with plain show ?thesis by (simp add: fold_char_def folded_def)
    next
      case (Cons c z)
      have "(c = l \<or> is_alpha c \<and> is_alpha l \<and> of_char l = (of_char c :: nat) + 32) \<longleftrightarrow>
        (if lower_letter c then c = l else is_alpha c \<and> l = char_of (of_char c + (32 :: nat)))"
        using assms upper_char [of c l] by (auto simp: lower_letter_def is_alpha_def less_eq_char_def)
      with plain Cons show ?thesis by (auto simp: fold_char_def folded_def split: if_splits)
    qed
  qed
qed

lemma folded_cases:
  assumes "folded s = Some (l, b)"
  obtains "b = kelvin" "l = CHR ''k''" | "b = long_s" "l = CHR ''s''"
    | c where "b = [c]" "is_alpha c" "l = (if lower_letter c then c else char_of (of_char c + (32 :: nat)))"
proof -
  have "is_alpha c" if "lower_letter c" for c using that by (auto simp: lower_letter_def is_alpha_def)
  with assms have "b = kelvin \<and> l = CHR ''k'' \<or> b = long_s \<and> l = CHR ''s'' \<or>
    (\<exists>c. b = [c] \<and> is_alpha c \<and> l = (if lower_letter c then c else char_of (of_char c + (32 :: nat))))"
    by (auto simp: folded_def split: if_splits list.splits)
  with that show thesis by blast
qed

lemma alpha_not_folding: "is_alpha c \<Longrightarrow> \<not> HasPrefix (c # z) kelvin \<and> \<not> HasPrefix (c # z) long_s"
  by (auto simp: HasPrefix_def kelvin_def long_s_def is_alpha_def less_eq_char_def)

lemma folded_local: "folded s = Some (l, b) \<Longrightarrow> folded (b @ z) = Some (l, b)"
proof (elim folded_cases)
  fix c assume "b = [c]" "is_alpha c" "l = (if lower_letter c then c else char_of (of_char c + (32 :: nat)))"
  then show ?thesis using alpha_not_folding [of c] by (simp add: folded_def)
next
  assume "b = long_s" "l = CHR ''s''"
  then show ?thesis by (simp add: folded_def) (simp add: HasPrefix_def kelvin_def long_s_def)
qed (simp add: folded_def)

text \<open>Words of lower-case letters: the text taken is the same whatever follows, and two words match only if one starts the other.\<close>

lemma match_fold_local:
  "list_all lower_letter w \<Longrightarrow> match_fold w s = Some (a, r) \<Longrightarrow> match_fold w (a @ z) = Some (a, z)"
proof (induction w arbitrary: s a)
  case (Cons l ls)
  then obtain b s' a' where b: "fold_char l s = Some (b, s')" "match_fold ls s' = Some (a', r)" "a = b @ a'"
    by (auto simp: match_fold.simps split: option.splits)
  from b(1) Cons.prems(1) have "folded s = Some (l, b)" by (auto simp: fold_char_iff)
  then have "folded (b @ a' @ z) = Some (l, b)" by (rule folded_local)
  then have "fold_char l (b @ a' @ z) = Some (b, a' @ z)" using Cons.prems(1) by (simp add: fold_char_iff)
  moreover have "match_fold ls (a' @ z) = Some (a', z)" using Cons.IH [OF _ b(2)] Cons.prems(1) by simp
  ultimately show ?case using b(3) by (simp add: match_fold.simps)
qed (simp add: match_fold.simps)

lemma match_fold_comparable:
  "list_all lower_letter w \<Longrightarrow> list_all lower_letter w' \<Longrightarrow> match_fold w s \<noteq> None \<Longrightarrow> match_fold w' s \<noteq> None \<Longrightarrow>
   prefix w w' \<or> prefix w' w"
proof (induction w arbitrary: w' s)
  case (Cons l ls)
  show ?case
  proof (cases w')
    case (Cons l' ls')
    with Cons.prems obtain b s' b' s'' where "fold_char l s = Some (b, s')" "match_fold ls s' \<noteq> None"
      "fold_char l' s = Some (b', s'')" "match_fold ls' s'' \<noteq> None"
      by (auto simp: match_fold.simps split: option.splits)
    moreover from this(1,3) have "l = l'" "b = b'" "s' = s''"
      using Cons Cons.prems(1,2) by (auto simp: fold_char_iff)
    ultimately show ?thesis using Cons Cons.IH [of ls' s'] Cons.prems(1,2) by simp
  qed simp
qed simp

definition word_char :: "char \<Rightarrow> bool" where
  "word_char c \<longleftrightarrow> is_alpha c \<or> 0x80 \<le> (of_char c :: nat)"

lemma folded_chars: "folded s = Some (l, b) \<Longrightarrow> b \<noteq> [] \<and> list_all word_char b"
  by (elim folded_cases) (auto simp: word_char_def kelvin_def long_s_def)

lemma match_fold_chars:
  "list_all lower_letter w \<Longrightarrow> match_fold w s = Some (a, r) \<Longrightarrow> list_all word_char a \<and> (w \<noteq> [] \<longrightarrow> a \<noteq> [])"
proof (induction w arbitrary: s a)
  case (Cons l ls)
  then obtain b s' a' where b: "fold_char l s = Some (b, s')" "match_fold ls s' = Some (a', r)" "a = b @ a'"
    by (auto simp: match_fold.simps split: option.splits)
  from b(1) Cons.prems(1) have "folded s = Some (l, b)" by (auto simp: fold_char_iff)
  then show ?case using Cons.IH [OF _ b(2)] Cons.prems(1) b(3) folded_chars by simp
qed (simp add: match_fold.simps)

lemma match_words_literal:
  "match_words ws s = Some p \<Longrightarrow> \<exists>v \<in> set ws \<union> {''api''}. match_fold v s \<noteq> None"
  by (induction ws) (force split: option.splits)+

definition incomparable :: "string \<Rightarrow> string \<Rightarrow> bool" where
  "incomparable v w \<longleftrightarrow> \<not> prefix v w \<and> \<not> prefix w v"

lemma match_words_local:
  "sorted_wrt incomparable (ws @ [''api'']) \<Longrightarrow> list_all (list_all lower_letter) (ws @ [''api'', ''key'']) \<Longrightarrow>
   match_words ws s = Some (w, r) \<Longrightarrow> match_words ws (w @ z) = Some (w, z)"
proof (induction ws)
  case Nil
  then obtain api s1 where api: "match_fold ''api'' s = Some (api, s1)" by (auto split: option.splits)
  define sep where "sep = (if take 1 s1 = ''_'' \<or> take 1 s1 = ''-'' then take 1 s1 else [])"
  obtain key where key: "match_fold ''key'' (drop (length sep) s1) = Some (key, r)" "w = api @ sep @ key"
    using Nil api by (auto simp: sep_def Let_def split: option.splits)
  have a: "match_fold ''api'' (api @ sep @ key @ z) = Some (api, sep @ key @ z)"
    using match_fold_local [OF _ api] Nil(2) by simp
  have k: "match_fold ''key'' (key @ z) = Some (key, z)" using match_fold_local [OF _ key(1)] Nil(2) by simp
  obtain c key' where c: "key = c # key'" "word_char c"
    using match_fold_chars [OF _ key(1)] Nil(2) by (cases key) auto
  then have "c \<noteq> CHR ''_''" "c \<noteq> CHR ''-''" by (auto simp: word_char_def is_alpha_def less_eq_char_def)
  moreover have "sep = [] \<or> sep = ''_'' \<or> sep = ''-''" by (auto simp: sep_def)
  ultimately have "(if take 1 (sep @ key @ z) = ''_'' \<or> take 1 (sep @ key @ z) = ''-'' then take 1 (sep @ key @ z) else []) = sep"
    using c(1) by auto
  with a k key(2) show ?case by (simp add: Let_def)
next
  case (Cons v ws)
  show ?case
  proof (cases "match_fold v s")
    case (Some p)
    with Cons.prems match_fold_local [of v s w r z] show ?thesis by simp
  next
    case None
    with Cons have ws: "match_words ws (w @ z) = Some (w, z)" by simp
    then obtain v' where "v' \<in> set ws \<union> {''api''}" "match_fold v' (w @ z) \<noteq> None"
      using match_words_literal [OF ws] by blast
    moreover from this(1) Cons.prems(1,2) have "incomparable v v'" "list_all lower_letter v" "list_all lower_letter v'"
      by (auto simp: list_all_iff)
    ultimately have "match_fold v (w @ z) = None" using match_fold_comparable [of v v' "w @ z"]
      unfolding incomparable_def by blast
    with ws show ?thesis by simp
  qed
qed

lemma credential_words_ok:
  "sorted_wrt incomparable (credential_words @ [''api''])" "list_all (list_all lower_letter) (credential_words @ [''api'', ''key''])"
  "list_all (\<lambda>v. v \<noteq> [] \<and> list_all lower_letter v) (credential_words @ [''api'', ''key''])"
  by (simp_all add: credential_words_def incomparable_def lower_letter_def less_eq_char_def)

lemma match_words_chars:
  "list_all (\<lambda>v. v \<noteq> [] \<and> list_all lower_letter v) (ws @ [''api'', ''key'']) \<Longrightarrow> match_words ws s = Some (w, r) \<Longrightarrow>
   w \<noteq> [] \<and> list_all (\<lambda>c. word_char c \<or> c \<in> set ''_-'') w"
proof (induction ws)
  case Nil
  then obtain api s1 where api: "match_fold ''api'' s = Some (api, s1)" by (auto split: option.splits)
  define sep where "sep = (if take 1 s1 = ''_'' \<or> take 1 s1 = ''-'' then take 1 s1 else [])"
  obtain key where key: "match_fold ''key'' (drop (length sep) s1) = Some (key, r)" "w = api @ sep @ key"
    using Nil api by (auto simp: sep_def Let_def split: option.splits)
  have "list_all word_char api" "api \<noteq> []" "list_all word_char key"
    using match_fold_chars [OF _ api] match_fold_chars [OF _ key(1)] Nil(1) by simp_all
  then show ?case by (auto simp: key(2) list_all_iff sep_def)
next
  case (Cons v ws)
  then show ?case
    using match_fold_chars [of v s w r] by (cases "match_fold v s") (auto simp: list_all_iff)
qed

text \<open>The part of a field before its value, which ends at the value's first byte.\<close>

definition field_head :: "string \<Rightarrow> string \<Rightarrow> char \<Rightarrow> string \<Rightarrow> bool" where
  "field_head k h c g \<longleftrightarrow> k = h @ c # g \<and> c \<in> set '':='' \<and> list_all re_space g \<and>
     set h \<inter> set '':=['' = {} \<and>
     (\<exists>q1 w q2 g1. h = q1 @ w @ q2 @ g1 \<and> q1 \<in> {[], [CHR 0x22]} \<and> q2 \<in> {[], [CHR 0x22]} \<and> list_all re_space g1 \<and>
        (\<forall>z. match_words credential_words (w @ z) = Some (w, z)) \<and> w \<noteq> [] \<and> hd w \<noteq> CHR 0x22)"

lemma secret_length_pos: "0 < secret_length y \<longleftrightarrow> y \<noteq> [] \<and> value_char (hd y)"
proof (cases y)
  case (Cons c z)
  have "value_char CHR 0x22" "value_char CHR 0x27" by (simp_all add: value_char_def re_space_def)
  with Cons show ?thesis
    by (auto simp: secret_length_def quoted_value_def Let_def split: option.splits if_splits)
qed (simp add: secret_length_def quoted_value_def)

lemma word_char_plain: "word_char c \<Longrightarrow> c \<notin> set ''_-:=['' \<and> c \<noteq> CHR 0x22"
  by (auto simp: word_char_def is_alpha_def less_eq_char_def)

lemma match_field_Some:
  assumes m: "match_field s = Some (k, x, r)"
  obtains h c g where "field_head k h c g" "s = k @ x @ r" "0 < secret_length (x @ r)"
    "x = take (secret_length (x @ r)) (x @ r)"
proof -
  obtain q1 s1 where q1: "quote_opt s = (q1, s1)" by fastforce
  with m obtain w s2 where w: "match_words credential_words s1 = Some (w, s2)"
    by (auto simp: match_field_def split: option.splits)
  obtain q2 s3 where q2: "quote_opt s2 = (q2, s3)" by fastforce
  let ?g1 = "takeWhile re_space s3" let ?s4 = "dropWhile re_space s3"
  let ?g = "takeWhile re_space (drop 1 ?s4)" let ?y = "dropWhile re_space (drop 1 ?s4)"
  have res: "k = q1 @ w @ q2 @ ?g1 @ take 1 ?s4 @ ?g" "x = take (secret_length ?y) ?y" "x @ r = ?y"
    "0 < secret_length ?y" "take 1 ?s4 = '':'' \<or> take 1 ?s4 = ''=''"
    using m q1 w q2 by (auto simp: match_field_def Let_def split: if_splits)
  then obtain c where c: "take 1 ?s4 = [c]" "c \<in> set '':=''" by auto
  have q: "q \<in> {[], [CHR 0x22]}" if "quote_opt z = (q, z')" for q z z'
    using that by (auto simp: quote_opt_def split: if_splits)
  have wc: "w \<noteq> []" "list_all (\<lambda>c. word_char c \<or> c \<in> set ''_-'') w"
    using match_words_chars [OF credential_words_ok(3) w] by auto
  have sp: "list_all re_space ?g1" "list_all re_space ?g" by (meson list_all_iff set_takeWhileD)+
  define P where "P c \<longleftrightarrow> re_space c \<or> word_char c \<or> c \<in> set ''_-'' \<or> c = CHR 0x22" for c
  have "list_all P (q1 @ w @ q2 @ ?g1)"
    using q [OF q1] q [OF q2] wc(2) sp(1) by (auto simp: list_all_iff P_def)
  moreover have "c \<notin> set '':=[''" if "P c" for c
    using that word_char_plain [of c] by (auto simp: P_def re_space_def)
  ultimately have "set (q1 @ w @ q2 @ ?g1) \<inter> set '':=['' = {}"
    unfolding list_all_iff by blast
  moreover have "hd w \<noteq> CHR 0x22" using wc word_char_plain [of "hd w"] by (cases w) auto
  moreover have "k = (q1 @ w @ q2 @ ?g1) @ c # ?g" using res(1) c(1) by simp
  moreover have "\<forall>z. match_words credential_words (w @ z) = Some (w, z)"
    using match_words_local [OF credential_words_ok(1,2) w] by blast
  ultimately have "field_head k (q1 @ w @ q2 @ ?g1) c ?g"
    unfolding field_head_def using c(2) sp q [OF q1] q [OF q2] wc(1) by blast
  then show thesis using that match_field_split [OF m] res(2-4) by metis
qed

lemma match_field_some:
  assumes "field_head k h c g" "0 < secret_length y"
  shows "match_field (k @ y) \<noteq> None"
proof -
  from assms(1) obtain q1 w q2 g1 where k: "k = (q1 @ w @ q2 @ g1) @ c # g" "c \<in> set '':=''" "list_all re_space g"
    and q: "q1 \<in> {[], [CHR 0x22]}" "q2 \<in> {[], [CHR 0x22]}" "list_all re_space g1"
    and w: "\<And>z. match_words credential_words (w @ z) = Some (w, z)" "w \<noteq> []" "hd w \<noteq> CHR 0x22"
    unfolding field_head_def by blast
  have c: "\<not> re_space c" "c \<noteq> CHR 0x22" using k(2) by (auto simp: re_space_def)
  have y: "y \<noteq> []" "\<not> re_space (hd y)" using assms(2) by (auto simp: secret_length_pos value_char_def)
  have "\<not> re_space CHR 0x22" by (simp add: re_space_def)
  then have first: "hd (g1 @ c # z) \<noteq> CHR 0x22" for z using q(3) c(2) by (cases g1) auto
  have "quote_opt (q1 @ w @ z) = (q1, w @ z)" for z using q(1) w(2,3) by (cases w) (auto simp: quote_opt_def)
  moreover have "quote_opt (q2 @ g1 @ c # z) = (q2, g1 @ c # z)" for z
    using q(2) first [of z] by (cases "g1 @ c # z") (auto simp: quote_opt_def)
  moreover have "takeWhile re_space (g1 @ c # z) = g1" "dropWhile re_space (g1 @ c # z) = c # z" for z
    using q(3) c(1) by (simp_all add: list_all_iff takeWhile_append2 dropWhile_append2)
  moreover have "dropWhile re_space (g @ y) = y"
    using k(3) y by (cases y) (simp_all add: list_all_iff dropWhile_append2)
  ultimately show ?thesis using k(1,2) w(1) assms(2) by (auto simp: match_field_def Let_def)
qed

lemma field_headD:
  assumes "field_head k h c g"
  shows "k = h @ c # g" "c \<in> {CHR '':'', CHR ''=''}" "set h \<inter> {CHR '':'', CHR ''='', CHR ''[''} = {}"
    "list_all re_space g" "set g \<inter> {CHR '':'', CHR ''='', CHR ''[''} = {}"
proof -
  show g: "list_all re_space g" using assms unfolding field_head_def by blast
  moreover have "\<not> re_space CHR '':''" "\<not> re_space CHR ''=''" "\<not> re_space CHR ''[''" by (simp_all add: re_space_def)
  ultimately show "set g \<inter> {CHR '':'', CHR ''='', CHR ''[''} = {}" unfolding list_all_iff by blast
  show "k = h @ c # g" using assms unfolding field_head_def by blast
  have "c \<in> set '':=''" "set h \<inter> set '':=['' = {}" using assms unfolding field_head_def by blast+
  then show "c \<in> {CHR '':'', CHR ''=''}" "set h \<inter> {CHR '':'', CHR ''='', CHR ''[''} = {}" by simp_all
qed

lemma field_head_no_bracket: "field_head k h c g \<Longrightarrow> CHR ''['' \<notin> set k"
  using field_headD [of k h c g] by auto

lemma field_head_last: "field_head k h c g \<Longrightarrow> k \<noteq> [] \<and> of_char (last k) < (0x80 :: nat)"
  using field_headD [of k h c g] by (cases g rule: rev_cases) (auto intro: re_space_ascii)

lemma secret_redacted: "HasPrefix (take (secret_length (redacted @ r)) (redacted @ r)) redacted"
proof -
  have "list_all value_char redacted" by (simp add: redacted_def value_char_def re_space_def)
  then have "takeWhile value_char (redacted @ r) = redacted @ takeWhile value_char r"
    by (simp add: list_all_iff takeWhile_append2)
  moreover have "secret_length (redacted @ r) = length (takeWhile value_char (redacted @ r))"
    by (simp add: secret_length_def quoted_value_def redacted_def)
  ultimately show ?thesis by (simp add: HasPrefix_iff)
qed

lemma field_stable:
  assumes own: "match_field (k @ x @ r) = Some (k, x, r)" and none: "match_field (t @ k @ x @ r) = None"
    and some: "match_field (t @ k @ redacted @ r') = Some (k', x', r'')"
  shows "HasPrefix x' redacted"
proof -
  from some obtain h c g where h: "field_head k' h c g" and e: "(t @ k) @ redacted @ r' = k' @ x' @ r''"
    and y: "0 < secret_length (x' @ r'')" "x' = take (secret_length (x' @ r'')) (x' @ r'')"
    by (elim match_field_Some) simp
  from e show ?thesis
  proof (cases rule: append_cases)
    case (right v)
    then have "CHR ''['' \<in> set k'" using redacted_head by (cases v) auto
    with field_head_no_bracket [OF h] show ?thesis by blast
  next
    case (left v)
    show ?thesis
    proof (cases v)
      case Nil
      with left(2) y(2) secret_redacted show ?thesis by simp
    next
      case (Cons d v')
      then have "0 < secret_length (v @ x @ r)" using y(1) left(2) by (simp add: secret_length_pos)
      with match_field_some [OF h] none left(1) show ?thesis by (metis append_assoc)
    qed
  qed
qed

lemma single_separator:
  assumes "X @ C # Y = h @ c # g" "C \<in> D" "set h \<inter> D = {}" "set g \<inter> D = {}"
  shows "Y = g"
  using assms(1)
proof (cases rule: append_cases)
  case (left u)
  then show ?thesis using assms(2,4) by (cases u) auto
next
  case (right u)
  then show ?thesis using assms(2,3) by (cases u) auto
qed

lemma no_word_in_redacted:
  assumes "suffix b redacted" "b \<noteq> []"
  shows "match_field (b @ r) = None"
proof -
  have "b \<in> set (suffixes redacted) - {[]}" using assms by simp
  then show ?thesis
    by (auto simp: redacted_def match_field_def quote_opt_def credential_words_def match_fold.simps fold_char_def
        HasPrefix_def kelvin_def long_s_def is_alpha_def less_eq_char_def)
qed

lemma field_inside:
  assumes own: "match_field (k @ x @ r) = Some (k, x, r)" and b: "suffix b (k @ redacted)" "b \<noteq> []"
    and some: "match_field (b @ r') = Some (k', x', r'')"
  shows "HasPrefix x' redacted"
  using b(1)
proof (cases rule: suffix_append_cases)
  case later
  with some b(2) no_word_in_redacted show ?thesis by simp
next
  case (across v)
  from some obtain h c g where h: "field_head k' h c g" and e: "v @ redacted @ r' = k' @ x' @ r''"
    and y: "0 < secret_length (x' @ r'')" "x' = take (secret_length (x' @ r'')) (x' @ r'')"
    by (elim match_field_Some) (simp add: across(1))
  from own obtain h0 c0 g0 where h0: "field_head k h0 c0 g0" by (elim match_field_Some)
  obtain a where a: "k = a @ v" using across(2) by (auto simp: suffix_def)
  from e show ?thesis
  proof (cases rule: append_cases)
    case (right z)
    then have "CHR ''['' \<in> set k'" using redacted_head by (cases z) auto
    with field_head_no_bracket [OF h] show ?thesis by blast
  next
    case (left z)
    show ?thesis
    proof (cases "z = []")
      case True
      with left(2) y(2) secret_redacted show ?thesis by simp
    next
      case False
      let ?D = "{CHR '':'', CHR ''=''}"
      have "(a @ h) @ c # g @ z = h0 @ c0 # g0" using left(1) a field_headD(1) [OF h] field_headD(1) [OF h0] by simp
      moreover have "c \<in> ?D" "set h0 \<inter> ?D = {}" "set g0 \<inter> ?D = {}"
        using field_headD(2) [OF h] field_headD(3,5) [OF h0] by auto
      ultimately have "g @ z = g0" by (rule single_separator)
      then have "re_space (hd z)" using field_headD(4) [OF h0] False by (auto simp: list_all_iff)
      moreover have "value_char (hd z)" using y(1) left(2) False by (simp add: secret_length_pos)
      ultimately show ?thesis by (simp add: value_char_def)
    qed
  qed
qed

interpretation field: redactor match_field redacted "\<lambda>x. HasPrefix x redacted"
proof unfold_locales
  fix k x r t r' k' x' r''
  show "match_field (k @ x @ r) = Some (k, x, r) \<Longrightarrow> match_field (t @ k @ x @ r) = None \<Longrightarrow>
      match_field (t @ k @ redacted @ r') = Some (k', x', r'') \<Longrightarrow> HasPrefix x' redacted"
    using field_stable by blast
next
  fix k x r b r' k' x' r''
  show "match_field (k @ x @ r) = Some (k, x, r) \<Longrightarrow> suffix b (k @ redacted) \<Longrightarrow> b \<noteq> [] \<Longrightarrow>
      match_field (b @ r') = Some (k', x', r'') \<Longrightarrow> HasPrefix x' redacted"
    using field_inside by blast
qed

section \<open>The text that is returned\<close>

text \<open>
  Where a suffix of a replaced text comes from: from a position of the original that is not inside
  a match, or from the part of a match that is kept followed by the replacement.
\<close>

context matcher
begin

lemma subst_suffix:
  assumes "suffix u (subst new s)"
  obtains (copied) u0 where "suffix u0 s" "u = subst new u0"
    | (across) k x r v where "suffix (v @ x @ r) s" "m (k @ x @ r) = Some (k, x, r)" "suffix v k" "v \<noteq> []"
        "u = v @ new @ subst new r"
    | (inside) v r where "suffix v new" "v \<noteq> []" "u = v @ subst new r"
  using assms
proof (induction s arbitrary: thesis rule: subst_induct)
  case (match s k x r)
  have s: "s = k @ x @ r" using match(1) by (rule split)
  then have own: "m (k @ x @ r) = Some (k, x, r)" using match(1) by simp
  have sub: "suffix z s" if "suffix z r" for z using that s by (metis append_assoc suffix_append)
  from match(6) have "suffix u (k @ new @ subst new r)" by (simp add: subst_match [OF match(1)])
  then show ?case
  proof (cases rule: suffix_append_cases)
    case (across v)
    moreover have "suffix (v @ x @ r) s" using across(2) s by (auto simp: suffix_def)
    ultimately show ?thesis using match(4) own by blast
  next
    case later
    then show ?thesis
    proof (cases rule: suffix_append_cases)
      case (across v)
      then show ?thesis using match(5) by blast
    next
      case later
      show ?thesis by (rule match(2)) (use match(3-5) sub later in blast)+
    qed
  qed
next
  case (skip c s)
  then consider "u = subst new (c # s)" | "suffix u (subst new s)"
    by (auto simp: subst_skip suffix_Cons)
  then show ?case
  proof cases
    case 1
    then show ?thesis using skip(3) by blast
  next
    case 2
    have sub: "suffix z (c # s)" if "suffix z s" for z using that by (simp add: suffix_Cons)
    show ?thesis by (rule skip(2)) (use skip(3-5) sub 2 in blast)+
  qed
next
  case nil
  then show ?case by (metis subst_Nil suffix_Nil suffix_order.refl)
qed

end

lemma field_keeps_bearer:
  assumes clean: "\<And>u. suffix u s \<Longrightarrow> match_bearer u = None"
    and u: "suffix u (replace_all match_field redacted (length s) s)"
  shows "match_bearer u = None"
proof (rule ccontr)
  assume "match_bearer u \<noteq> None"
  then obtain k' x' r'' where some: "match_bearer u = Some (k', x', r'')" by auto
  have keep: False if "suffix (p @ x @ r) s" "p \<noteq> []" "of_char (last p) < (0x80 :: nat)" "u = p @ redacted @ z" for p x r z
    using bearer_keep [OF clean [OF that(1)] that(2)] ascii_not_folding [OF that(3)] some that(4) by blast
  have ascii: "of_char (last k) < (0x80 :: nat)" "k \<noteq> []" if "match_field (k @ x @ r) = Some (k, x, r)" for k x r
    using that by (auto elim!: match_field_Some dest: field_head_last)
  from u show False
  proof (cases rule: field.subst_suffix)
    case (copied u0)
    from field.subst_first [of redacted u0] show False
    proof
      assume "replace_all match_field redacted (length u0) u0 = u0"
      with copied some clean show False by simp
    next
      assume "\<exists>t k x r. u0 = t @ k @ x @ r \<and> match_field (k @ x @ r) = Some (k, x, r) \<and>
        replace_all match_field redacted (length u0) u0 = t @ k @ redacted @ replace_all match_field redacted (length r) r"
      then obtain t k x r where "u0 = t @ k @ x @ r" "match_field (k @ x @ r) = Some (k, x, r)"
        "u = (t @ k) @ redacted @ replace_all match_field redacted (length r) r" using copied(2) by auto
      with keep [of "t @ k" x r] copied(1) ascii [of k x r] show False by simp
    qed
  next
    case (across k x r v)
    then have "last v = last k" "v \<noteq> []" by (auto simp: suffix_def)
    with across ascii [of k x r] keep [of v x r] show False by simp
  next
    case (inside v r)
    obtain w g where "bearer_word w" "u = w @ g @ x' @ r''" using some by (elim match_bearer_Some) blast
    then have "hd v \<in> {CHR ''b'', CHR ''B''}"
      using inside(2,3) bearer_word_plain(3,4) [of w] by (metis hd_append2)
    moreover have "hd v \<in> set redacted" using inside(1,2) set_mono_suffix hd_in_set by blast
    ultimately show False by (auto simp: redacted_def)
  qed
qed

lemma uri_stage_clean:
  "suffix u (replace_all match_uri uri_new (length s) s) \<Longrightarrow> match_uri u = Some (k, x, r) \<Longrightarrow> x = uri_new"
  by (rule uri.clean)

lemma bearer_stage_clean: "suffix u (replace_all match_bearer redacted (length s) s) \<Longrightarrow> match_bearer u = None"
  using bearer.clean by (cases "match_bearer u") auto



section \<open>UTF-8\<close>

text \<open>A string is cut into two valid ones where no encoding is cut in the middle.\<close>

lemma valid_rune_tail: "valid_rune r \<Longrightarrow> 1 < length r \<Longrightarrow> 0x80 \<le> (of_char (hd r) :: nat) \<and> list_all (\<lambda>c. tail_byte c) (tl r)"
  by (cases r; cases "tl r"; cases "tl (tl r)"; cases "tl (tl (tl r))")
    (simp_all add: valid_rune_def rune_len_def second_byte_def split: if_split_asm)

lemma valid_rune_bytes:
  assumes "valid_rune (r1 @ r2)" "r1 \<noteq> []" "r2 \<noteq> []"
  shows "tail_byte (hd r2) \<and> 0x80 \<le> (of_char (last r1) :: nat)"
proof -
  obtain a r1' where r1: "r1 = a # r1'" using assms(2) by (cases r1) auto
  then have "0x80 \<le> (of_char a :: nat)" "list_all (\<lambda>c. tail_byte c) (r1' @ r2)"
    using valid_rune_tail [OF assms(1)] assms(3) by (auto simp: Suc_le_eq)
  then show ?thesis using assms(3) r1 last_in_set [of r1'] hd_in_set [of r2] by (auto simp: list_all_iff)
qed

lemma ValidString_split:
  assumes "ValidString (a @ b)" and cut: "a = [] \<or> b = [] \<or> of_char (last a) < (0x80 :: nat) \<or> \<not> tail_byte (hd b)"
  shows "ValidString a \<and> ValidString b"
proof -
  from assms(1) obtain rs where "list_all valid_rune rs" "a @ b = concat rs" by (auto simp: ValidString_iff)
  then show ?thesis using cut
  proof (induction rs arbitrary: a)
    case (Cons r rs)
    from Cons.prems(2) have "a @ b = r @ concat rs" by simp
    then show ?case
    proof (cases rule: append_cases)
      case (left v)
      with Cons have "ValidString v \<and> ValidString b" by (cases "v = []") auto
      with left Cons.prems(1) show ?thesis
        using ValidString_append [of r v] ValidString_concat [of "[r]"] by simp
    next
      case (right v)
      show ?thesis
      proof (cases "a = []")
        case True
        with Cons.prems show ?thesis using ValidString_concat [of "r # rs"] by simp
      next
        case False
        with right Cons.prems(1) have "tail_byte (hd v) \<and> 0x80 \<le> (of_char (last a) :: nat)"
          using valid_rune_bytes [of a v] by simp
        moreover have "b \<noteq> []" "hd b = hd v" using right by auto
        ultimately show ?thesis using Cons.prems(3) False by simp
      qed
    qed
  qed simp
qed

text \<open>
  A matcher of UTF-8 text: the kept part ends in an ASCII byte and the rest starts at an encoding.
\<close>

locale utf8_matcher = matcher +
  assumes kept: "m s = Some (k, x, r) \<Longrightarrow> k \<noteq> [] \<and> of_char (last k) < (0x80 :: nat)"
    and rest: "m s = Some (k, x, r) \<Longrightarrow> ValidString (x @ r) \<Longrightarrow> ValidString r"
begin

lemma subst_valid:
  assumes "ValidString new"
  shows "ValidString s \<Longrightarrow> ValidString (subst new s)"
proof (induction "length s" arbitrary: s rule: less_induct)
  case less
  from subst_first [of new s] show ?case
  proof
    assume "\<exists>t k x r. s = t @ k @ x @ r \<and> m (k @ x @ r) = Some (k, x, r) \<and> subst new s = t @ k @ new @ subst new r"
    then obtain t k x r where s: "s = (t @ k) @ x @ r" "m (k @ x @ r) = Some (k, x, r)"
      and out: "subst new s = (t @ k) @ new @ subst new r" by auto
    have "ValidString (t @ k)" "ValidString (x @ r)"
      using ValidString_split [of "t @ k" "x @ r"] less.prems s(1) kept [OF s(2)] by auto
    moreover have "ValidString (subst new r)"
      using less.hyps [of r] rest [OF s(2)] taken [OF s(2)] calculation(2) s(1) by simp
    ultimately show ?thesis unfolding out using assms
      ValidString_append [of "t @ k" "new @ subst new r"] ValidString_append [of new "subst new r"] by simp
  qed (use less in simp)
qed

end

lemma ValidString_ascii_end: "ValidString (x @ r) \<Longrightarrow> x \<noteq> [] \<Longrightarrow> of_char (last x) < (0x80 :: nat) \<Longrightarrow> ValidString r"
  using ValidString_split [of x r] by blast

interpretation uri: utf8_matcher match_uri
proof unfold_locales
  fix s k x r
  assume "match_uri s = Some (k, x, r)"
  then show "k \<noteq> [] \<and> of_char (last k) < (0x80 :: nat)" "ValidString (x @ r) \<Longrightarrow> ValidString r"
    by (auto simp: match_uri_iff intro: ValidString_ascii_end [of x r])
qed

lemma ValidString_drop_rune: "valid_rune r \<Longrightarrow> ValidString (r @ s) \<Longrightarrow> ValidString s"
  by (simp add: ValidString_def runes_append)

lemma token_char_ascii: "token_char c \<Longrightarrow> of_char c < (0x80 :: nat)"
  by (auto simp: token_char_def is_alpha_def is_digit_def less_eq_char_def)

lemma folding_runes: "valid_rune kelvin" "valid_rune long_s"
  by (simp_all add: kelvin_def long_s_def valid_rune_def rune_len_def second_byte_def)

lemma token_rest_valid: "ValidString s \<Longrightarrow> ValidString (drop (token_prefix s) s)"
proof (induction s rule: token_prefix.induct)
  case (2 c s)
  consider (k) z where "c # s = kelvin @ z" | (l) z where "c # s = long_s @ z"
    | (plain) "\<not> HasPrefix (c # s) kelvin" "\<not> HasPrefix (c # s) long_s" by (auto simp: HasPrefix_iff)
  then show ?case
  proof cases
    case k
    then have z: "drop 2 s = z" by (auto simp: kelvin_def)
    from k have "HasPrefix (c # s) kelvin" by simp
    moreover have "ValidString z" using 2(4) k ValidString_drop_rune [OF folding_runes(1)] by simp
    ultimately have "token_prefix (c # s) = 3 + token_prefix z" "ValidString (drop (token_prefix z) z)"
      using 2(1) z by simp_all
    moreover have "drop (3 + n) (c # s) = drop n z" for n using k by (simp add: kelvin_def numeral_3_eq_3)
    ultimately show ?thesis by simp
  next
    case l
    then have z: "drop 1 s = z" and no: "\<not> HasPrefix (c # s) kelvin"
      by (auto simp: long_s_def kelvin_def HasPrefix_def)
    from l have "HasPrefix (c # s) long_s" by simp
    moreover have "ValidString z" using 2(4) l ValidString_drop_rune [OF folding_runes(2)] by simp
    ultimately show ?thesis using 2(2) z no by simp
  next
    case plain
    then show ?thesis using 2(3,4) ValidString_drop_rune [of "[c]" s] ascii_rune token_char_ascii by auto
  qed
qed simp

interpretation bearer: utf8_matcher match_bearer
proof unfold_locales
  fix s k x r
  assume m: "match_bearer s = Some (k, x, r)"
  from m show "k \<noteq> [] \<and> of_char (last k) < (0x80 :: nat)"
    by (elim match_bearer_Some) (auto simp: list_all_iff intro: re_space_ascii)
  from m obtain y where "x = take (token_prefix y) y" "r = drop (token_prefix y) y"
    by (auto simp: match_bearer_def Let_def split: option.splits if_splits)
  then have "r = drop (token_prefix (x @ r)) (x @ r)" by simp
  then show "ValidString (x @ r) \<Longrightarrow> ValidString r" using token_rest_valid by metis
qed

lemma field_rest_valid:
  assumes "x = take (secret_length y) y" "r = drop (secret_length y) y" "0 < secret_length y" "ValidString y"
  shows "ValidString r"
proof -
  have quoted: "ValidString r" if "quoted_value q y = Some n" "secret_length y = n" "of_char q < (0x80 :: nat)" for q n
  proof -
    let ?body = "takeWhile (\<lambda>c. c \<noteq> q) (drop 1 y)"
    from that(1) have y: "take 1 y = [q]" "length ?body + 1 < length y" "n = length ?body + 2"
      by (auto simp: quoted_value_def Let_def split: if_splits)
    have "drop (length ?body) (drop 1 y) = dropWhile (\<lambda>c. c \<noteq> q) (drop 1 y)" by (simp add: dropWhile_eq_drop)
    moreover have "dropWhile (\<lambda>c. c \<noteq> q) (drop 1 y) \<noteq> []"
      using y(2) calculation by (metis drop_eq_Nil drop_drop length_drop not_le add.commute)
    ultimately have "y ! (n - 1) = q" using y(2,3) hd_dropWhile [of "\<lambda>c. c \<noteq> q" "drop 1 y"]
      by (metis (no_types, lifting) add_diff_cancel_right' hd_drop_conv_nth drop_drop one_add_one add.assoc)
    then have "last (take n y) = q" using y(2,3) by (simp add: take_Suc_conv_app_nth)
    moreover have "y \<noteq> []" using y(1) by auto
    ultimately show ?thesis
      using ValidString_ascii_end [of "take n y" "drop n y"] assms(2,4) that(2,3) y(3) by simp
  qed
  show ?thesis
  proof (cases "quoted_value CHR 0x22 y = None \<and> quoted_value CHR 0x27 y = None")
    case True
    then have r: "r = dropWhile value_char y"
      using assms(2) by (simp add: secret_length_def dropWhile_eq_drop)
    then have y: "y = takeWhile value_char y @ r" by simp
    have "r = [] \<or> \<not> tail_byte (hd r)"
    proof (cases "r = []")
      case False
      then have "\<not> value_char (hd r)" using r hd_dropWhile [of value_char y] by simp
      then show ?thesis by (auto simp: value_char_def re_space_def)
    qed simp
    then show ?thesis using ValidString_split [of "takeWhile value_char y" r] assms(4) y by metis
  next
    case False
    then show ?thesis
      using quoted [of "CHR 0x22"] quoted [of "CHR 0x27"]
      by (cases "quoted_value CHR 0x22 y"; cases "quoted_value CHR 0x27 y") (simp_all add: secret_length_def)
  qed
qed

interpretation field: utf8_matcher match_field
proof unfold_locales
  fix s k x r
  assume m: "match_field s = Some (k, x, r)"
  from m show "k \<noteq> [] \<and> of_char (last k) < (0x80 :: nat)"
    by (elim match_field_Some) (rule field_head_last)
  from m obtain "0 < secret_length (x @ r)" "x = take (secret_length (x @ r)) (x @ r)" by (elim match_field_Some)
  moreover from this(2) have "r = drop (secret_length (x @ r)) (x @ r)" by (metis append_take_drop_id same_append_eq)
  ultimately show "ValidString (x @ r) \<Longrightarrow> ValidString r" using field_rest_valid by blast
qed

lemma ascii_valid: "list_all (\<lambda>c. of_char c < (0x80 :: nat)) s \<Longrightarrow> ValidString s"
  by (simp add: ValidString_def runes_ascii list.pred_map comp_def ascii_rune list_all_iff)

lemma redact_Text_valid: "ValidString s \<Longrightarrow> ValidString (redact_Text s)"
proof -
  have "ValidString redacted" "ValidString uri_new"
    by (rule ascii_valid, simp add: redacted_def uri_new_def)+
  then show "ValidString s \<Longrightarrow> ?thesis"
    unfolding redact_Text_def Let_def
    by (intro field.subst_valid bearer.subst_valid uri.subst_valid)
qed

lemma drop_controls_valid: "ValidString (drop_controls s)"
proof -
  have "ValidString (map_rune r)" for r
    using ValidString_concat [of "[r]"] ValidString_concat [of "[RuneError]"]
    by (auto simp: map_rune_def RuneError_valid split: list.splits)
  then have "ValidString (concat (map map_rune rs))" for rs
    by (induction rs) (simp_all add: ValidString_append)
  then show ?thesis by (simp add: drop_controls_def)
qed

text \<open>Bytes: a control that is dropped is a rune of one byte, and the bytes of the other runes are kept.\<close>

lemma map_rune_bytes: "list_all keep_byte (map_rune r)"
proof -
  have "keep_byte c" if "0x80 \<le> (of_char c :: nat)" for c using that by (simp add: keep_byte_def less_eq_char_def)
  moreover have "list_all (\<lambda>c. 0x80 \<le> (of_char c :: nat)) r" if "valid_rune r" "1 < length r"
    using valid_rune_tail [OF that] that(2) by (cases r) (auto simp: list_all_iff)
  ultimately show ?thesis
    by (auto simp: map_rune_def RuneError_def list_all_iff valid_rune_def split: list.splits)
qed

lemma drop_controls_bytes: "list_all keep_byte (drop_controls s)"
  using map_rune_bytes by (auto simp: drop_controls_def list_all_iff)

lemma redact_Text_bytes:
  assumes "list_all keep_byte s"
  shows "list_all keep_byte (redact_Text s)"
proof -
  have "list_all keep_byte redacted" "list_all keep_byte uri_new"
    by (simp_all add: redacted_def uri_new_def keep_byte_def less_eq_char_def)
  moreover have "set (redact_Text s) \<subseteq> set s \<union> set uri_new \<union> set redacted"
    unfolding redact_Text_def Let_def
    using field.subst_set bearer.subst_set uri.subst_set by fast
  ultimately show ?thesis using assms by (auto simp: list_all_iff)
qed

lemma cut_valid_prefix: "prefix (cut_valid s) s \<and> ValidString (cut_valid s)"
proof (induction s rule: cut_valid.induct)
  case (1 s)
  then show ?case
    using prefixeq_butlast [of s] by (subst (1 2) cut_valid.simps) (auto intro: prefix_order.trans)
qed

lemma cut_valid_longest: "prefix p s \<Longrightarrow> ValidString p \<Longrightarrow> length p \<le> length (cut_valid s)"
proof (induction s rule: cut_valid.induct)
  case (1 s)
  show ?case
  proof (cases "ValidString s")
    case True
    then show ?thesis using 1(2) by (simp add: cut_valid.simps prefix_length_le)
  next
    case False
    with 1 have "prefix p (butlast s)"
      by (metis append_butlast_last_id butlast.simps(1) prefix_snoc)
    with 1 False show ?thesis by (simp add: cut_valid.simps [of s])
  qed
qed

text \<open>At most three bytes of an encoding are lost where a valid text is cut.\<close>

lemma valid_prefix_near:
  "list_all valid_rune rs \<Longrightarrow> n \<le> length (concat rs) \<Longrightarrow>
   \<exists>p. prefix p (take n (concat rs)) \<and> ValidString p \<and> n \<le> length p + 3"
proof (induction rs arbitrary: n)
  case (Cons r rs)
  note r = length_valid_rune [of r]
  show ?case
  proof (cases "n < length r")
    case True
    then show ?thesis using r Cons.prems(1) by (intro exI [of _ "[]"]) simp
  next
    case False
    have "n - length r \<le> length (concat rs)" using Cons.prems(2) by simp
    with Cons.prems(1) obtain p where p: "prefix p (take (n - length r) (concat rs))" "ValidString p" "n - length r \<le> length p + 3"
      using Cons.IH [of "n - length r"] by auto
    have "ValidString (r @ p)" using Cons.prems(1) p(2) ValidString_append [of r p] ValidString_concat [of "[r]"] by simp
    with p False show ?thesis by (intro exI [of _ "r @ p"]) simp
  qed
qed simp

lemma cut_valid_near: "ValidString v \<Longrightarrow> n \<le> length v \<Longrightarrow> n \<le> length (cut_valid (take n v)) + 3"
  using valid_prefix_near [of "runes v" n] cut_valid_longest [of _ "take n v"]
  by (fastforce simp: ValidString_def)

lemma ellipsis_ok: "ValidString ellipsis" "list_all keep_byte ellipsis"
  by (simp_all add: ellipsis_def ValidString_def runes.simps valid_rune_def rune_len_def second_byte_def keep_byte_def
      less_eq_char_def)

lemma TerminalText_shape:
  fixes s maxBytes
  defines "v \<equiv> redact_Text (drop_controls (replace_all match_ansi [] (length s) s))"
  obtains (whole) "TerminalText s maxBytes = v" "maxBytes \<le> 0 \<or> int (length v) \<le> maxBytes" "ValidString v" "list_all keep_byte v"
    | (cut) p where "TerminalText s maxBytes = p @ ellipsis" "prefix p v" "ValidString p" "list_all keep_byte p"
        "int (length p) \<le> maxBytes" "maxBytes \<le> int (length p) + 3"
proof (cases "maxBytes \<le> 0 \<or> int (length v) \<le> maxBytes")
  case True
  then have "TerminalText s maxBytes = v" by (simp add: TerminalText_def v_def)
  with True whole show thesis
    unfolding v_def using redact_Text_valid [OF drop_controls_valid] redact_Text_bytes [OF drop_controls_bytes] by blast
next
  case False
  define p where "p = cut_valid (take (nat maxBytes) v)"
  have v: "ValidString v" "list_all keep_byte v"
    unfolding v_def using redact_Text_valid [OF drop_controls_valid] redact_Text_bytes [OF drop_controls_bytes] by blast+
  have p: "prefix p (take (nat maxBytes) v)" "ValidString p" using cut_valid_prefix by (simp_all add: p_def)
  have pv: "prefix p v" using p(1) take_is_prefix prefix_order.trans by blast
  have "length p \<le> nat maxBytes" "nat maxBytes \<le> length p + 3"
    using prefix_length_le [OF p(1)] cut_valid_near [OF v(1), of "nat maxBytes"] False by (auto simp: p_def)
  then have "int (length p) \<le> maxBytes" "maxBytes \<le> int (length p) + 3" using False by linarith+
  moreover have "list_all keep_byte p" using pv v(2) by (auto simp: prefix_def)
  moreover have "TerminalText s maxBytes = p @ ellipsis" using False by (simp add: TerminalText_def v_def p_def)
  ultimately show thesis using cut p(2) pv by blast
qed

lemma TerminalText_keeps: "list_all keep_byte (TerminalText s maxBytes)"
proof (cases rule: TerminalText_shape [of s maxBytes])
  case (cut p)
  then show ?thesis unfolding cut(1) using ellipsis_ok(2) by (simp only: list_all_append)
qed argo

lemma TerminalText_length: "0 < maxBytes \<Longrightarrow> int (length (TerminalText s maxBytes)) \<le> maxBytes + 3"
proof (cases rule: TerminalText_shape [of s maxBytes])
  case (cut p)
  have "length ellipsis = 3" by (simp add: ellipsis_def)
  then show ?thesis unfolding cut(1) using cut(5) by (simp only: length_append)
next
  case whole
  assume "0 < maxBytes"
  with whole(2) show ?thesis unfolding whole(1) by linarith
qed


lemma drop_controls_set: "set (drop_controls s) \<subseteq> set s \<union> set RuneError"
proof -
  have "set (map_rune r) \<subseteq> set r \<union> set RuneError" for r
    by (auto simp: map_rune_def split: list.splits)
  then have "set (concat (map map_rune rs)) \<subseteq> set (concat rs) \<union> set RuneError" for rs
    by (induction rs) auto
  from this [of "runes s"] show ?thesis by (simp add: drop_controls_def)
qed

text \<open>Nothing is added but the replacement, U+FFFD and the ellipsis.\<close>

lemma TerminalText_set: "set (TerminalText s n) \<subseteq> set s \<union> set RuneError \<union> set uri_new \<union> set redacted \<union> set ellipsis"
proof -
  let ?a = "replace_all match_ansi [] (length s) s"
  let ?v = "redact_Text (drop_controls ?a)"
  have "set (redact_Text z) \<subseteq> set z \<union> set uri_new \<union> set redacted" for z
    unfolding redact_Text_def Let_def
    using field.subst_set bearer.subst_set uri.subst_set by fast
  then have v: "set ?v \<subseteq> set s \<union> set RuneError \<union> set uri_new \<union> set redacted"
    using drop_controls_set [of ?a] ansi.subst_set [of "[]" s] by fastforce
  have "set (cut_valid (take m ?v)) \<subseteq> set ?v" for m
    using cut_valid_prefix [of "take m ?v"] set_mono_prefix set_take_subset by fastforce
  with v show ?thesis by (auto simp: TerminalText_def Let_def)
qed

lemma TerminalText_absent: "c \<in> {CHR 0x0A, CHR 0x0D} \<Longrightarrow> c \<notin> set s \<Longrightarrow> c \<notin> set (TerminalText s n)"
  using TerminalText_set [of s n] by (auto simp: RuneError_def uri_new_def redacted_def ellipsis_def)

text \<open>
  C1 controls (such as U+009B, the one-byte form of the ANSI introducer) and DEL are not C0
  controls and pass.
\<close>

lemma TerminalText_keeps_C1: "TerminalText [CHR 0xC2, CHR 0x9B, CHR 0x7F] 0 = [CHR 0xC2, CHR 0x9B, CHR 0x7F]"
  by code_simp

section \<open>The scan ends\<close>

text \<open>
  \<open>ReplaceAllString\<close> as a scan without fuel: at each place either a match is replaced and the scan goes on
  after it, or one byte is copied.
\<close>

inductive replaced :: "(string \<Rightarrow> re_match option) \<Rightarrow> string \<Rightarrow> string \<Rightarrow> string \<Rightarrow> bool" for m new where
  replaced_match: "m s = Some (kept, secret, rest) \<Longrightarrow> replaced m new rest t \<Longrightarrow> replaced m new s (kept @ new @ t)"
| replaced_end: "m [] = None \<Longrightarrow> replaced m new [] []"
| replaced_copy: "m (c # s) = None \<Longrightarrow> replaced m new s t \<Longrightarrow> replaced m new (c # s) (c # t)"

context matcher
begin

lemma replaced_total: "replaced m new s (replace_all m new (length s) s)"
proof (induction "length s" arbitrary: s rule: less_induct)
  case less
  have empty: "m [] = None" using shorter by (cases "m []") fastforce+
  show ?case
  proof (cases s)
    case (Cons c s')
    show ?thesis
    proof (cases "m s")
      case None
      then show ?thesis using Cons less.hyps [of s'] by (auto intro: replaced_copy)
    next
      case (Some match)
      then obtain k x r where m: "m s = Some (k, x, r)" by (cases match) auto
      have "replace_all m new (length s') r = replace_all m new (length r) r"
        using shorter [OF m] Cons by (intro fuel) simp_all
      moreover have "replaced m new r (replace_all m new (length r) r)"
        using shorter [OF m] by (rule less.hyps)
      ultimately show ?thesis using m Cons by (auto intro: replaced_match)
    qed
  qed (use empty in \<open>auto intro: replaced_end\<close>)
qed

lemma replaced_unique: "replaced m new s t \<Longrightarrow> replaced m new s t' \<Longrightarrow> t = t'"
proof (induction arbitrary: t' rule: replaced.induct)
  case (replaced_match s kept secret rest t)
  from replaced_match.prems replaced_match.hyps(1) obtain u where "t' = kept @ new @ u" "replaced m new rest u"
    by (cases rule: replaced.cases) auto
  with replaced_match.IH show ?case by blast
next
  case replaced_end
  from replaced_end.prems replaced_end.hyps show ?case by (cases rule: replaced.cases) auto
next
  case (replaced_copy c s t)
  from replaced_copy.prems replaced_copy.hyps(1) obtain u where "t' = c # u" "replaced m new s u"
    by (cases rule: replaced.cases) auto
  with replaced_copy.IH show ?case by blast
qed

lemma replaced_iff: "replaced m new s t \<longleftrightarrow> t = replace_all m new (length s) s"
  using replaced_total replaced_unique by blast

end


end
