(* ===== verification/Process_Output.thy ===== *)
theory Process_Output
  imports Redact_Text Downloader
begin

text \<open>
  How the output of child processes is observed: the bounded buffers of \<open>internal/boundedio\<close>, the line
  events of \<open>internal/progress\<close>, the download counter of \<open>internal/cluster/downloader.go\<close>, and the two
  \<open>execRunner.Run\<close> methods (\<open>internal/cluster/runner.go\<close>, \<open>internal/pushimage/provider.go\<close>) that put them
  together. A child writes its output in pieces of any size; the theorems show that what is
  captured, reported and returned depends on the bytes alone.
\<close>

section \<open>Bounded buffers\<close>

record buffer =
  buf_data :: string
  buf_limit :: int
  buf_truncated :: bool

definition NewBuffer :: "int \<Rightarrow> buffer" where
  "NewBuffer limit = \<lparr>buf_data = [], buf_limit = max limit 0, buf_truncated = False\<rparr>"

definition Buffer_Write :: "buffer \<Rightarrow> string \<Rightarrow> buffer" where
  "Buffer_Write b v =
     (let remaining = buf_limit b - int (length (buf_data b)) in
      b\<lparr>buf_data := (if remaining > 0 then buf_data b @ take (nat remaining) v else buf_data b),
        buf_truncated := (if int (length v) > remaining then True else buf_truncated b)\<rparr>)"

section \<open>Progress events\<close>

text \<open>
  A context as far as package \<open>progress\<close> uses it: the reporter it carries. \<open>WithReporter\<close> keeps the
  context when the reporter is nil.
\<close>

definition WithReporter :: "'r option \<Rightarrow> 'r option \<Rightarrow> 'r option" where
  "WithReporter ctx reporter = (case reporter of None \<Rightarrow> ctx | Some r \<Rightarrow> Some r)"

definition ReporterFromContext :: "'r option \<Rightarrow> 'r option" where
  "ReporterFromContext ctx = ctx"

definition maxPartialLine :: nat where "maxPartialLine = 4096"

text \<open>A \<open>LineWriter\<close>: whether its context has a reporter, the partial line, and the messages sent so far.\<close>

record line_writer =
  lw_reporter :: bool
  lw_partial :: string
  lw_sent :: "string list"

definition NewLineWriter :: "bool \<Rightarrow> line_writer" where
  "NewLineWriter reporter = \<lparr>lw_reporter = reporter, lw_partial = [], lw_sent = []\<rparr>"

definition appendPartial :: "line_writer \<Rightarrow> string \<Rightarrow> line_writer" where
  "appendPartial w v =
     (let remaining = int maxPartialLine - int (length (lw_partial w)) in
      if remaining > 0 then w\<lparr>lw_partial := lw_partial w @ take (nat remaining) v\<rparr> else w)"

definition emitLocked :: "line_writer \<Rightarrow> line_writer" where
  "emitLocked w =
     w\<lparr>lw_partial := [],
       lw_sent := (if lw_partial w \<noteq> [] \<and> lw_reporter w then lw_sent w @ [lw_partial w] else lw_sent w)\<rparr>"

function LineWriter_Write :: "line_writer \<Rightarrow> string \<Rightarrow> line_writer" where
  "LineWriter_Write w v =
     (if v = [] then w
      else case Cut v nl of
        None \<Rightarrow> appendPartial w v
      | Some (line, rest) \<Rightarrow> LineWriter_Write (emitLocked (appendPartial w line)) rest)"
  by pat_completeness auto
termination by (relation "measure (length \<circ> snd)") (auto dest: Cut_Some)

declare LineWriter_Write.simps [simp del]

definition LineWriter_Close :: "line_writer \<Rightarrow> line_writer" where
  "LineWriter_Close w = emitLocked w"

section \<open>Download progress\<close>

text \<open>\<open>%.1f\<close> of a number of bytes in MiB.\<close>

definition mib :: nat where "mib = 2 ^ 20"

definition show_MiB1 :: "int \<Rightarrow> string" where
  "show_MiB1 bytes =
     (let t = round_half_even (10 * nat \<bar>bytes\<bar>) mib in
      (if bytes < 0 then ''-'' else []) @ nat_digits (t div 10) @ ''.'' @ nat_digits (t mod 10))"

record download_progress =
  dp_total :: int
  dp_written :: int
  dp_reported :: int
  dp_sent :: "string list"

definition dp_report :: "download_progress \<Rightarrow> download_progress" where
  "dp_report w =
     w\<lparr>dp_sent := dp_sent w @
        [if dp_total w > 0 then ''Downloaded '' @ show_MiB1 (dp_written w) @ ''/'' @ show_MiB1 (dp_total w) @ '' MiB''
         else ''Downloaded '' @ show_MiB1 (dp_written w) @ '' MiB'']\<rparr>"

definition dp_Write :: "download_progress \<Rightarrow> string \<Rightarrow> download_progress" where
  "dp_Write w v =
     (let w1 = w\<lparr>dp_written := dp_written w + int (length v)\<rparr> in
      if dp_written w1 - dp_reported w1 \<ge> int mib then dp_report (w1\<lparr>dp_reported := dp_written w1\<rparr>) else w1)"

definition dp_complete :: "download_progress \<Rightarrow> download_progress" where
  "dp_complete w = (if dp_written w \<noteq> dp_reported w then dp_report w else w)"

section \<open>Runners\<close>

text \<open>What a child process wrote, in the order the pieces arrive, on either stream.\<close>

datatype chunk = Stdout string | Stderr string

primrec stdout_of :: "chunk \<Rightarrow> string" where
  "stdout_of (Stdout s) = s"
| "stdout_of (Stderr s) = []"

primrec stderr_of :: "chunk \<Rightarrow> string" where
  "stderr_of (Stdout s) = []"
| "stderr_of (Stderr s) = s"

record capture =
  cap_stdout :: buffer
  cap_stderr :: buffer
  cap_stdoutProgress :: line_writer
  cap_stderrProgress :: line_writer

text \<open>\<open>io.MultiWriter\<close> over the buffer and the line writer when the command is streamed, else the buffer alone.\<close>

primrec deliver :: "bool \<Rightarrow> capture \<Rightarrow> chunk \<Rightarrow> capture" where
  "deliver streamed c (Stdout s) =
     c\<lparr>cap_stdout := Buffer_Write (cap_stdout c) s,
       cap_stdoutProgress := (if streamed then LineWriter_Write (cap_stdoutProgress c) s else cap_stdoutProgress c)\<rparr>"
| "deliver streamed c (Stderr s) =
     c\<lparr>cap_stderr := Buffer_Write (cap_stderr c) s,
       cap_stderrProgress := (if streamed then LineWriter_Write (cap_stderrProgress c) s else cap_stderrProgress c)\<rparr>"

definition captured :: "bool \<Rightarrow> int \<Rightarrow> bool \<Rightarrow> chunk list \<Rightarrow> capture" where
  "captured streamed limit reporter chunks =
     (let c = foldl (deliver streamed)
        \<lparr>cap_stdout = NewBuffer limit, cap_stderr = NewBuffer limit,
         cap_stdoutProgress = NewLineWriter reporter, cap_stderrProgress = NewLineWriter reporter\<rparr> chunks
      in c\<lparr>cap_stdoutProgress := LineWriter_Close (cap_stdoutProgress c),
           cap_stderrProgress := LineWriter_Close (cap_stderrProgress c)\<rparr>)"

text \<open>\<open>filepath.Base\<close>.\<close>

definition filepath_Base :: "string \<Rightarrow> string" where
  "filepath_Base p =
     (if p = [] then ''.''
      else let q = rev (dropWhile (\<lambda>c. c = CHR ''/'') (rev p)) in
           if q = [] then ''/'' else rev (takeWhile (\<lambda>c. c \<noteq> CHR ''/'') (rev q)))"

fun named_registry :: "string list \<Rightarrow> bool" where
  "named_registry (a # b # rest) = (a = ''--name'' \<and> b = RegistryContainer \<or> named_registry (b # rest))"
| "named_registry _ = False"

definition safeProgressCommand :: "string \<Rightarrow> string list \<Rightarrow> bool" where
  "safeProgressCommand name arguments =
     (let base = filepath_Base name in
      if base = ''kind'' \<and> length arguments \<ge> 2 then arguments ! 0 = ''create'' \<and> arguments ! 1 = ''cluster''
      else if base \<noteq> ''docker'' \<or> arguments = [] \<or> arguments ! 0 \<noteq> ''run'' then False
      else named_registry (drop 1 arguments))"

definition commandCaptureBytes :: int where "commandCaptureBytes = 1024 * 1024"

text \<open>
  \<open>execRunner.Run\<close> of package \<open>cluster\<close>. The child process is the parameter: what it wrote and the error
  of \<open>command.Run()\<close>. The result is returned with the messages sent from its two streams.
\<close>

definition cluster_Run ::
  "bool \<Rightarrow> string \<Rightarrow> string list \<Rightarrow> chunk list \<Rightarrow> gerr option \<Rightarrow> (gerr + string) \<times> string list \<times> string list" where
  "cluster_Run reporter name arguments chunks err =
     (let streamed = safeProgressCommand name arguments;
          c = captured streamed commandCaptureBytes reporter chunks;
          result =
            (case err of
               Some e \<Rightarrow>
                 let detail0 = TrimSpace (buf_data (cap_stderr c));
                     detail = (if detail0 = [] then TrimSpace (buf_data (cap_stdout c)) else detail0)
                 in if detail \<noteq> []
                    then Inl (Errorf [T (''run '' @ name @ '': '' @ TerminalText detail (16 * 1024) @ '': ''), W e])
                    else Inl (Errorf [T (''run '' @ name @ '': ''), W e])
             | None \<Rightarrow>
                 if \<not> streamed \<and> buf_truncated (cap_stdout c)
                 then Inl (Errorf [T (''run '' @ name @ '': command output exceeded '' @ Itoa commandCaptureBytes @ '' bytes'')])
                 else Inr (TrimSpace (buf_data (cap_stdout c))))
      in (result, lw_sent (cap_stdoutProgress c), lw_sent (cap_stderrProgress c)))"

definition structuredCommandCaptureBytes :: int where "structuredCommandCaptureBytes = 1024 * 1024"
definition streamedCommandCaptureBytes :: int where "streamedCommandCaptureBytes = 16 * 1024"

text \<open>\<open>execRunner.Run\<close> of package \<open>pushimage\<close>.\<close>

definition pushimage_Run ::
  "bool \<Rightarrow> string \<Rightarrow> string list \<Rightarrow> chunk list \<Rightarrow> gerr option \<Rightarrow> (gerr + string) \<times> string list \<times> string list" where
  "pushimage_Run reporter name args chunks err =
     (let streamed = (args \<noteq> [] \<and> (hd args = ''build'' \<or> hd args = ''push''));
          limit = (if streamed then streamedCommandCaptureBytes else structuredCommandCaptureBytes);
          c = captured streamed limit reporter chunks;
          detail = TrimSpace (Join [buf_data (cap_stdout c), buf_data (cap_stderr c)] [nl]);
          result =
            (case err of
               Some e \<Rightarrow>
                 if detail = [] then Inl (Errorf [T (''run '' @ name @ '': ''), W e])
                 else Inl (Errorf [T (''run '' @ name @ '': '' @ TerminalText detail (16 * 1024) @ '': ''), W e])
             | None \<Rightarrow>
                 if \<not> streamed \<and> (buf_truncated (cap_stdout c) \<or> buf_truncated (cap_stderr c))
                 then Inl (Errorf [T (''run '' @ name @ '': command output exceeded '' @
                        Itoa structuredCommandCaptureBytes @ '' bytes'')])
                 else Inr detail)
      in (result, lw_sent (cap_stdoutProgress c), lw_sent (cap_stderrProgress c)))"

section \<open>Sinks for bytes\<close>

text \<open>
  What both writers promise a process that writes in pieces: an empty piece changes nothing and two
  pieces have the effect of their concatenation.
\<close>

locale byte_sink =
  fixes put :: "'s \<Rightarrow> string \<Rightarrow> 's" and inv :: "'s \<Rightarrow> bool"
  assumes put_empty: "inv s \<Longrightarrow> put s [] = s"
    and put_append: "inv s \<Longrightarrow> put (put s a) b = put s (a @ b)"
    and put_inv: "inv s \<Longrightarrow> inv (put s a)"
begin

lemma put_pieces: "inv s \<Longrightarrow> foldl put s vs = put s (concat vs)"
proof (induction vs arbitrary: s)
  case (Cons v vs)
  then show ?case by (simp add: put_inv put_append)
qed (simp add: put_empty)

end

definition buffer_ok :: "buffer \<Rightarrow> bool" where
  "buffer_ok b \<longleftrightarrow> int (length (buf_data b)) \<le> buf_limit b"

interpretation bounded: byte_sink Buffer_Write buffer_ok
proof unfold_locales
  fix b :: buffer and v v' :: string
  assume ok: "buffer_ok b"
  then show "Buffer_Write b [] = b" by (simp add: Buffer_Write_def buffer_ok_def)
  show "buffer_ok (Buffer_Write b v)" using ok by (auto simp: Buffer_Write_def buffer_ok_def Let_def)
  obtain n where n: "buf_limit b - int (length (buf_data b)) = int n"
    using ok by (metis buffer_ok_def diff_ge_0_iff_ge nonneg_int_cases)
  show "Buffer_Write (Buffer_Write b v) v' = Buffer_Write b (v @ v')"
    using n by (cases "length v \<le> n") (auto simp: Buffer_Write_def Let_def algebra_simps nat_diff_distrib')
qed

lemma buffer_new: "buffer_ok (NewBuffer limit)"
  by (simp add: NewBuffer_def buffer_ok_def)

lemma buffer_content:
  "0 \<le> limit \<Longrightarrow> buf_data (Buffer_Write (NewBuffer limit) s) = take (nat limit) s \<and>
   buf_truncated (Buffer_Write (NewBuffer limit) s) = (int (length s) > limit)"
  by (auto simp: Buffer_Write_def NewBuffer_def Let_def)

definition writer_ok :: "line_writer \<Rightarrow> bool" where
  "writer_ok w \<longleftrightarrow> length (lw_partial w) \<le> maxPartialLine"

lemma appendPartial_take:
  "writer_ok w \<Longrightarrow> appendPartial w v = w\<lparr>lw_partial := take maxPartialLine (lw_partial w @ v)\<rparr>"
  by (auto simp: appendPartial_def writer_ok_def Let_def nat_diff_distrib)

lemma writer_ok_steps:
  "writer_ok w \<Longrightarrow> writer_ok (appendPartial w v)" "writer_ok (emitLocked w)"
  by (simp_all add: appendPartial_take) (simp_all add: writer_ok_def emitLocked_def)

lemma LineWriter_Write_split:
  "LineWriter_Write w (line @ nl # rest) = LineWriter_Write (emitLocked (appendPartial w line)) rest" if "nl \<notin> set line"
  using that by (subst LineWriter_Write.simps) (simp add: Cut_append)

lemma LineWriter_Write_last:
  "writer_ok w \<Longrightarrow> nl \<notin> set v \<Longrightarrow> LineWriter_Write w v = appendPartial w v"
  by (subst LineWriter_Write.simps) (auto simp: Cut_None [symmetric] appendPartial_take writer_ok_def)

lemma LineWriter_append:
  "writer_ok w \<Longrightarrow> writer_ok (LineWriter_Write w a) \<and> LineWriter_Write (LineWriter_Write w a) b = LineWriter_Write w (a @ b)"
proof (induction w a rule: LineWriter_Write.induct)
  case (1 w v)
  show ?case
  proof (cases "Cut v nl")
    case None
    then have v: "nl \<notin> set v" by (simp add: Cut_None)
    have w': "LineWriter_Write w v = appendPartial w v" using v 1(2) by (rule LineWriter_Write_last [rotated])
    have join: "appendPartial (appendPartial w v) z = appendPartial w (v @ z)" for z
      using 1(2) by (simp add: appendPartial_take writer_ok_def) (simp add: min_def)
    have "LineWriter_Write (appendPartial w v) b = LineWriter_Write w (v @ b)"
    proof (cases "Cut b nl")
      case None
      then have "nl \<notin> set b" by (simp add: Cut_None)
      with v 1(2) join show ?thesis by (simp add: LineWriter_Write_last writer_ok_steps)
    next
      case (Some q)
      then obtain l r where b: "b = l @ nl # r" "nl \<notin> set l" using Cut_Some by (metis surj_pair)
      then have "LineWriter_Write w ((v @ l) @ nl # r) = LineWriter_Write (emitLocked (appendPartial w (v @ l))) r"
        using v by (intro LineWriter_Write_split) simp
      with b join show ?thesis by (simp add: LineWriter_Write_split)
    qed
    with w' 1(2) show ?thesis by (simp add: writer_ok_steps)
  next
    case (Some q)
    then obtain l r where q: "q = (l, r)" "v = l @ nl # r" "nl \<notin> set l" using Cut_Some by (metis surj_pair)
    with Some 1 show ?thesis by (simp add: LineWriter_Write_split writer_ok_steps)
  qed
qed

interpretation line_events: byte_sink LineWriter_Write writer_ok
  by unfold_locales (simp_all add: LineWriter_append LineWriter_Write.simps [of _ "[]"])

section \<open>What is reported\<close>

text \<open>\<open>strings.Split\<close> with a separator of one byte.\<close>

function Split1 :: "string \<Rightarrow> char \<Rightarrow> string list" where
  "Split1 s sep = (case Cut s sep of None \<Rightarrow> [s] | Some (b, a) \<Rightarrow> b # Split1 a sep)"
  by pat_completeness auto
termination by (relation "measure (length \<circ> fst)") (auto dest: Cut_Some)

declare Split1.simps [simp del]

lemma Split1_simps:
  "sep \<notin> set s \<Longrightarrow> Split1 s sep = [s]"
  "sep \<notin> set b \<Longrightarrow> Split1 (b @ sep # a) sep = b # Split1 a sep"
  by (simp_all add: Split1.simps [of s] Split1.simps [of "b @ sep # a"] Cut_append Cut_None [THEN iffD2])

text \<open>The lines of an output as they are reported: the empty ones left out, long ones cut.\<close>

definition reported_lines :: "string \<Rightarrow> string list" where
  "reported_lines s = map (take maxPartialLine) (filter (\<lambda>l. l \<noteq> []) (Split1 s nl))"

definition events_of :: "line_writer \<Rightarrow> string list \<Rightarrow> string list" where
  "events_of w ls = (if lw_reporter w then map (take maxPartialLine) (filter (\<lambda>l. l \<noteq> []) ls) else [])"

lemma LineWriter_sent:
  "writer_ok w \<Longrightarrow>
   lw_sent (LineWriter_Close (LineWriter_Write w v)) =
     lw_sent w @ events_of w ((lw_partial w @ hd (Split1 v nl)) # tl (Split1 v nl))"
proof (induction w v rule: LineWriter_Write.induct)
  case (1 w v)
  have pos: "0 < maxPartialLine" by (simp add: maxPartialLine_def)
  show ?case
  proof (cases "Cut v nl")
    case None
    then have v: "nl \<notin> set v" by (simp add: Cut_None)
    with 1(2) pos show ?thesis
      by (simp add: LineWriter_Write_last Split1_simps appendPartial_take LineWriter_Close_def emitLocked_def events_of_def)
  next
    case (Some q)
    then obtain l r where q: "q = (l, r)" "v = l @ nl # r" "nl \<notin> set l" using Cut_Some by (metis surj_pair)
    let ?w = "emitLocked (appendPartial w l)"
    have IH: "lw_sent (LineWriter_Close (LineWriter_Write ?w r)) =
        lw_sent ?w @ events_of ?w ((lw_partial ?w @ hd (Split1 r nl)) # tl (Split1 r nl))"
      using 1(1) [OF _ Some q(1) [symmetric]] q(2) 1(2) writer_ok_steps by simp
    have sel: "lw_partial ?w = []" "lw_reporter ?w = lw_reporter w"
      "lw_sent ?w = lw_sent w @ events_of w [lw_partial w @ l]"
      using 1(2) pos by (simp_all add: emitLocked_def appendPartial_take events_of_def)
    have "Split1 r nl \<noteq> []" by (simp add: Split1.simps [of r] split: option.splits)
    with IH sel q show ?thesis
      by (simp add: LineWriter_Write_split Split1_simps events_of_def)
  qed
qed

lemma LineWriter_reports:
  "lw_sent (LineWriter_Close (LineWriter_Write (NewLineWriter reporter) s)) = (if reporter then reported_lines s else [])"
proof -
  have "Split1 s nl \<noteq> []" by (simp add: Split1.simps [of s] split: option.splits)
  then show ?thesis
    using LineWriter_sent [of "NewLineWriter reporter" s]
    by (simp add: NewLineWriter_def writer_ok_def events_of_def reported_lines_def)
qed

lemma deliver_streams:
  assumes "buffer_ok (cap_stdout c)" "buffer_ok (cap_stderr c)"
    "writer_ok (cap_stdoutProgress c)" "writer_ok (cap_stderrProgress c)"
  defines "out \<equiv> \<lambda>cs. concat (map stdout_of cs)" and "err \<equiv> \<lambda>cs. concat (map stderr_of cs)"
  shows "foldl (deliver streamed) c cs =
    \<lparr>cap_stdout = Buffer_Write (cap_stdout c) (out cs), cap_stderr = Buffer_Write (cap_stderr c) (err cs),
     cap_stdoutProgress = (if streamed then LineWriter_Write (cap_stdoutProgress c) (out cs) else cap_stdoutProgress c),
     cap_stderrProgress = (if streamed then LineWriter_Write (cap_stderrProgress c) (err cs) else cap_stderrProgress c)\<rparr>"
  using assms(1-4)
proof (induction cs arbitrary: c)
  case Nil
  then show ?case by (simp add: out_def err_def bounded.put_empty line_events.put_empty)
next
  case (Cons ch cs)
  then show ?case
    by (cases ch) (auto simp: out_def err_def bounded.put_inv bounded.put_append line_events.put_inv line_events.put_append)
qed

lemma captured_streams:
  fixes chunks defines "out \<equiv> concat (map stdout_of chunks)" and "err \<equiv> concat (map stderr_of chunks)"
  assumes "0 \<le> limit"
  shows "buf_data (cap_stdout (captured streamed limit reporter chunks)) = take (nat limit) out"
    "buf_data (cap_stderr (captured streamed limit reporter chunks)) = take (nat limit) err"
    "buf_truncated (cap_stdout (captured streamed limit reporter chunks)) = (int (length out) > limit)"
    "buf_truncated (cap_stderr (captured streamed limit reporter chunks)) = (int (length err) > limit)"
    "lw_sent (cap_stdoutProgress (captured streamed limit reporter chunks)) =
       (if streamed \<and> reporter then reported_lines out else [])"
    "lw_sent (cap_stderrProgress (captured streamed limit reporter chunks)) =
       (if streamed \<and> reporter then reported_lines err else [])"
proof -
  have ok: "writer_ok (NewLineWriter reporter)" by (simp add: NewLineWriter_def writer_ok_def)
  have unused: "lw_sent (LineWriter_Close (NewLineWriter reporter)) = []"
    by (simp add: NewLineWriter_def LineWriter_Close_def emitLocked_def)
  note sinks = captured_def Let_def deliver_streams buffer_new ok out_def err_def
  show "buf_data (cap_stdout (captured streamed limit reporter chunks)) = take (nat limit) out"
    "buf_data (cap_stderr (captured streamed limit reporter chunks)) = take (nat limit) err"
    "buf_truncated (cap_stdout (captured streamed limit reporter chunks)) = (int (length out) > limit)"
    "buf_truncated (cap_stderr (captured streamed limit reporter chunks)) = (int (length err) > limit)"
    using assms(3) by (simp_all add: sinks buffer_content)
  show "lw_sent (cap_stdoutProgress (captured streamed limit reporter chunks)) =
       (if streamed \<and> reporter then reported_lines out else [])"
    "lw_sent (cap_stderrProgress (captured streamed limit reporter chunks)) =
       (if streamed \<and> reporter then reported_lines err else [])"
    by (simp_all add: sinks LineWriter_reports unused)
qed

text \<open>
  C35: running a command depends on the bytes its process wrote to each stream and not on the pieces they
  came in or how the streams interleaved. Success returns the standard output, trimmed,
  complete unless the command is one whose output is streamed; a standard output beyond the limit
  is an error instead of a cut answer; a failure carries the redacted first part of the output;
  and messages are sent for streamed commands only, one per line that is not empty.
\<close>

theorem cluster_Run_exact:
  "cluster_Run reporter name arguments chunks err =
     (let out = concat (map stdout_of chunks); errout = concat (map stderr_of chunks);
          streamed = safeProgressCommand name arguments; limit = nat commandCaptureBytes;
          sent = (\<lambda>s. if streamed \<and> reporter then reported_lines s else [])
      in (case err of
            None \<Rightarrow>
              if streamed \<or> length out \<le> limit then Inr (TrimSpace (take limit out))
              else Inl (Errorf [T (''run '' @ name @ '': command output exceeded 1048576 bytes'')])
          | Some e \<Rightarrow>
              (case filter (\<lambda>d. d \<noteq> []) [TrimSpace (take limit errout), TrimSpace (take limit out)] of
                 [] \<Rightarrow> Inl (Errorf [T (''run '' @ name @ '': ''), W e])
               | d # _ \<Rightarrow> Inl (Errorf [T (''run '' @ name @ '': '' @ TerminalText d 16384 @ '': ''), W e])),
          sent out, sent errout))"
proof -
  have digits: "Itoa commandCaptureBytes = ''1048576''" by (simp add: Itoa_def commandCaptureBytes_def nat_digits.simps char_of_def bit_0)
  have lim: "0 \<le> commandCaptureBytes" by (simp add: commandCaptureBytes_def)
  have over: "(int n > commandCaptureBytes) = (\<not> n \<le> nat commandCaptureBytes)" for n using lim by linarith
  show ?thesis
    by (cases err) (auto simp: cluster_Run_def Let_def captured_streams [OF lim] digits over)
qed

text \<open>\<open>kind get kubeconfig\<close> prints credentials; no command that starts with \<open>get\<close> is streamed.\<close>

lemma kubeconfig_not_streamed: "\<not> safeProgressCommand name (''get'' # arguments)"
  by (simp add: safeProgressCommand_def Let_def)

lemma pushimage_Run_exact:
  "pushimage_Run reporter name args chunks err =
     (let out = concat (map stdout_of chunks); errout = concat (map stderr_of chunks);
          streamed = (args \<noteq> [] \<and> hd args \<in> {''build'', ''push''}); limit = (if streamed then 16384 else 1048576);
          detail = TrimSpace (take limit out @ [nl] @ take limit errout);
          sent = (\<lambda>s. if streamed \<and> reporter then reported_lines s else [])
      in (case err of
            None \<Rightarrow>
              if streamed \<or> length out \<le> limit \<and> length errout \<le> limit then Inr detail
              else Inl (Errorf [T (''run '' @ name @ '': command output exceeded 1048576 bytes'')])
          | Some e \<Rightarrow>
              if detail = [] then Inl (Errorf [T (''run '' @ name @ '': ''), W e])
              else Inl (Errorf [T (''run '' @ name @ '': '' @ TerminalText detail 16384 @ '': ''), W e]),
          sent out, sent errout))"
proof -
  have digits: "Itoa structuredCommandCaptureBytes = ''1048576''"
    by (simp add: Itoa_def structuredCommandCaptureBytes_def nat_digits.simps char_of_def bit_0)
  have nats: "nat structuredCommandCaptureBytes = 1048576" "nat streamedCommandCaptureBytes = 16384"
    and lim: "0 \<le> structuredCommandCaptureBytes" "0 \<le> streamedCommandCaptureBytes"
    by (simp_all add: structuredCommandCaptureBytes_def streamedCommandCaptureBytes_def)
  have over: "(int n > structuredCommandCaptureBytes) = (\<not> n \<le> 1048576)" for n
    by (auto simp: structuredCommandCaptureBytes_def)
  show ?thesis
    by (cases err; cases "args \<noteq> [] \<and> hd args \<in> {''build'', ''push''}")
      (auto simp: pushimage_Run_def Let_def captured_streams [OF lim(1)] captured_streams [OF lim(2)] digits over nats)
qed

text \<open>
  A download of any number of pieces sends a message at most for each MiB and one for the rest; the
  last message states the final count.
\<close>

definition dp_ok :: "download_progress \<Rightarrow> bool" where
  "dp_ok w \<longleftrightarrow> int mib * int (length (dp_sent w)) \<le> dp_reported w \<and> dp_reported w \<le> dp_written w"

lemma dp_Write_ok: "dp_ok w \<Longrightarrow> dp_ok (dp_Write w v)"
  by (auto simp: dp_ok_def dp_Write_def dp_report_def Let_def algebra_simps)

lemma dp_bounded:
  assumes "w = dp_complete (foldl dp_Write \<lparr>dp_total = n, dp_written = 0, dp_reported = 0, dp_sent = []\<rparr> vs)"
  shows "dp_written w = int (length (concat vs)) \<and> int mib * int (length (dp_sent w)) < dp_written w + int mib + 1"
proof -
  have keep: "dp_ok (foldl dp_Write d vs) \<and> dp_written (foldl dp_Write d vs) = dp_written d + int (length (concat vs))"
    if "dp_ok d" for d vs
    using that
  proof (induction vs arbitrary: d)
    case (Cons v vs)
    have "dp_written (dp_Write d v) = dp_written d + int (length v)" by (simp add: dp_Write_def dp_report_def Let_def)
    with Cons dp_Write_ok [of d v] show ?case by simp
  qed simp
  have "dp_ok \<lparr>dp_total = n, dp_written = 0, dp_reported = 0, dp_sent = []\<rparr>" by (simp add: dp_ok_def)
  from keep [OF this, of vs] show ?thesis
    by (auto simp: assms dp_complete_def dp_report_def dp_ok_def algebra_simps)
qed

end
