(* ===== verification/Progress_Session.thy ===== *)
theory Progress_Session
  imports Process_Output Cluster_Service
begin

text \<open>
  \<open>internal/cli/progress.go\<close>: the reporter behind the long-running commands. It keeps the current stage, a
  short tail of recent lines and a bounded log, prints plain lines when standard error is not a
  terminal, saves the log when the operation fails, and draws the interactive view. The readings of
  the clock, the results of writing to standard error, and what the terminal libraries compute
  (display width, boxes, the spinner) are parameters.
\<close>

section \<open>Durations\<close>

text \<open>\<open>Duration.Round\<close> to a unit, half away from zero, in that unit.\<close>

definition round_to :: "nat \<Rightarrow> nat \<Rightarrow> nat" where
  "round_to unit ns = (if 2 * (ns mod unit) < unit then ns div unit else ns div unit + 1)"

definition second_unit :: nat where "second_unit = 1000000000"
definition millisecond_unit :: nat where "millisecond_unit = 1000000"

text \<open>\<open>Duration.String\<close> of a number of milliseconds.\<close>

definition pad3 :: "nat \<Rightarrow> string" where
  "pad3 n = replicate (3 - length (nat_digits n)) (CHR ''0'') @ nat_digits n"

definition show_ms :: "nat \<Rightarrow> string" where
  "show_ms ms =
     (if ms = 0 then ''0s''
      else if ms < 1000 then nat_digits ms @ ''ms''
      else let secs = ms div 1000; frac = ms mod 1000;
               s = nat_digits (secs mod 60) @
                   (if frac = 0 then [] else ''.'' @ rev (dropWhile (\<lambda>c. c = CHR ''0'') (rev (pad3 frac)))) @ ''s'';
               mins = secs div 60
           in if mins = 0 then s
              else if mins < 60 then nat_digits mins @ ''m'' @ s
              else nat_digits (mins div 60) @ ''h'' @ nat_digits (mins mod 60) @ ''m'' @ s)"

section \<open>The session\<close>

definition progressTailRows :: nat where "progressTailRows = 6"
definition progressLineBytes :: nat where "progressLineBytes = 2048"
definition progressLogMaxBytes :: nat where "progressLogMaxBytes = 2 * 1024 * 1024"
definition progressLogRetention :: nat where "progressLogRetention = 10"

text \<open>
  The last four fields are the surroundings of the session: the elapsed nanoseconds that the
  readings of the clock return, the results of writing to the output, and how many of each there
  have been; \<open>ps_output\<close> is what was handed to the output.
\<close>

record progress_session =
  ps_cacheBase :: "(gerr + path) option"
  ps_title :: string
  ps_interactive :: bool
  ps_stage :: string
  ps_lastStage :: string
  ps_lastReady :: string
  ps_tail :: "string list"
  ps_log :: string
  ps_logFull :: bool
  ps_done :: bool
  ps_operationErr :: "gerr option"
  ps_logPath :: string
  ps_writeErr :: "gerr option"
  ps_output :: "string list"
  ps_reads :: nat
  ps_elapsed :: "nat \<Rightarrow> nat"
  ps_sink :: "nat \<Rightarrow> gerr option"

definition newProgressSession ::
  "bool \<Rightarrow> (gerr + path) option \<Rightarrow> string \<Rightarrow> (nat \<Rightarrow> nat) \<Rightarrow> (nat \<Rightarrow> gerr option) \<Rightarrow> progress_session" where
  "newProgressSession interactive cacheBase title elapsed sink =
     \<lparr>ps_cacheBase = cacheBase, ps_title = title, ps_interactive = interactive, ps_stage = [], ps_lastStage = [],
      ps_lastReady = [], ps_tail = [], ps_log = [], ps_logFull = False, ps_done = False, ps_operationErr = None,
      ps_logPath = [], ps_writeErr = None, ps_output = [], ps_reads = 0, ps_elapsed = elapsed, ps_sink = sink\<rparr>"

text \<open>\<open>time.Since(s.started)\<close>.\<close>

definition since :: "progress_session \<Rightarrow> nat" where
  "since s = ps_elapsed s (ps_reads s)"

definition read_clock :: "progress_session \<Rightarrow> progress_session" where
  "read_clock s = s\<lparr>ps_reads := Suc (ps_reads s)\<rparr>"

definition writeLocked :: "progress_session \<Rightarrow> string \<Rightarrow> progress_session" where
  "writeLocked s v =
     (if ps_writeErr s \<noteq> None then s
      else s\<lparr>ps_writeErr := ps_sink s (length (ps_output s)), ps_output := ps_output s @ [v]\<rparr>)"

definition safeProgressLines :: "string \<Rightarrow> string list" where
  "safeProgressLines message =
     (let m = TerminalText message (int (progressLineBytes * progressTailRows));
          m' = map (\<lambda>c. if c = CHR 0x0D then nl else c) m
      in filter (\<lambda>p. p \<noteq> []) (map (\<lambda>p. TrimSpace (TerminalText p (int progressLineBytes))) (Split1 m' nl)))"

text \<open>\<open>%-9s\<close>.\<close>

definition pad9 :: "string \<Rightarrow> string" where
  "pad9 s = s @ replicate (9 - length s) (CHR '' '')"

primrec kind_prefix :: "progress_kind \<Rightarrow> string" where
  "kind_prefix Stage = ''stage''"
| "kind_prefix Activity = ''activity''"
| "kind_prefix Readiness = ''readiness''"
| "kind_prefix Warning = ''warning''"

definition log_marker :: string where
  "log_marker = ''[progress log truncated at 2 MiB]'' @ [nl]"

definition appendLogLocked :: "progress_session \<Rightarrow> progress_kind \<Rightarrow> string \<Rightarrow> progress_session" where
  "appendLogLocked s kind line =
     (if ps_logFull s then s
      else let entry = ''['' @ show_ms (round_to millisecond_unit (since s)) @ ''] '' @ pad9 (kind_prefix kind) @ '' '' @ line @ [nl];
               s1 = read_clock s
           in if length (ps_log s1) + length entry > progressLogMaxBytes
              then s1\<lparr>ps_log := (if progressLogMaxBytes - length (ps_log s1) \<ge> length log_marker
                                 then ps_log s1 @ log_marker else ps_log s1),
                      ps_logFull := True\<rparr>
              else s1\<lparr>ps_log := ps_log s1 @ entry\<rparr>)"

definition push_tail :: "progress_session \<Rightarrow> string \<Rightarrow> progress_session" where
  "push_tail s line =
     (let t = ps_tail s @ [line] in
      s\<lparr>ps_tail := (if length t > progressTailRows then drop (length t - progressTailRows) t else t)\<rparr>)"

definition reportLine :: "progress_session \<Rightarrow> progress_kind \<Rightarrow> string \<Rightarrow> progress_session" where
  "reportLine s kind line =
     (if line = [] then s
      else if ps_done s then s
      else if kind = Stage \<and> line = ps_lastStage s then s
      else let s1 = (if kind = Stage then s\<lparr>ps_stage := line, ps_lastStage := line\<rparr> else s) in
           if kind = Readiness \<and> line = ps_lastReady s1 then s1
           else let s2 = (if kind = Readiness then s1\<lparr>ps_lastReady := line\<rparr> else s1);
                    s3 = appendLogLocked s2 kind line;
                    s4 = (if kind \<noteq> Stage then push_tail s3 line else s3)
                in if \<not> ps_interactive s4 \<and> (kind = Stage \<or> kind = Readiness \<or> kind = Warning)
                   then writeLocked (read_clock s4)
                     (''['' @ show_ms (1000 * round_to second_unit (since s4)) @ ''] '' @ line @ [nl])
                   else s4)"

definition Report :: "progress_session \<Rightarrow> progress_kind \<Rightarrow> string \<Rightarrow> progress_session" where
  "Report s kind message = foldl (\<lambda>s line. reportLine s kind line) s (safeProgressLines message)"

definition fallbackStage :: "string \<Rightarrow> string" where
  "fallbackStage stage = (if stage = [] then ''starting'' else stage)"

definition renderPlainFinishLocked :: "progress_session \<Rightarrow> progress_session" where
  "renderPlainFinishLocked s =
     (let elapsed = show_ms (1000 * round_to second_unit (since s)); s1 = read_clock s in
      case ps_operationErr s1 of
        None \<Rightarrow> writeLocked s1 (''Completed '' @ ps_title s1 @ '' in '' @ elapsed @ [nl])
      | Some _ \<Rightarrow>
          let s2 = writeLocked s1
            (''Failed '' @ ps_title s1 @ '' at '' @ fallbackStage (ps_stage s1) @ '' after '' @ elapsed @ [nl])
          in if ps_tail s2 = [] then s2
             else foldl (\<lambda>s line. writeLocked s (''  '' @ line @ [nl])) (writeLocked s2 (''Recent activity:'' @ [nl])) (ps_tail s2))"

section \<open>The failure log\<close>

text \<open>
  \<open>os.ReadDir\<close> returns the entries by name; \<open>Info\<close> gives the time of the last change or an error. Of
  equal times the order of the directory is kept, as Go's \<open>sort.Slice\<close> does for up to twelve entries.
\<close>

definition log_entries :: "(path \<Rightarrow> gerr + int) \<Rightarrow> files \<Rightarrow> path list \<Rightarrow> (path \<times> int) list" where
  "log_entries info f entries =
     List.map_filter (\<lambda>p.
       if fs_get f p = Some Dir \<or> \<not> HasPrefix (last p) ''progress-'' \<or> \<not> HasSuffix (last p) ''.log'' then None
       else case info p of Inl _ \<Rightarrow> None | Inr t \<Rightarrow> Some (p, t)) (sort_key last entries)"

definition log_victims :: "(path \<Rightarrow> gerr + int) \<Rightarrow> files \<Rightarrow> path list \<Rightarrow> int \<Rightarrow> (path \<times> int) list" where
  "log_victims info f entries keep =
     (let logs = sort_key (\<lambda>(_, t). - t) (log_entries info f entries)
      in drop (min (nat (max keep 0)) (length logs)) logs)"

definition pruneFailureLogs :: "outside \<Rightarrow> (history \<Rightarrow> path \<Rightarrow> gerr + int) \<Rightarrow> path \<Rightarrow> int \<Rightarrow> unit io" where
  "pruneFailureLogs E info directory keep =
     tryE (readDir E directory) (\<lambda>r. case r of
       Inl _ \<Rightarrow> retE ()
     | Inr entries \<Rightarrow> (\<lambda>w.
         forE (log_victims (info (trace w)) (files w) entries keep) (\<lambda>(p, _). ignoreE (removeE E p)) w))"

definition discard_log :: "outside \<Rightarrow> path \<Rightarrow> bool \<Rightarrow> string io" where
  "discard_log E p closed =
     bindE (if closed then retE () else ignoreE (closeFile E p)) (\<lambda>_.
     bindE (ignoreE (removeE E p)) (\<lambda>_. retE []))"

definition write_log :: "outside \<Rightarrow> path \<Rightarrow> string \<Rightarrow> string io" where
  "write_log E p content =
     tryE (chmodFile E p mode0600) (\<lambda>r. case r of Inl _ \<Rightarrow> discard_log E p False | Inr _ \<Rightarrow>
     tryE (writeFile E p content) (\<lambda>r. case r of Inl _ \<Rightarrow> discard_log E p False | Inr _ \<Rightarrow>
     tryE (syncFile E p) (\<lambda>r. case r of Inl _ \<Rightarrow> discard_log E p False | Inr _ \<Rightarrow>
     tryE (closeFile E p) (\<lambda>r. case r of Inl _ \<Rightarrow> discard_log E p True | Inr _ \<Rightarrow>
     retE (path_text p)))))"

definition saveFailureLogLocked ::
  "outside \<Rightarrow> (history \<Rightarrow> path \<Rightarrow> gerr + int) \<Rightarrow> (gerr + path) option \<Rightarrow> string \<Rightarrow> string io" where
  "saveFailureLogLocked E info cacheBase content =
     (case cacheBase of
        None \<Rightarrow> retE []
      | Some (Inl _) \<Rightarrow> retE []
      | Some (Inr base) \<Rightarrow>
          let directory = base @ [''tripgoctl'', ''logs''] in
          tryE (mkdirAll E directory) (\<lambda>r. case r of Inl _ \<Rightarrow> retE [] | Inr _ \<Rightarrow>
          bindE (pruneFailureLogs E info directory (int progressLogRetention - 1)) (\<lambda>_.
          tryE (createTemp E directory ''progress-'' ''.log'') (\<lambda>r. case r of Inl _ \<Rightarrow> retE [] | Inr p \<Rightarrow>
          write_log E p content))))"

section \<open>Finishing\<close>

text \<open>\<open>progressOperationError\<close>: the redacted text of its cause and the place of the log, wrapping the cause.\<close>

definition progressOperationError :: "gerr \<Rightarrow> string \<Rightarrow> gerr" where
  "progressOperationError cause logPath =
     (let message = TerminalText (error_text cause) (16 * 1024) in
      Foreign (if logPath \<noteq> [] then message @ '' (full progress log: '' @ logPath @ '')'' else message) [cause])"

definition failure_logged :: "progress_session \<Rightarrow> gerr \<Rightarrow> progress_session" where
  "failure_logged s e =
     foldl (\<lambda>s line. appendLogLocked s Warning line) s (safeProgressLines (''Failure: '' @ error_text e))"

definition finishLocked :: "progress_session \<Rightarrow> gerr option \<Rightarrow> progress_session" where
  "finishLocked s err =
     (let s1 = s\<lparr>ps_done := True, ps_operationErr := err\<rparr> in
      if \<not> ps_interactive s1 then renderPlainFinishLocked s1 else s1)"

definition finish ::
  "outside \<Rightarrow> (history \<Rightarrow> path \<Rightarrow> gerr + int) \<Rightarrow> progress_session \<Rightarrow> gerr option \<Rightarrow> (progress_session \<times> gerr option) io" where
  "finish E info s operationErr =
     (case operationErr of
        None \<Rightarrow> retE (finishLocked s None, None)
      | Some e \<Rightarrow>
          let s1 = failure_logged s e in
          bindE (saveFailureLogLocked E info (ps_cacheBase s1) (ps_log s1)) (\<lambda>logPath.
          retE (finishLocked (s1\<lparr>ps_logPath := logPath\<rparr>) (Some e), Some (progressOperationError e logPath))))"

section \<open>The interactive view\<close>

text \<open>What the terminal libraries compute: display width, a bordered box of a width, the spinner's frame.\<close>

record terminal_ui =
  ui_width :: "string \<Rightarrow> int"
  ui_box :: "int \<Rightarrow> string \<Rightarrow> string"
  ui_spinner :: string

record progress_model =
  pm_session :: progress_session
  pm_width :: int
  pm_height :: int

definition newProgressModel :: "progress_session \<Rightarrow> progress_model" where
  "newProgressModel s = \<lparr>pm_session = s, pm_width = 80, pm_height = 24\<rparr>"

datatype ui_message = WindowSize int int | RefreshProgress | SpinnerTick | OtherMessage
datatype ui_command = UiQuit | UiRefresh | UiSpinner

definition Update :: "progress_model \<Rightarrow> ui_message \<Rightarrow> progress_model \<times> ui_command option" where
  "Update m message =
     (case message of
        WindowSize width height \<Rightarrow> (m\<lparr>pm_width := width, pm_height := height\<rparr>, None)
      | RefreshProgress \<Rightarrow> (m, Some (if ps_done (pm_session m) then UiQuit else UiRefresh))
      | SpinnerTick \<Rightarrow> (m, Some UiSpinner)
      | OtherMessage \<Rightarrow> (m, None))"

text \<open>\<open>clipDisplayWidth\<close>: the loop adds the runes of the text while the candidate fits.\<close>

fun clip_runes :: "terminal_ui \<Rightarrow> int \<Rightarrow> string \<Rightarrow> string list \<Rightarrow> string" where
  "clip_runes U width acc [] = acc"
| "clip_runes U width acc (r # rs) =
     (let ch = (if valid_rune r then r else RuneError) in
      if ui_width U (acc @ ch) > width - 1 then acc else clip_runes U width (acc @ ch) rs)"

definition clipDisplayWidth :: "terminal_ui \<Rightarrow> string \<Rightarrow> int \<Rightarrow> string" where
  "clipDisplayWidth U v width =
     (if width \<le> 0 then []
      else if ui_width U v \<le> width then v
      else if width = 1 then ellipsis
      else clip_runes U width [] (runes v) @ ellipsis)"

definition check_mark :: string where "check_mark = [CHR 0xE2, CHR 0x9C, CHR 0x93]"
definition cross_mark :: string where "cross_mark = [CHR 0xE2, CHR 0x9C, CHR 0x97]"
definition middle_dot :: string where "middle_dot = [CHR 0xC2, CHR 0xB7]"

definition failureView :: "terminal_ui \<Rightarrow> progress_session \<Rightarrow> int \<Rightarrow> string \<Rightarrow> string" where
  "failureView U s width elapsed =
     (let lines = map (\<lambda>line. clipDisplayWidth U line (width - 4)) (ps_tail s);
          box = (if lines \<noteq> [] then ui_box U (width - 2) (Join lines [nl]) @ [nl] else [])
      in cross_mark @ '' Failed '' @ ps_title s @ '' at '' @ fallbackStage (ps_stage s) @ '' after '' @ elapsed @ [nl] @ box)"

definition view_width :: "int \<Rightarrow> int" where
  "view_width width0 =
     (let a = (if width0 \<le> 0 then 80 else width0); b = (if a > 100 then 100 else a) in if b < 24 then 24 else b)"

definition view_rows :: "int \<Rightarrow> nat" where
  "view_rows height =
     (let rows = (if height - 5 < int progressTailRows then height - 5 else int progressTailRows)
      in nat (if rows < 1 then 1 else rows))"

definition view_lines :: "terminal_ui \<Rightarrow> progress_session \<Rightarrow> int \<Rightarrow> nat \<Rightarrow> string list" where
  "view_lines U s width rows =
     (let t = (if length (ps_tail s) > rows then drop (length (ps_tail s) - rows) (ps_tail s) else ps_tail s);
          lines = map (\<lambda>line. clipDisplayWidth U line (width - 4)) t
      in lines @ replicate (rows - length lines) [])"

definition View :: "terminal_ui \<Rightarrow> progress_model \<Rightarrow> string" where
  "View U m =
     (let s = pm_session m; width = view_width (pm_width m);
          elapsed = show_ms (1000 * round_to second_unit (since s))
      in if ps_done s \<and> ps_operationErr s = None
         then check_mark @ '' Completed '' @ ps_title s @ '' in '' @ elapsed @ [nl]
         else if ps_done s then failureView U s width elapsed
         else let header = ui_spinner U @ '' '' @ ps_title s @ '' '' @ middle_dot @ '' '' @ elapsed;
                  box = ui_box U (width - 2) (Join (view_lines U s width (view_rows (pm_height m))) [nl])
              in clipDisplayWidth U header width @ [nl] @ clipDisplayWidth U (fallbackStage (ps_stage s)) width @ [nl] @
                 box @ [nl] @ ''Ctrl+C to cancel'' @ [nl])"

section \<open>The session invariant\<close>

text \<open>
  The lines of a report are atomic under the session's mutex, and several goroutines may report at once:
  a run of a session is any sequence of safe lines of any kind, and of finishing.
\<close>

inductive session_step :: "progress_session \<Rightarrow> progress_session \<Rightarrow> bool" where
  step_report: "line \<in> set (safeProgressLines message) \<Longrightarrow> session_step s (reportLine s kind line)"
| step_done: "session_step s (finishLocked (s\<lparr>ps_logPath := p\<rparr>) None)"
| step_failed: "session_step s (finishLocked ((failure_logged s e)\<lparr>ps_logPath := p\<rparr>) (Some e))"

inductive session_reachable :: "progress_session \<Rightarrow> progress_session \<Rightarrow> bool" where
  session_start: "session_reachable s s"
| session_next: "session_reachable s t \<Longrightarrow> session_step t u \<Longrightarrow> session_reachable s u"

definition safe_line :: "string \<Rightarrow> bool" where
  "safe_line l \<longleftrightarrow> l \<noteq> [] \<and> length l \<le> progressLineBytes + 3 \<and> list_all keep_byte l \<and> nl \<notin> set l \<and> CHR 0x0D \<notin> set l"

definition session_ok :: "progress_session \<Rightarrow> bool" where
  "session_ok s \<longleftrightarrow> length (ps_log s) \<le> progressLogMaxBytes \<and> length (ps_tail s) \<le> progressTailRows \<and>
     list_all safe_line (ps_tail s) \<and> (ps_stage s = [] \<or> safe_line (ps_stage s))"

lemma Split1_parts: "p \<in> set (Split1 s sep) \<Longrightarrow> sep \<notin> set p \<and> set p \<subseteq> set s"
proof (induction s sep rule: Split1.induct)
  case (1 s sep)
  then show ?case
  proof (cases "Cut s sep")
    case None
    with 1 show ?thesis by (simp add: Split1.simps [of s] Cut_None)
  next
    case (Some q)
    then obtain b a where q: "q = (b, a)" "s = b @ sep # a" "sep \<notin> set b" by (metis Cut_Some surj_pair)
    then have "p = b \<or> p \<in> set (Split1 a sep)" using 1(2) by (simp add: Split1_simps)
    with 1(1) [OF Some q(1) [symmetric]] q show ?thesis by auto
  qed
qed

lemma TrimSpace_length: "length (TrimSpace s) \<le> length s"
proof -
  have "length (concat (dropWhile P rs)) \<le> length (concat rs)" for P and rs :: "string list"
    by (induction rs) auto
  then have "length (concat (rev (dropWhile P (rev rs)))) \<le> length (concat rs)" for P and rs :: "string list"
    by (metis length_concat_rev)
  then show ?thesis
    unfolding TrimSpace_def by (metis concat_runes \<open>\<And>rs P. length (concat (dropWhile P rs)) \<le> length (concat rs)\<close> le_trans)
qed

lemma safe_lines:
  assumes "line \<in> set (safeProgressLines message)"
  shows "safe_line line"
proof -
  let ?m = "map (\<lambda>c. if c = CHR 0x0D then nl else c) (TerminalText message (int (progressLineBytes * progressTailRows)))"
  from assms obtain p where p: "p \<in> set (Split1 ?m nl)" and line: "line = TrimSpace (TerminalText p (int progressLineBytes))" "line \<noteq> []"
    by (auto simp: safeProgressLines_def Let_def)
  have "CHR 0x0D \<notin> set ?m" by auto
  with Split1_parts [OF p] have "CHR 0x0D \<notin> set p" "nl \<notin> set p" by blast+
  then have "CHR 0x0D \<notin> set (TerminalText p (int progressLineBytes))" "nl \<notin> set (TerminalText p (int progressLineBytes))"
    by (simp_all add: TerminalText_absent)
  then have "CHR 0x0D \<notin> set line" "nl \<notin> set line"
    using TrimSpace_set [of "TerminalText p (int progressLineBytes)"] line(1) by auto
  moreover have "list_all keep_byte line" "length line \<le> progressLineBytes + 3"
    using TerminalText_keeps [of p "int progressLineBytes"] TerminalText_length [of "int progressLineBytes" p] TrimSpace_set [of "TerminalText p (int progressLineBytes)"]
      TrimSpace_length [of "TerminalText p (int progressLineBytes)"] line(1)
    by (auto simp: list_all_iff progressLineBytes_def)
  ultimately show ?thesis using line(2) by (simp add: safe_line_def)
qed

lemma log_bounded:
  "length (ps_log s) \<le> progressLogMaxBytes \<Longrightarrow> length (ps_log (appendLogLocked s kind line)) \<le> progressLogMaxBytes"
  by (auto simp: appendLogLocked_def read_clock_def Let_def)

lemma appendLog_sel [simp]:
  "ps_tail (appendLogLocked s kind line) = ps_tail s" "ps_stage (appendLogLocked s kind line) = ps_stage s"
  "ps_done (appendLogLocked s kind line) = ps_done s"
  by (simp_all add: appendLogLocked_def read_clock_def Let_def)

lemma write_sel [simp]:
  "ps_tail (writeLocked s v) = ps_tail s" "ps_stage (writeLocked s v) = ps_stage s" "ps_log (writeLocked s v) = ps_log s"
  "ps_done (writeLocked s v) = ps_done s"
  by (simp_all add: writeLocked_def)

lemma clock_sel [simp]:
  "ps_tail (read_clock s) = ps_tail s" "ps_stage (read_clock s) = ps_stage s" "ps_log (read_clock s) = ps_log s"
  "ps_done (read_clock s) = ps_done s"
  by (simp_all add: read_clock_def)

lemma session_ok_cong:
  "session_ok s \<Longrightarrow> ps_tail t = ps_tail s \<Longrightarrow> ps_stage t = ps_stage s \<Longrightarrow> ps_log t = ps_log s \<Longrightarrow> session_ok t"
  by (simp add: session_ok_def)

lemma session_ok_log: "session_ok s \<Longrightarrow> session_ok (appendLogLocked s kind line)"
  by (simp add: session_ok_def log_bounded)

lemma session_ok_tail: "session_ok s \<Longrightarrow> safe_line line \<Longrightarrow> session_ok (push_tail s line)"
  by (auto simp: session_ok_def push_tail_def Let_def list_all_iff dest!: in_set_dropD)

lemma session_ok_report:
  assumes "session_ok s" "safe_line line"
  shows "session_ok (reportLine s kind line)"
proof -
  have stage: "session_ok (s\<lparr>ps_stage := line, ps_lastStage := line\<rparr>)" using assms by (simp add: session_ok_def)
  have out: "session_ok (writeLocked (read_clock t) v)" if "session_ok t" for t v
    by (rule session_ok_cong [OF that]) simp_all
  have ready: "session_ok (t\<lparr>ps_lastReady := line\<rparr>)" if "session_ok t" for t
    by (rule session_ok_cong [OF that]) simp_all
  show ?thesis
    using assms stage by (simp add: reportLine_def Let_def out ready session_ok_log session_ok_tail)
qed

lemma fold_log: "session_ok s \<Longrightarrow> session_ok (foldl (\<lambda>s line. appendLogLocked s kind line) s ls)"
  by (induction ls arbitrary: s) (simp_all add: session_ok_log)

lemma fold_write: "session_ok s \<Longrightarrow> session_ok (foldl (\<lambda>s line. writeLocked s (f line)) s ls)"
proof (induction ls arbitrary: s)
  case (Cons l ls)
  then show ?case using session_ok_cong [of s "writeLocked s (f l)"] by simp
qed simp

lemma fold_write_done: "ps_done (foldl (\<lambda>s line. writeLocked s (f line)) s ls) = ps_done s"
  by (induction ls arbitrary: s) simp_all

lemma session_ok_finish: "session_ok s \<Longrightarrow> session_ok (finishLocked s err) \<and> ps_done (finishLocked s err)"
proof -
  assume ok: "session_ok s"
  define t where "t = s\<lparr>ps_done := True, ps_operationErr := err\<rparr>"
  have t: "session_ok t" "ps_done t" using ok by (auto simp: t_def session_ok_def)
  have w: "session_ok (writeLocked u v)" if "session_ok u" for u v by (rule session_ok_cong [OF that]) simp_all
  have c: "session_ok (read_clock t)" by (rule session_ok_cong [OF t(1)]) simp_all
  have "session_ok (renderPlainFinishLocked t) \<and> ps_done (renderPlainFinishLocked t)"
    using c t(2) by (simp add: renderPlainFinishLocked_def Let_def w fold_write fold_write_done split: option.splits)
  with t show ?thesis by (simp add: finishLocked_def t_def [symmetric])
qed

lemma session_step_ok: "session_step s t \<Longrightarrow> session_ok s \<Longrightarrow> session_ok t"
proof (induction rule: session_step.induct)
  case (step_report line message s kind)
  then show ?case by (simp add: safe_lines session_ok_report)
next
  case (step_done s p)
  then show ?case using session_ok_cong [of s "s\<lparr>ps_logPath := p\<rparr>"] session_ok_finish by simp
next
  case (step_failed s p e)
  then have "session_ok (failure_logged s e)" by (simp add: failure_logged_def fold_log)
  then show ?case using session_ok_cong [of "failure_logged s e" "(failure_logged s e)\<lparr>ps_logPath := p\<rparr>"] session_ok_finish by simp
qed

text \<open>
  C9: whatever is reported to a progress session, in any order and from any number of goroutines, its log
  stays within 2 MiB and its tail within six rows, every line that can be shown is bounded, has no
  terminal control and no line break, and a finished session ignores further reports.
\<close>

theorem progress_session_invariant:
  assumes "session_reachable (newProgressSession interactive cacheBase title elapsed sink) s"
  shows "length (ps_log s) \<le> 2097152 \<and> length (ps_tail s) \<le> 6 \<and> list_all safe_line (ps_tail s) \<and>
    (ps_stage s = [] \<or> safe_line (ps_stage s)) \<and> (\<forall>kind message. ps_done s \<longrightarrow> Report s kind message = s)"
proof -
  have "session_ok s"
    using assms
  proof (induction "newProgressSession interactive cacheBase title elapsed sink" s rule: session_reachable.induct)
    case session_start
    then show ?case by (simp add: newProgressSession_def session_ok_def)
  qed (rule session_step_ok)
  moreover have "Report s kind message = s" if "ps_done s" for kind message
  proof -
    have "foldl (\<lambda>s line. reportLine s kind line) s ls = s" for ls
      using that by (induction ls) (simp_all add: reportLine_def)
    then show ?thesis by (simp add: Report_def)
  qed
  ultimately show ?thesis by (auto simp: session_ok_def progressLogMaxBytes_def progressTailRows_def)
qed

section \<open>What saving a log changes\<close>

definition log_path :: "path \<Rightarrow> path \<Rightarrow> bool" where
  "log_path dir q \<longleftrightarrow> q \<noteq> [] \<and> butlast q = dir \<and> HasPrefix (last q) ''progress-'' \<and> HasSuffix (last q) ''.log''"

text \<open>Two states of the files that differ in log files of a directory only.\<close>

definition logs_only :: "path \<Rightarrow> files \<Rightarrow> files \<Rightarrow> bool" where
  "logs_only dir f f' \<longleftrightarrow> (\<forall>q. \<not> log_path dir q \<longrightarrow> fs_get f' q = fs_get f q)"

lemma logs_only_refl [simp]: "logs_only dir f f"
  by (simp add: logs_only_def)

lemma wp_createLog:
  assumes "\<And>w' e. files w' = files w \<Longrightarrow> Q (Inl e) w'"
    and "\<And>p w'. log_path dir p \<Longrightarrow> files w' = fs_put p (RegFile [] mode0600) (files w) \<Longrightarrow> Q (Inr p) w'"
  shows "wp (\<lambda>_ _. True) (createTemp E dir ''progress-'' ''.log'') Q w"
proof -
  let ?p = "temp_path E (trace w) dir ''progress-'' ''.log''"
  have p: "log_path dir ?p" by (simp add: temp_path_def log_path_def HasPrefix_iff HasSuffix_iff)
  have "wp (\<lambda>_ _. True) (fsE E (CreateTemp ?p) (\<lambda>f.
       if fs_get f ?p \<noteq> None then Inl (Foreign ''file exists'' [])
       else if \<not> is_dir f dir then Inl ErrNotExist
       else Inr (?p, fs_put ?p (RegFile [] mode0600) f))) Q w"
    by (rule wp_fs) (use assms p in \<open>auto split: if_splits\<close>)
  then show ?thesis by (simp add: wp_def createTemp_def Let_def)
qed

lemma logs_only_del: "log_path dir p \<Longrightarrow> logs_only dir f g \<Longrightarrow> logs_only dir f (fs_del p g)"
  by (auto simp: logs_only_def)

lemma wp_drop_log:
  assumes "\<And>w'. logs_only dir f (files w') \<Longrightarrow> Q (Inr ()) w'" "log_path dir p" "logs_only dir f (files w)"
  shows "wp (\<lambda>_ _. True) (ignoreE (removeE E p)) Q w"
  by (intro wp_rules conjI TrueI assms(1)) (simp_all add: assms logs_only_del)

lemma wp_discard_log:
  assumes "\<And>w'. logs_only dir f (files w') \<Longrightarrow> Q (Inr []) w'" "log_path dir p" "logs_only dir f (files w)"
  shows "wp (\<lambda>_ _. True) (discard_log E p closed) Q w"
proof -
  have "wp (\<lambda>_ _. True) (bindE (ignoreE (removeE E p)) (\<lambda>_. retE [])) Q w'" if "logs_only dir f (files w')" for w'
    by (rule wp_bind, rule wp_drop_log [OF _ assms(2) that]) (simp add: wp_ret assms(1))
  with assms(3) show ?thesis
    unfolding discard_log_def by (intro wp_rules conjI TrueI) simp_all
qed

lemma logs_only_content: "log_path dir p \<Longrightarrow> logs_only dir f g \<Longrightarrow> logs_only dir f (set_content p c g)"
  by (auto simp: logs_only_def split: option.splits node.splits)

lemma wp_write_log:
  assumes bad: "\<And>w'. logs_only dir f (files w') \<Longrightarrow> Q (Inr []) w'"
    and good: "\<And>w'. logs_only dir f (files w') \<Longrightarrow> fs_get (files w') p = Some (RegFile content mode0600) \<Longrightarrow> Q (Inr (path_text p)) w'"
    and p: "log_path dir p" "logs_only dir f (files w)" "fs_get (files w) p = Some (RegFile [] mode0600)"
  shows "wp (\<lambda>_ _. True) (write_log E p content) Q w"
proof -
  let ?T = "\<lambda>_ _. True"
  have discard: "wp ?T (discard_log E p closed) Q w'" if "logs_only dir f (files w')" for w' closed
    by (rule wp_discard_log [OF _ p(1) that]) (rule bad)
  have close: "wp ?T (tryE (closeFile E p) (\<lambda>r. case r of Inl _ \<Rightarrow> discard_log E p True | Inr _ \<Rightarrow> retE (path_text p))) Q w'"
    if "logs_only dir f (files w')" "fs_get (files w') p = Some (RegFile content mode0600)" for w'
    by (rule wp_try, rule wp_closeFile) (simp_all add: discard that wp_ret good)
  have sync: "wp ?T (tryE (syncFile E p) (\<lambda>r. case r of Inl _ \<Rightarrow> discard_log E p False | Inr _ \<Rightarrow>
      tryE (closeFile E p) (\<lambda>r. case r of Inl _ \<Rightarrow> discard_log E p True | Inr _ \<Rightarrow> retE (path_text p)))) Q w'"
    if "logs_only dir f (files w')" "fs_get (files w') p = Some (RegFile content mode0600)" for w'
    by (rule wp_try, rule wp_syncFile) (simp_all add: discard that close)
  have put: "wp ?T (tryE (writeFile E p content) (\<lambda>r. case r of Inl _ \<Rightarrow> discard_log E p False | Inr _ \<Rightarrow>
      tryE (syncFile E p) (\<lambda>r. case r of Inl _ \<Rightarrow> discard_log E p False | Inr _ \<Rightarrow>
      tryE (closeFile E p) (\<lambda>r. case r of Inl _ \<Rightarrow> discard_log E p True | Inr _ \<Rightarrow> retE (path_text p))))) Q w'"
    if "logs_only dir f (files w')" "fs_get (files w') p = Some (RegFile [] mode0600)" for w'
    by (rule wp_try, rule wp_writeFile) (simp_all add: discard that sync logs_only_content [OF p(1)])
  show ?thesis
    unfolding write_log_def
  proof (rule wp_try, rule wp_chmodFile)
    fix g assume g: "\<And>q. fs_get g q = (case fs_get (files w) p of
              Some (RegFile c _) \<Rightarrow> (if q = p then Some (RegFile c mode0600) else fs_get (files w) q)
            | _ \<Rightarrow> fs_get (files w) q)"
    have "logs_only dir f g" "fs_get g p = Some (RegFile [] mode0600)" using p by (simp_all add: logs_only_def g)
    then show "True \<and> wp ?T (case Inr () of Inl _ \<Rightarrow> discard_log E p False | Inr _ \<Rightarrow>
      tryE (writeFile E p content) (\<lambda>r. case r of Inl _ \<Rightarrow> discard_log E p False | Inr _ \<Rightarrow>
      tryE (syncFile E p) (\<lambda>r. case r of Inl _ \<Rightarrow> discard_log E p False | Inr _ \<Rightarrow>
      tryE (closeFile E p) (\<lambda>r. case r of Inl _ \<Rightarrow> discard_log E p True | Inr _ \<Rightarrow> retE (path_text p))))) Q
      (log (EFs (Chmod p) None) (w\<lparr>files := g\<rparr>))"
      using put by simp
  qed (simp add: discard p)
qed

lemma log_entries_paths:
  assumes "x \<in> set (log_entries info f entries)" "\<And>q. q \<in> set entries \<Longrightarrow> q \<noteq> [] \<and> butlast q = dir"
  shows "log_path dir (fst x)"
  using assms by (auto simp: log_entries_def List.map_filter_def log_path_def split: if_splits sum.splits)

lemma children_path: "q \<in> set (fs_children dir f) \<Longrightarrow> q \<noteq> [] \<and> butlast q = dir"
  by (auto simp: fs_children_def)

lemma wp_pruneFailureLogs:
  assumes "\<And>w'. logs_only dir f (files w') \<Longrightarrow> Q (Inr ()) w'" "logs_only dir f (files w)"
  shows "wp (\<lambda>_ _. True) (pruneFailureLogs E info dir keep) Q w"
proof -
  have loop: "wp (\<lambda>_ _. True) (forE xs (\<lambda>(p, _). ignoreE (removeE E p))) Q w'"
    if xs: "\<And>x. x \<in> set xs \<Longrightarrow> log_path dir (fst x)" and w': "logs_only dir f (files w')" for xs :: "(path \<times> int) list" and w'
  proof (rule wp_for [where I = "\<lambda>w. logs_only dir f (files w)"])
    fix x and w'' :: world assume x: "x \<in> set xs" "logs_only dir f (files w'')"
    show "wp (\<lambda>_ _. True) (case x of (p, _) \<Rightarrow> ignoreE (removeE E p))
        (\<lambda>r w'. case r of Inl e \<Rightarrow> Q (Inl e) w' | Inr _ \<Rightarrow> logs_only dir f (files w')) w''"
      unfolding case_prod_beta by (rule wp_drop_log [OF _ xs [OF x(1)] x(2)]) simp
  qed (use w' assms(1) in auto)
  show ?thesis
    unfolding pruneFailureLogs_def
  proof (rule wp_try, rule wp_readDir)
    have victims: "log_path dir (fst x)" if "x \<in> set (log_victims i g (fs_children dir g) keep)" for x i g
      using that log_entries_paths [of x i g "fs_children dir g" dir] children_path
      by (auto simp: log_victims_def Let_def dest!: in_set_dropD)
    let ?w = "log (EFs (ReadDir dir) None) w"
    have "wp (\<lambda>_ _. True) (forE (log_victims (info (trace ?w)) (files w) (fs_children dir (files w)) keep)
        (\<lambda>(p, _). ignoreE (removeE E p))) Q ?w"
      using loop victims assms(2) by simp
    then show "True \<and> wp (\<lambda>_ _. True) (case Inr (fs_children dir (files w)) of Inl _ \<Rightarrow> retE () | Inr entries \<Rightarrow> (\<lambda>w.
         forE (log_victims (info (trace w)) (files w) entries keep) (\<lambda>(p, _). ignoreE (removeE E p)) w)) Q
         (log (EFs (ReadDir dir) None) w)"
      by (simp add: wp_def)
  qed (simp add: wp_ret assms)
qed


section \<open>Witnesses\<close>

definition sample_session :: progress_session where
  "sample_session = newProgressSession False None ''cluster start'' (\<lambda>_. 1500000000) (\<lambda>_. None)"

theorem progress_session_invariant_witness:
  "ps_tail (reportLine sample_session Warning ''low memory'') = [''low memory''] \<and>
   length (ps_log (reportLine sample_session Warning ''low memory'')) \<le> 2097152 \<and>
   list_all safe_line (ps_tail (reportLine sample_session Warning ''low memory''))"
proof -
  have "safeProgressLines ''low memory'' = [''low memory'']" by code_simp
  then have "session_step sample_session (reportLine sample_session Warning ''low memory'')"
    using step_report [of "''low memory''" "''low memory''"] by simp
  then have "session_reachable sample_session (reportLine sample_session Warning ''low memory'')"
    using session_reachable.intros by blast
  note inv = progress_session_invariant [OF this [unfolded sample_session_def], folded sample_session_def]
  have "ps_tail (reportLine sample_session Warning ''low memory'') = [''low memory'']"
    by (simp add: reportLine_def Let_def push_tail_def sample_session_def newProgressSession_def progressTailRows_def)
  with inv show ?thesis by blast
qed


end
