(* ===== verification/Lab_Logs.thy ===== *)
theory Lab_Logs
  imports Lab_Safety Redact_Text
begin

text \<open>
  \<open>Service.Logs\<close> of \<open>internal/lab/service.go\<close>: the log of a component of the current lab. The pod is
  found and its ownership verified under the operation lease, which is given back before the
  log is read, since a followed log may stay open for long; what is read is redacted line by line.
  The Kubernetes log endpoint and the result of writing to the output are parameters.
\<close>

definition containerByComponent :: "string \<Rightarrow> string option" where
  "containerByComponent component =
     map_of [(''push-service'', ''push-service''), (''redpanda'', ''redpanda''),
       (''redpanda-console'', ''redpanda-console''), (''redpanda-topic-reconciler'', ''topic-reconciler'')] component"

text \<open>
  \<open>podLogReader\<close>: namespace, pod, container, follow and tail to an error or the bytes of the stream
  and the error that ended it; \<open>None\<close> is \<open>io.EOF\<close>.
\<close>

type_synonym log_reader = "history \<Rightarrow> string \<Rightarrow> string \<Rightarrow> string \<Rightarrow> bool \<Rightarrow> int \<Rightarrow> gerr + string \<times> gerr option"

text \<open>The successive results of \<open>ReadString('\n')\<close> that are not empty.\<close>

function log_lines :: "string \<Rightarrow> string list" where
  "log_lines s =
     (case Cut s nl of
        None \<Rightarrow> if s = [] then [] else [s]
      | Some (b, a) \<Rightarrow> (b @ [nl]) # log_lines a)"
  by pat_completeness auto
termination by (relation "measure length") (auto dest: Cut_Some)

declare log_lines.simps [simp del]

text \<open>\<open>io.WriteString(output, ...)\<close>; \<open>wr\<close> is the error of a write.\<close>

definition writeOut :: "(history \<Rightarrow> gerr option) \<Rightarrow> string \<Rightarrow> unit io" where
  "writeOut wr s = (\<lambda>w. (opt_result (wr (trace w)), log (EOut s) w))"

fun copy_log :: "(history \<Rightarrow> gerr option) \<Rightarrow> string \<Rightarrow> gerr option \<Rightarrow> string list \<Rightarrow> unit io" where
  "copy_log wr component readErr [] =
     (case readErr of
        None \<Rightarrow> retE ()
      | Some e \<Rightarrow> failE (Errorf [T (''stream '' @ component @ '' logs: ''), W e]))"
| "copy_log wr component readErr (line # rest) =
     bindE (wrapE (\<lambda>e. Errorf [T (''write redacted '' @ component @ '' logs: ''), W e])
       (writeOut wr (redact_Text line))) (\<lambda>_. copy_log wr component readErr rest)"

definition component_selector :: "string \<Rightarrow> string \<Rightarrow> string" where
  "component_selector component namespace =
     ''app.kubernetes.io/name='' @ component @ '',app.kubernetes.io/instance='' @ namespace @ ''-'' @ component"

text \<open>The part under the lease: the first pod by name that is not being deleted, if it is owned.\<close>

definition find_pod :: "outside \<Rightarrow> string \<Rightarrow> config \<Rightarrow> lease \<Rightarrow> kobj io" where
  "find_pod E component c l =
     (let ns = lab_namespace (cf_Lab c) in
      bindE (verifyNamespace E ns (cf_Lab c) (lease_id l)) (\<lambda>_.
      bindE (wrapE (\<lambda>e. Errorf [T (''list '' @ component @ '' pods: ''), W e])
        (klist E Pods ns (component_selector component ns))) (\<lambda>pods.
      case find (\<lambda>p. \<not> HasDeletionTimestamp p) (sort_key GetName pods) of
        None \<Rightarrow> failE (prerequisite [T ('': no running '' @ component @ '' pod in '' @ ns)])
      | Some pod \<Rightarrow>
          bindE (liftE (verifyResourceOwnership pod (cf_Lab c) ns (lease_id l))) (\<lambda>_. retE pod))))"

definition read_log ::
  "log_reader \<Rightarrow> (history \<Rightarrow> gerr option) \<Rightarrow> string \<Rightarrow> string \<Rightarrow> string \<Rightarrow> string \<Rightarrow> bool \<Rightarrow> int \<Rightarrow> unit io" where
  "read_log reader wr component namespace pod container follow tail =
     (\<lambda>w. case reader (trace w) namespace pod container follow tail of
        Inl e \<Rightarrow> (Inl (Errorf [T (''open '' @ component @ '' logs: ''), W e]), w)
      | Inr (content, readErr) \<Rightarrow> copy_log wr component readErr (log_lines content) w)"

text \<open>The lease is given back before the log is read; \<open>readPodLogs\<close> may be nil in a service that a test builds.\<close>

definition logs_leased ::
  "outside \<Rightarrow> log_reader option \<Rightarrow> (history \<Rightarrow> gerr option) \<Rightarrow> string \<Rightarrow> string \<Rightarrow> bool \<Rightarrow> int \<Rightarrow> config \<Rightarrow> lease \<Rightarrow> unit io" where
  "logs_leased E readPodLogs wr component container follow tail c l =
     bindE (find_pod E component c l) (\<lambda>pod.
     case readPodLogs of
       None \<Rightarrow> failE (errorsNew ''kubernetes log reader is required'')
     | Some reader \<Rightarrow>
         bindE lease_Close (\<lambda>_.
         read_log reader wr component (lab_namespace (cf_Lab c)) (GetName pod) container follow tail))"

definition logs_checked ::
  "outside \<Rightarrow> lab_service \<Rightarrow> log_reader option \<Rightarrow> (history \<Rightarrow> gerr option) \<Rightarrow> string \<Rightarrow> string \<Rightarrow> bool \<Rightarrow> int \<Rightarrow> config \<Rightarrow> unit io" where
  "logs_checked E L readPodLogs wr component container follow tail c =
     (if component = ''push-service'' \<and> cf_Lab c < 3
      then failE (prerequisite [T ('': Push Service is not part of lab '' @ Itoa (cf_Lab c))])
      else if component \<noteq> ''push-service'' \<and> cf_Lab c < 4
      then failE (prerequisite [T ('': Redpanda is not part of lab '' @ Itoa (cf_Lab c))])
      else with_client E L (logs_leased E readPodLogs wr component container follow tail c))"

definition lab_Logs ::
  "outside \<Rightarrow> lab_service \<Rightarrow> log_reader option \<Rightarrow> (history \<Rightarrow> gerr option) option \<Rightarrow> path \<Rightarrow> string \<Rightarrow> bool \<Rightarrow> int \<Rightarrow> unit io" where
  "lab_Logs E L readPodLogs output cwd component follow tail =
     (case containerByComponent component of
        None \<Rightarrow> failE (prerequisite [T ('': logs are not available for component '' @ component)])
      | Some container \<Rightarrow>
          if tail < 0 then failE (errorsNew ''tail must be non-negative'')
          else case output of None \<Rightarrow> failE (errorsNew ''log output is required'') | Some wr \<Rightarrow>
          bindE (loadCurrentConfig E L cwd) (logs_checked E L readPodLogs wr component container follow tail))"

section \<open>Theorems\<close>

lemma wp_from: "wp G m Q w \<Longrightarrow> wp G m (\<lambda>r w'. Q r w' \<and> prefix (trace w) (trace w')) w"
  by (auto simp: wp_def)

definition shown :: "string list \<Rightarrow> history" where
  "shown ls = map (\<lambda>l. EOut (redact_Text l)) ls"

lemma copy_log_trace:
  "copy_log wr component readErr ls w = (r, w') \<Longrightarrow>
   \<exists>n. trace w' = trace w @ shown (take n ls) \<and> held w' = held w \<and> (r = Inr () \<longrightarrow> readErr = None \<and> take n ls = ls)"
proof (induction ls arbitrary: w)
  case Nil
  then show ?case by (auto simp: shown_def retE_def failE_def split: option.splits)
next
  case (Cons l ls)
  let ?w = "log (EOut (redact_Text l)) w"
  show ?case
  proof (cases "wr (trace w)")
    case None
    with Cons.prems have "copy_log wr component readErr ls ?w = (r, w')"
      by (simp add: bindE_def tryE_def wrapE_def writeOut_def opt_result_def retE_def)
    then obtain n where "trace w' = trace ?w @ shown (take n ls)" "held w' = held w" "r = Inr () \<longrightarrow> readErr = None \<and> take n ls = ls"
      using Cons.IH by fastforce
    then show ?thesis by (intro exI [of _ "Suc n"]) (simp add: shown_def)
  next
    case (Some e)
    with Cons.prems show ?thesis
      by (intro exI [of _ 1]) (auto simp: bindE_def tryE_def wrapE_def writeOut_def opt_result_def failE_def shown_def)
  qed
qed

lemma lock_held_shown: "lock_held (tr @ shown ls) = lock_held tr"
  by (induction ls rule: rev_induct) (simp_all add: shown_def lock_step_def append_assoc [symmetric] del: append_assoc)

lemma under_lock_shown: "guar under_lock tr (shown ls)"
  by (simp add: guar_nth under_lock_def shown_def)

lemma wp_read_log:
  assumes "\<And>r w' outs. trace w' = trace u @ shown outs \<Longrightarrow> held w' = held u \<Longrightarrow>
      (r = Inr () \<longrightarrow> (\<exists>content. reader (trace u) ns pod container follow tail = Inr (content, None) \<and> outs = log_lines content)) \<Longrightarrow>
      Q r w'"
  shows "wp under_lock (read_log reader wr component ns pod container follow tail) Q u"
proof (cases "reader (trace u) ns pod container follow tail")
  case (Inl e)
  then show ?thesis using assms [of u "[]" "Inl _"] by (simp add: wp_def read_log_def shown_def)
next
  case (Inr p)
  obtain content readErr where p: "p = (content, readErr)" by fastforce
  obtain r w' where run: "copy_log wr component readErr (log_lines content) u = (r, w')" by fastforce
  from copy_log_trace [OF run] obtain n where n: "trace w' = trace u @ shown (take n (log_lines content))" "held w' = held u"
    "r = Inr () \<longrightarrow> readErr = None \<and> take n (log_lines content) = log_lines content" by blast
  then have "Q r w'" using assms [of w' _ r] Inr p by metis
  with n(1) run Inr p under_lock_shown show ?thesis by (simp add: wp_def read_log_def)
qed

lemma holding_find_pod: "calm under_lock (\<lambda>w. held w \<and> lock_ok w) (find_pod E component c l)"
  unfolding find_pod_def Let_def by (intro holding.calm_prims holding.calm_verifyNamespace)

lemma find_pod_owned:
  assumes "find_pod E component c l u = (Inr pod, u')"
  shows "verifyResourceOwnership pod (cf_Lab c) (lab_namespace (cf_Lab c)) (lease_id l) = Inr () \<and> \<not> HasDeletionTimestamp pod"
proof -
  have "wp (\<lambda>_ _. True) (find_pod E component c l) (\<lambda>r _. \<forall>pod. r = Inr pod \<longrightarrow>
      verifyResourceOwnership pod (cf_Lab c) (lab_namespace (cf_Lab c)) (lease_id l) = Inr () \<and> \<not> HasDeletionTimestamp pod) u"
    unfolding find_pod_def Let_def verifyNamespace_def
    by (intro wp_rules conjI TrueI; simp?)+ (auto simp: find_Some_iff split: sum.splits intro!: wp_rules)
  from wpD [OF this assms] show ?thesis by simp
qed

lemma wp_find_pod:
  assumes "held u" "lock_ok u"
  shows "wp under_lock (find_pod E component c l) (\<lambda>r v. (held v \<and> lock_ok v) \<and> prefix (trace u) (trace v) \<and>
    (\<forall>pod. r = Inr pod \<longrightarrow> verifyResourceOwnership pod (cf_Lab c) (lab_namespace (cf_Lab c)) (lease_id l) = Inr ())) u"
proof -
  have "wp under_lock (find_pod E component c l) (\<lambda>r v. (held v \<and> lock_ok v) \<and> prefix (trace u) (trace v)) u"
    using assms by (intro wp_from calm_wp [OF holding_find_pod]) auto
  then show ?thesis using find_pod_owned [of E component c l u] by (auto simp: wp_def) (metis prod.collapse)
qed

text \<open>
  What holds when a part of \<open>Logs\<close> that started after \<open>w0\<close> has ended: the lock is free, and after a
  trace \<open>tr\<close> at which it was already free only lines of the log were written.
\<close>

definition logs_post :: "log_reader \<Rightarrow> string \<Rightarrow> bool \<Rightarrow> int \<Rightarrow> history \<Rightarrow> gerr + unit \<Rightarrow> world \<Rightarrow> bool" where
  "logs_post reader component follow tail h r w' \<longleftrightarrow> \<not> held w' \<and> lock_ok w' \<and>
     (\<exists>tr outs. prefix h tr \<and> trace w' = tr @ shown outs \<and> \<not> lock_held tr \<and>
      (r = Inr () \<longrightarrow> (\<exists>(c :: config) (l :: lease) pod container content. containerByComponent component = Some container \<and>
         verifyResourceOwnership pod (cf_Lab c) (lab_namespace (cf_Lab c)) (lease_id l) = Inr () \<and>
         reader tr (lab_namespace (cf_Lab c)) (GetName pod) container follow tail = Inr (content, None) \<and>
         outs = log_lines content)))"

lemma logs_post_error:
  assumes "\<not> held v" "lock_ok v" "prefix h (trace v)"
  shows "logs_post reader component follow tail h (Inl e) v"
proof -
  have "trace v = trace v @ shown []" "\<not> lock_held (trace v)" using assms by (simp_all add: shown_def lock_ok_def)
  with assms show ?thesis unfolding logs_post_def by (metis sum.distinct(1))
qed

lemma logs_post_close:
  assumes "lock_ok v" "prefix h (trace v)"
  shows "wp under_lock lease_Close (\<lambda>_. logs_post reader component follow tail h (Inl e)) v"
  by (rule wp_mono [OF wp_from [OF lease_Close_wp [OF assms(1)]]]) (use assms(2) in \<open>auto intro!: logs_post_error\<close>)

lemma logs_post_stream:
  fixes c :: config and l :: lease
  assumes "\<not> held u" "lock_ok u" "prefix h (trace u)" "containerByComponent component = Some container"
    "verifyResourceOwnership pod (cf_Lab c) (lab_namespace (cf_Lab c)) (lease_id l) = Inr ()"
  shows "wp under_lock (read_log reader wr component (lab_namespace (cf_Lab c)) (GetName pod) container follow tail)
     (\<lambda>r u'. wp under_lock lease_Close (\<lambda>_. logs_post reader component follow tail h r) u') u"
proof (rule wp_read_log)
  fix r :: "gerr + unit" and w' :: world and outs
  assume out: "trace w' = trace u @ shown outs" "held w' = held u"
    "r = Inr () \<longrightarrow> (\<exists>content. reader (trace u) (lab_namespace (cf_Lab c)) (GetName pod) container follow tail =
       Inr (content, None) \<and> outs = log_lines content)"
  have "\<not> held w' \<and> lock_ok w'" "\<not> lock_held (trace u)"
    using out(1,2) assms(1,2) by (auto simp: lock_ok_def lock_held_shown)
  then have "logs_post reader component follow tail h r w'"
    unfolding logs_post_def using assms(3-5) out(1,3) by (intro conjI exI [of _ "trace u"] exI [of _ outs] impI; blast)
  with out(2) assms(1) show "wp under_lock lease_Close (\<lambda>_. logs_post reader component follow tail h r) w'"
    by (simp add: wp_def lease_Close_def)
qed

lemma logs_post_found:
  fixes c :: config and l :: lease
  assumes v: "lock_ok v" "prefix h (trace v)" and k: "containerByComponent component = Some container"
    and own: "verifyResourceOwnership pod (cf_Lab c) (lab_namespace (cf_Lab c)) (lease_id l) = Inr ()"
  shows "wp under_lock (bindE lease_Close (\<lambda>_. read_log reader wr component (lab_namespace (cf_Lab c)) (GetName pod)
      container follow tail)) (\<lambda>r w'. wp under_lock lease_Close (\<lambda>_. logs_post reader component follow tail h r) w') v"
  by (rule wp_bind, rule wp_mono [OF wp_from [OF lease_Close_wp [OF v(1)]]])
    (use v(2) own in \<open>auto intro!: logs_post_stream k logs_post_close intro: prefix_order.trans split: sum.splits\<close>)

lemma logs_post_leased:
  assumes u: "held u" "lock_ok u" "prefix h (trace u)" and k: "containerByComponent component = Some container"
  shows "wp under_lock (logs_leased E (Some reader) wr component container follow tail c l)
     (\<lambda>r u'. wp under_lock lease_Close (\<lambda>_. logs_post reader component follow tail h r) u') u"
  unfolding logs_leased_def option.case
proof (rule wp_bind, rule wp_mono [OF wp_find_pod [OF u(1,2)]])
  fix rp :: "gerr + kobj" and v assume v: "(held v \<and> lock_ok v) \<and> prefix (trace u) (trace v) \<and> (\<forall>pod. rp = Inr pod \<longrightarrow>
    verifyResourceOwnership pod (cf_Lab c) (lab_namespace (cf_Lab c)) (lease_id l) = Inr ())"
  then have p: "lock_ok v" "prefix h (trace v)" using u(3) prefix_order.trans by blast+
  with v show "case rp of Inl e \<Rightarrow> wp under_lock lease_Close (\<lambda>_. logs_post reader component follow tail h (Inl e)) v
    | Inr pod \<Rightarrow> wp under_lock (bindE lease_Close (\<lambda>_. read_log reader wr component (lab_namespace (cf_Lab c)) (GetName pod)
        container follow tail)) (\<lambda>r w'. wp under_lock lease_Close (\<lambda>_. logs_post reader component follow tail h r) w') v"
    by (cases rp) (auto intro!: logs_post_close logs_post_found k)
qed

lemma logs_post_checked:
  assumes u: "\<not> held u" "lock_ok u" "prefix h (trace u)" and k: "containerByComponent component = Some container"
  shows "wp under_lock (logs_checked E L (Some reader) wr component container follow tail c)
     (logs_post reader component follow tail h) u"
proof -
  have "wp under_lock (with_client E L (logs_leased E (Some reader) wr component container follow tail c))
      (logs_post reader component follow tail h) u"
    unfolding with_client_def
    by (rule wp_bind, rule wp_mono [OF wp_from [OF wp_lab_client [OF u(2)]]])
      (use u in \<open>auto intro!: logs_post_error logs_post_leased wp_defer k intro: prefix_order.trans split: sum.splits\<close>)
  then show ?thesis unfolding logs_checked_def using assms by (intro wp_if wp_fail logs_post_error)
qed

lemma wp_lab_Logs:
  assumes "lock_ok w" "\<not> held w"
  shows "wp under_lock (lab_Logs E L (Some reader) (Some wr) cwd component follow tail)
     (logs_post reader component follow tail (trace w)) w"
proof (cases "containerByComponent component")
  case None
  then show ?thesis using assms by (simp add: lab_Logs_def wp_fail logs_post_error)
next
  case (Some container)
  let ?Q = "logs_post reader component follow tail (trace w)"
  have "wp under_lock (loadCurrentConfig E L cwd) (\<lambda>r w'. (lock_ok w' \<and> held w' = False) \<and> prefix (trace w) (trace w')) w"
    using assms by (intro wp_from calm_wp [OF local_prepare(1)]) auto
  then have "wp under_lock (loadCurrentConfig E L cwd) (\<lambda>r u. case r of Inl e \<Rightarrow> ?Q (Inl e) u
      | Inr c \<Rightarrow> wp under_lock (logs_checked E L (Some reader) wr component container follow tail c) ?Q u) w"
    by (rule wp_mono) (auto intro!: logs_post_error logs_post_checked Some split: sum.split)
  with assms show ?thesis
    unfolding lab_Logs_def Some option.case by (intro wp_if wp_fail logs_post_error wp_bind) simp_all
qed


text \<open>A cluster with an owned Push Service pod of lab 3, whose log holds a password.\<close>

definition logs_obj :: kobj where
  "logs_obj = empty_obj\<lparr>GetName := ''push-service-0'', GetLabels := [(''app.kubernetes.io/managed-by'', ''tripgoctl''),
       (''app.kubernetes.io/part-of'', ''tripgo-local''), (''tripgo.course/lab'', ''03''),
       (''tripgo.course/environment'', ''tripgo-lab-03'')],
     GetAnnotations := [(''tripgo.course/cluster-id'', ''id'')], data_cluster_id := ''id''\<rparr>"

definition logs_outside :: outside where
  "logs_outside = lab_outside\<lparr>env_get := (\<lambda>_ _ _ _. Inr logs_obj), env_list := (\<lambda>_ _ _ _. Inr [logs_obj])\<rparr>"

definition logs_lab :: lab_service where
  "logs_lab = sample_lab\<lparr>lb_decode := (\<lambda>_. Inr \<lparr>doc_SchemaVersion = 1, doc_Lab = 3,
     doc_Components = [''postgres'', ''observability'', ''push''], doc_Env = []\<rparr>)\<rparr>"

definition logs_reader :: log_reader where
  "logs_reader _ _ _ _ _ _ = Inr (''password=hunter2'' @ [nl], None)"

lemma logs_config:
  "loadCurrentConfig logs_outside logs_lab [''wd''] lab_world =
     (Inr \<lparr>cf_SchemaVersion = 1, cf_Lab = 3, cf_Components = [''postgres'', ''observability'', ''push''], cf_CustomEnv = []\<rparr>,
      log (EFs (ReadFile [''wd'', ''environment.toml'']) None) lab_world)"
proof -
  have "Parse (lb_decode logs_lab) path s = Inr \<lparr>cf_SchemaVersion = 1, cf_Lab = 3,
      cf_Components = [''postgres'', ''observability'', ''push''], cf_CustomEnv = []\<rparr>" for path s
    by (simp add: Parse_def validate_document_Inr_iff logs_lab_def)
       (simp add: SchemaVersion_def Components_def componentsByLab_def component_defs insert_commute)
  then show ?thesis
    by (simp add: loadCurrentConfig_def ParseFile_def io_defs fs_get_def lab_world_def
        logs_outside_def lab_outside_def owned_def quiet_def)
qed

lemma logs_outside_sel:
  "env_run logs_outside = env_run lab_outside" "env_get logs_outside tr g ns n = Inr logs_obj"
  "env_list logs_outside tr g ns sel = Inr [logs_obj]" "env_fault logs_outside tr op = None"
  "env_flock logs_outside tr = None" "env_ctx logs_outside tr = None" "env_restconfig logs_outside s = None"
  "env_client logs_outside tr = None" "env_reporter logs_outside = False"
  "env_sha256 logs_outside s = env_sha256 owned []" "lb_cluster logs_lab = lb_cluster sample_lab"
  by (simp_all add: logs_outside_def lab_outside_sel logs_lab_def)

lemma lab_namespace_3: "lab_namespace 3 = ''tripgo-lab-03''" "pad02 3 = ''03''"
proof -
  show pad: "pad02 3 = ''03''" by (simp add: pad02_def Itoa_def nat_digits_small char_of_def bit_0)
  obtain e where "environment_entry 3 = Some e" "en_Namespace e = ''tripgo-lab-'' @ pad02 3"
    by (rule environment_entry_Some [of 3]) simp_all
  then show "lab_namespace 3 = ''tripgo-lab-03''" by (simp add: lab_namespace_def pad)
qed

lemma logs_obj_sel:
  "data_cluster_id logs_obj = ''id''" "verifyResourceOwnership logs_obj 3 ''tripgo-lab-03'' ''id'' = Inr ()"
  "GetName logs_obj = ''push-service-0''" "\<not> HasDeletionTimestamp logs_obj"
  by (simp_all add: logs_obj_def verifyResourceOwnership_def lookup_str_def lab_namespace_3 empty_obj_def)

lemma logs_lease:
  "\<exists>l. fst (lab_client logs_outside logs_lab (log e lab_world)) = Inr l \<and> lease_id l = ''id''"
proof -
  obtain m where config: "kindConfig logs_outside = Inr (m, env_sha256 owned [])"
    using kindConfig_total [of logs_outside] by (auto simp: logs_outside_sel)
  show ?thesis
    by (simp add: lab_client_def BeginEnvironmentOperation_def acquireLock_def flockE_def closeLock_def
      begin_locked_def verifyStateAndContainers_def kindKubernetesAccess_def running_args_def
      io_defs fs_defs logs_outside_sel lab_outside_sel sample_lab_sel lab_world_def owned_world_def config
      lockPath_def statePath_def checkPlatform_def checkDocker_def loadState_def decode_checked_def
      ensureKind_def EnsureKind_def validFileSHA256_def kind_path_def kindChecksums_def owned_sha
      verifyMarker_def logs_obj_sel verifyRegistryOwnership_def sample_state_def stateSchemaVersion_def
      upt_rec marker_args_def path_text_def KindVersion_def KubernetesVersion_def)
qed

lemma logs_run:
  "fst (lab_Logs logs_outside logs_lab (Some logs_reader) (Some (\<lambda>_. None)) [''wd''] ''push-service'' False 100 lab_world) = Inr ()"
proof -
  let ?u = "log (EFs (ReadFile [''wd'', ''environment.toml'']) None) lab_world"
  obtain l u where u: "lab_client logs_outside logs_lab ?u = (Inr l, u)" "lease_id l = ''id''"
    using logs_lease by (metis prod.collapse)
  have found: "fst (find_pod logs_outside ''push-service'' c l v) = Inr logs_obj" if "cf_Lab c = 3" for c v
    using that u(2) by (simp add: find_pod_def Let_def verifyNamespace_def io_defs logs_outside_sel logs_obj_sel lab_namespace_3)
  have copied: "fst (read_log logs_reader (\<lambda>_. None) a b c d e f v) = Inr ()" for a b c d e f v
    using copy_log_trace [OF prod.collapse [symmetric]]
    by (simp add: read_log_def logs_reader_def log_lines.simps io_defs writeOut_def opt_result_def)
  have "fst (logs_leased logs_outside (Some logs_reader) (\<lambda>_. None) ''push-service'' x False 100 c l v) = Inr ()" if "cf_Lab c = 3" for c v x
    using found [OF that, of v] copied that
    by (simp add: logs_leased_def bindE_def tryE_def case_prod_unfold lease_Close_def closeLock_def retE_def)
  then show ?thesis
    by (simp add: lab_Logs_def containerByComponent_def bindE_def tryE_def logs_config logs_checked_def with_client_def u deferE_def
        case_prod_unfold)
qed


end
