(* ===== verification/Doctor.thy ===== *)
theory Doctor
  imports Cluster_Service Cluster_Safety
begin

text \<open>
  \<open>internal/cluster/doctor.go\<close>: the local diagnostics. The checks are made in the order of the code, each
  with the calls it makes. \<open>encoding/json\<close> is a parameter of the bundle. The theorem bounds
  what a report can contain: it is determined by flags and numbers, so neither the output of a
  command nor an error text nor the identity of the cluster reaches it.
\<close>

record diagnostic_check =
  dc_Name :: string
  dc_Status :: string
  dc_Detail :: string

record diagnostic_report =
  dr_SchemaVersion :: int
  dr_Platform :: string
  dr_Checks :: "diagnostic_check list"

definition add_check :: "string \<Rightarrow> string \<Rightarrow> string \<Rightarrow> diagnostic_check" where
  "add_check name status detail = \<lparr>dc_Name = name, dc_Status = status, dc_Detail = detail\<rparr>"

definition diagnose_platform :: "cluster_service \<Rightarrow> diagnostic_check" where
  "diagnose_platform S =
     (case checkPlatform S of
        Inl _ \<Rightarrow> add_check ''platform'' ''error'' ''unsupported OS or architecture''
      | Inr _ \<Rightarrow> add_check ''platform'' ''ok'' ''supported'')"

definition diagnose_docker :: "outside \<Rightarrow> diagnostic_check io" where
  "diagnose_docker E =
     tryE (runE E ''docker'' [''version'', ''--format'', ''{{.Server.Version}}'']) (\<lambda>r. case r of
       Inl _ \<Rightarrow> retE (add_check ''docker-daemon'' ''error'' ''unavailable; start Docker and retry'')
     | Inr _ \<Rightarrow> retE (add_check ''docker-daemon'' ''ok'' ''available''))"

definition diagnose_memory :: "outside \<Rightarrow> diagnostic_check io" where
  "diagnose_memory E =
     tryE (runE E ''docker'' memory_args) (\<lambda>memory. case memory of
       Inl _ \<Rightarrow> retE (add_check ''docker-memory'' ''warning'' ''could not be measured'')
     | Inr text \<Rightarrow> (case ParseUint64 text of
         None \<Rightarrow> retE (add_check ''docker-memory'' ''warning'' ''Docker returned an invalid value'')
       | Some bytes \<Rightarrow> retE (add_check ''docker-memory'' (if bytes < 6 * gib then ''warning'' else ''ok'')
           (show_GiB1 (int bytes) @ '' GiB available; 6 GiB recommended''))))"

definition disk_space :: "outside \<Rightarrow> diagnostic_check io" where
  "disk_space E =
     (\<lambda>w. (case env_statfs E (trace w) of
         Inl _ \<Rightarrow> retE (add_check ''disk'' ''warning'' ''free space could not be measured'')
       | Inr free \<Rightarrow> retE (add_check ''disk'' (if free < 10 * gib then ''warning'' else ''ok'')
           (show_GiB1 (int free) @ '' GiB free near cache; 10 GiB recommended''))) w)"

definition diagnose_disk :: "outside \<Rightarrow> cluster_service \<Rightarrow> diagnostic_check io" where
  "diagnose_disk E S =
     tryE (mkdirAll E (sv_cacheDir S)) (\<lambda>r. case r of
       Inl _ \<Rightarrow> retE (add_check ''disk'' ''warning'' ''cache directory is unavailable'')
     | Inr _ \<Rightarrow> disk_space E)"

text \<open>Indexing the map of checksums gives the empty string on an unsupported platform.\<close>

definition diagnose_kind :: "outside \<Rightarrow> cluster_service \<Rightarrow> diagnostic_check io" where
  "diagnose_kind E S =
     (let checksum = lookup_str kindChecksums (sv_goos S @ ''/'' @ sv_goarch S) in
      bindE (if checksum \<noteq> [] then validFileSHA256 E (kind_path (sv_cacheDir S)) checksum else retE False) (\<lambda>valid.
      retE (if valid
        then add_check ''kind-cache'' ''ok'' ''verified; offline cluster operations can use the warmed helper cache''
        else add_check ''kind-cache'' ''warning'' ''missing or invalid; network is required before first cluster operation'')))"

definition diagnose_state :: "outside \<Rightarrow> cluster_service \<Rightarrow> diagnostic_check io" where
  "diagnose_state E S =
     tryE (loadState E (sv_codec S) (statePath S)) (\<lambda>r. case r of
       Inl stateErr \<Rightarrow> retE (if errors_Is stateErr ErrNotExist
         then add_check ''local-state'' ''ok'' ''absent (no owned cluster recorded)''
         else add_check ''local-state'' ''error'' ''corrupt or incompatible; ownership-sensitive cleanup is intentionally blocked'')
     | Inr value \<Rightarrow> retE (add_check ''local-state'' ''ok'' (''compatible schema; '' @ nat_digits (length (st_Namespaces value)) @
         '' known, '' @ nat_digits (length (st_RunningNamespaces value)) @ '' running environments'')))"

definition Diagnose :: "outside \<Rightarrow> cluster_service \<Rightarrow> diagnostic_report io" where
  "Diagnose E S =
     bindE (diagnose_docker E) (\<lambda>docker.
     bindE (diagnose_memory E) (\<lambda>memory.
     bindE (diagnose_disk E S) (\<lambda>disk.
     bindE (diagnose_kind E S) (\<lambda>kind.
     bindE (diagnose_state E S) (\<lambda>state.
     retE \<lparr>dr_SchemaVersion = 1, dr_Platform = sv_goos S @ ''/'' @ sv_goarch S,
       dr_Checks = [diagnose_platform S, docker, memory, disk, kind, state]\<rparr>)))))"

text \<open>\<open>json.MarshalIndent\<close> is the parameter.\<close>

definition MarshalDiagnosticBundle :: "(diagnostic_report \<Rightarrow> gerr + string) \<Rightarrow> diagnostic_report \<Rightarrow> gerr + string" where
  "MarshalDiagnosticBundle marshal rep =
     (case marshal rep of
        Inl e \<Rightarrow> Inl (Errorf [T ''encode diagnostic bundle: '', W e])
      | Inr data \<Rightarrow> Inr (data @ [nl]))"

section \<open>What a report tells\<close>

text \<open>The facts a report is made of: flags and numbers only.\<close>

datatype measured = Unavailable | Invalid | Measured nat
datatype recorded = Absent | Corrupt | Recorded nat nat

record doctor_facts =
  df_docker :: bool
  df_memory :: measured
  df_disk :: measured
  df_kind :: bool
  df_state :: recorded

definition enough :: "nat \<Rightarrow> nat \<Rightarrow> string" where
  "enough needed n = (if n < needed * gib then ''warning'' else ''ok'')"

definition memory_check :: "measured \<Rightarrow> string \<times> string" where
  "memory_check m = (case m of
     Unavailable \<Rightarrow> (''warning'', ''could not be measured'')
   | Invalid \<Rightarrow> (''warning'', ''Docker returned an invalid value'')
   | Measured n \<Rightarrow> (enough 6 n, show_GiB1 (int n) @ '' GiB available; 6 GiB recommended''))"

definition disk_check :: "measured \<Rightarrow> string \<times> string" where
  "disk_check m = (case m of
     Unavailable \<Rightarrow> (''warning'', ''cache directory is unavailable'')
   | Invalid \<Rightarrow> (''warning'', ''free space could not be measured'')
   | Measured n \<Rightarrow> (enough 10 n, show_GiB1 (int n) @ '' GiB free near cache; 10 GiB recommended''))"

definition docker_check :: "bool \<Rightarrow> string \<times> string" where
  "docker_check b = (if b then (''ok'', ''available'') else (''error'', ''unavailable; start Docker and retry''))"

definition kind_check :: "bool \<Rightarrow> string \<times> string" where
  "kind_check b = (if b then (''ok'', ''verified; offline cluster operations can use the warmed helper cache'')
     else (''warning'', ''missing or invalid; network is required before first cluster operation''))"

definition platform_check :: "bool \<Rightarrow> string \<times> string" where
  "platform_check b = (if b then (''ok'', ''supported'') else (''error'', ''unsupported OS or architecture''))"

definition state_check :: "recorded \<Rightarrow> string \<times> string" where
  "state_check r = (case r of
     Absent \<Rightarrow> (''ok'', ''absent (no owned cluster recorded)'')
   | Corrupt \<Rightarrow> (''error'', ''corrupt or incompatible; ownership-sensitive cleanup is intentionally blocked'')
   | Recorded known running \<Rightarrow> (''ok'', ''compatible schema; '' @ nat_digits known @ '' known, '' @ nat_digits running @ '' running environments''))"

definition doctor_checks :: "bool \<Rightarrow> doctor_facts \<Rightarrow> (string \<times> string \<times> string) list" where
  "doctor_checks supported d =
     [(''platform'', platform_check supported), (''docker-daemon'', docker_check (df_docker d)),
      (''docker-memory'', memory_check (df_memory d)), (''disk'', disk_check (df_disk d)),
      (''kind-cache'', kind_check (df_kind d)), (''local-state'', state_check (df_state d))]"

definition check_parts :: "diagnostic_check \<Rightarrow> string \<times> string \<times> string" where
  "check_parts c = (dc_Name c, dc_Status c, dc_Detail c)"

lemma check_parts_add [simp]: "check_parts (add_check n s d) = (n, s, d)"
  by (simp add: check_parts_def add_check_def)

text \<open>A check that shows a fact of some kind.\<close>

definition shows_as :: "string \<Rightarrow> ('a \<Rightarrow> string \<times> string) \<Rightarrow> diagnostic_check \<Rightarrow> bool" where
  "shows_as name f c \<longleftrightarrow> (\<exists>m. check_parts c = (name, f m))"

lemma shows_asI: "check_parts c = (name, f m) \<Longrightarrow> shows_as name f c"
  by (auto simp: shows_as_def)

lemma shows_docker:
  "shows_as ''docker-daemon'' docker_check (add_check ''docker-daemon'' ''error'' ''unavailable; start Docker and retry'')"
  "shows_as ''docker-daemon'' docker_check (add_check ''docker-daemon'' ''ok'' ''available'')"
  by (rule shows_asI [of _ _ _ False] shows_asI [of _ _ _ True]; simp add: docker_check_def)+

lemma shows_memory:
  "shows_as ''docker-memory'' memory_check (add_check ''docker-memory'' ''warning'' ''could not be measured'')"
  "shows_as ''docker-memory'' memory_check (add_check ''docker-memory'' ''warning'' ''Docker returned an invalid value'')"
  "shows_as ''docker-memory'' memory_check (add_check ''docker-memory'' (if n < 6 * gib then ''warning'' else ''ok'')
     (show_GiB1 (int n) @ '' GiB available; 6 GiB recommended''))"
  by (rule shows_asI [of _ _ _ Unavailable], simp add: memory_check_def)
     (rule shows_asI [of _ _ _ Invalid], simp add: memory_check_def,
      rule shows_asI [of _ _ _ "Measured n"], simp add: memory_check_def enough_def)

lemma shows_disk:
  "shows_as ''disk'' disk_check (add_check ''disk'' ''warning'' ''cache directory is unavailable'')"
  "shows_as ''disk'' disk_check (add_check ''disk'' ''warning'' ''free space could not be measured'')"
  "shows_as ''disk'' disk_check (add_check ''disk'' (if n < 10 * gib then ''warning'' else ''ok'')
     (show_GiB1 (int n) @ '' GiB free near cache; 10 GiB recommended''))"
  by (rule shows_asI [of _ _ _ Unavailable], simp add: disk_check_def)
     (rule shows_asI [of _ _ _ Invalid], simp add: disk_check_def,
      rule shows_asI [of _ _ _ "Measured n"], simp add: disk_check_def enough_def)

lemma shows_state:
  "shows_as ''local-state'' state_check (add_check ''local-state'' ''ok'' ''absent (no owned cluster recorded)'')"
  "shows_as ''local-state'' state_check (add_check ''local-state'' ''error''
     ''corrupt or incompatible; ownership-sensitive cleanup is intentionally blocked'')"
  "shows_as ''local-state'' state_check (add_check ''local-state'' ''ok''
     (''compatible schema; '' @ nat_digits k @ '' known, '' @ nat_digits n @ '' running environments''))"
  by (rule shows_asI [of _ _ _ Absent], simp add: state_check_def)
     (rule shows_asI [of _ _ _ Corrupt], simp add: state_check_def,
      rule shows_asI [of _ _ _ "Recorded k n"], simp add: state_check_def)

text \<open>The discipline of a check: nothing outside changes, and of the files only missing directories appear.\<close>

abbreviation reads :: "history \<Rightarrow> event \<Rightarrow> bool" where
  "reads \<equiv> \<lambda>_ e. \<not> mutates e"

definition only_dirs :: "path \<Rightarrow> files \<Rightarrow> files \<Rightarrow> bool" where
  "only_dirs p f g \<longleftrightarrow> (\<forall>q. fs_get g q = fs_get f q \<or>
     fs_get f q = None \<and> fs_get g q = Some Dir \<and> q \<in> set (path_prefixes p))"

lemma only_dirs_refl [simp]: "only_dirs p f f"
  by (simp add: only_dirs_def)

lemma wp_docker_check:
  "wp reads (diagnose_docker E) (\<lambda>r u. \<exists>c. r = Inr c \<and> shows_as ''docker-daemon'' docker_check c \<and> files u = files w) w"
  unfolding diagnose_docker_def
  by (intro wp_try wp_run conjI) (auto simp: query_command_def shows_docker intro!: wp_ret split: sum.splits)

lemma wp_memory_check:
  "wp reads (diagnose_memory E) (\<lambda>r u. \<exists>c. r = Inr c \<and> shows_as ''docker-memory'' memory_check c \<and> files u = files w) w"
  unfolding diagnose_memory_def
  by (intro wp_try wp_run conjI)
     (simp_all add: memory_args_def query_command_def wp_ret shows_memory del: append.simps split: sum.split option.split)

lemma wp_disk_check:
  "wp reads (diagnose_disk E S) (\<lambda>r u. \<exists>c. r = Inr c \<and> shows_as ''disk'' disk_check c \<and>
     only_dirs (sv_cacheDir S) (files w) (files u)) w"
proof -
  have stat: "wp reads (disk_space E) (\<lambda>r u. \<exists>c. r = Inr c \<and> shows_as ''disk'' disk_check c \<and> files u = files v) v" for v
    by (simp add: disk_space_def wp_def retE_def shows_disk split: sum.splits)
  have dirs: "only_dirs p f g" if "\<And>q. fs_get g q = (if q \<in> set (path_prefixes p) \<and> fs_get f q = None then Some Dir else fs_get f q)" for p f g
    using that by (auto simp: only_dirs_def)
  show ?thesis
    unfolding diagnose_disk_def
    by (intro wp_try wp_mkdirAll conjI; simp add: wp_ret shows_disk)
      (rule wp_mono [OF stat], use dirs in auto)
qed

definition pinned_kind :: "outside \<Rightarrow> cluster_service \<Rightarrow> files \<Rightarrow> bool" where
  "pinned_kind E S f \<longleftrightarrow> (\<forall>c m. fs_get f (kind_path (sv_cacheDir S)) = Some (RegFile c m) \<longrightarrow>
     (sv_goos S @ ''/'' @ sv_goarch S, env_sha256 E c) \<in> set kindChecksums) \<and>
     fs_get f (kind_path (sv_cacheDir S)) \<noteq> None"

lemma wp_validFile:
  "wp reads (validFileSHA256 E p k) (\<lambda>r u. \<not> isl r \<and> files u = files w \<and> (r = Inr True \<longrightarrow> fs_get (files w) p \<noteq> None \<and>
     (\<forall>c m. fs_get (files w) p = Some (RegFile c m) \<longrightarrow> env_sha256 E c = k))) w"
  unfolding validFileSHA256_def
  by (rule wp_try, rule wp_readFile) (auto simp: wp_def retE_def)

lemma pinned_checksum: "lookup_str kindChecksums k \<noteq> [] \<Longrightarrow> (k, lookup_str kindChecksums k) \<in> set kindChecksums"
  by (auto simp: lookup_str_def split: option.splits dest: map_of_SomeD)

lemma wp_kind_check:
  "wp reads (diagnose_kind E S) (\<lambda>r u. \<exists>c. r = Inr c \<and> (\<exists>b. check_parts c = (''kind-cache'', kind_check b) \<and>
     (b \<longrightarrow> pinned_kind E S (files w))) \<and> files u = files w) w"
proof -
  define k where "k = sv_goos S @ ''/'' @ sv_goarch S"
  have pinned: "pinned_kind E S (files w) \<longleftrightarrow> (\<forall>c m. fs_get (files w) (kind_path (sv_cacheDir S)) = Some (RegFile c m) \<longrightarrow>
      (k, env_sha256 E c) \<in> set kindChecksums) \<and> fs_get (files w) (kind_path (sv_cacheDir S)) \<noteq> None"
    by (simp only: pinned_kind_def k_def)
  have "wp reads (if lookup_str kindChecksums k \<noteq> [] then validFileSHA256 E (kind_path (sv_cacheDir S)) (lookup_str kindChecksums k)
      else retE False) (\<lambda>r u. \<not> isl r \<and> files u = files w \<and> (r = Inr True \<longrightarrow> pinned_kind E S (files w))) w"
  proof (rule wp_if)
    assume "lookup_str kindChecksums k \<noteq> []"
    note key = pinned_checksum [OF this]
    show "wp reads (validFileSHA256 E (kind_path (sv_cacheDir S)) (lookup_str kindChecksums k))
      (\<lambda>r u. \<not> isl r \<and> files u = files w \<and> (r = Inr True \<longrightarrow> pinned_kind E S (files w))) w"
      by (rule wp_mono [OF wp_validFile]) (use key pinned in metis)
  qed (simp add: wp_def retE_def)
  note found = this [unfolded k_def]
  show ?thesis
    unfolding diagnose_kind_def Let_def
    by (rule wp_bind, rule wp_mono [OF found])
       (auto simp: kind_check_def wp_def retE_def isl_def simp del: append.simps split: sum.splits)
qed

lemma wp_state_check:
  "wp reads (diagnose_state E S) (\<lambda>r u. \<exists>c. r = Inr c \<and> shows_as ''local-state'' state_check c \<and> files u = files w) w"
  unfolding diagnose_state_def loadState_def
  by (intro wp_try wp_bind wp_readFile conjI)
     (auto simp: shows_state simp del: append.simps intro!: wp_ret wp_lift split: sum.split)

lemma wp_seq:
  assumes "wp G m (\<lambda>r u. \<exists>x. r = Inr x \<and> R x u) w" "\<And>x u. R x u \<Longrightarrow> wp G (f x) Q u"
  shows "wp G (bindE m f) Q w"
  by (rule wp_bind, rule wp_mono [OF assms(1)]) (auto intro: assms(2))

lemma kind_path_fresh: "kind_path d \<notin> set (path_prefixes d)"
proof
  assume "kind_path d \<in> set (path_prefixes d)"
  then obtain n where "kind_path d = take n d" by (auto simp: path_prefixes_def)
  then have "length (kind_path d) \<le> length d" by simp
  then show False by (simp add: kind_path_def)
qed

lemma pinned_kind_dirs:
  assumes "only_dirs (sv_cacheDir S) f g" "pinned_kind E S g"
  shows "pinned_kind E S f"
  using assms kind_path_fresh unfolding pinned_kind_def only_dirs_def by metis

lemma platform_facts:
  "check_parts (diagnose_platform S) = (''platform'', platform_check (sv_goos S @ ''/'' @ sv_goarch S \<in> fst ` set kindChecksums))"
  by (auto simp: diagnose_platform_def checkPlatform_def platform_check_def map_of_eq_None_iff split: option.split
      dest!: map_of_SomeD) force

text \<open>
  C36: \<open>Diagnose\<close> always returns a report of six checks, whatever fails; it changes nothing outside
  the process, and of the files it only creates missing directories on the way to the cache. Apart
  from the platform the report is determined by flags and numbers, so that no command output,
  error text or identity is in it, and it calls the cached kind verified only when the file has
  the pinned checksum of the platform.
\<close>
theorem Diagnose_secret_free:
  "\<exists>rep w' d es. Diagnose E S w = (Inr rep, w') \<and> trace w' = trace w @ es \<and>
     (\<forall>i < length es. \<not> mutates (es ! i)) \<and> only_dirs (sv_cacheDir S) (files w) (files w') \<and>
     dr_Platform rep = sv_goos S @ ''/'' @ sv_goarch S \<and>
     map check_parts (dr_Checks rep) = doctor_checks (sv_goos S @ ''/'' @ sv_goarch S \<in> fst ` set kindChecksums) d \<and>
     (df_kind d \<longrightarrow> pinned_kind E S (files w))"
proof -
  have "wp reads (Diagnose E S) (\<lambda>r u. \<exists>rep d. r = Inr rep \<and> only_dirs (sv_cacheDir S) (files w) (files u) \<and>
     dr_Platform rep = sv_goos S @ ''/'' @ sv_goarch S \<and>
     map check_parts (dr_Checks rep) = doctor_checks (sv_goos S @ ''/'' @ sv_goarch S \<in> fst ` set kindChecksums) d \<and>
     (df_kind d \<longrightarrow> pinned_kind E S (files w))) w"
    unfolding Diagnose_def
  proof (rule wp_seq [OF wp_docker_check], rule wp_seq [OF wp_memory_check], rule wp_seq [OF wp_disk_check],
      rule wp_seq [OF wp_kind_check], rule wp_seq [OF wp_state_check], rule wp_ret)
    fix docker u1 memory u2 disk u3 kind u4 state u5
    assume checks: "shows_as ''docker-daemon'' docker_check docker \<and> files u1 = files w"
      "shows_as ''docker-memory'' memory_check memory \<and> files u2 = files u1"
      "shows_as ''disk'' disk_check disk \<and> only_dirs (sv_cacheDir S) (files u2) (files u3)"
      "(\<exists>b. check_parts kind = (''kind-cache'', kind_check b) \<and> (b \<longrightarrow> pinned_kind E S (files u3))) \<and> files u4 = files u3"
      "shows_as ''local-state'' state_check state \<and> files u5 = files u4"
    then obtain a m k t where "check_parts docker = (''docker-daemon'', docker_check a)"
        "check_parts memory = (''docker-memory'', memory_check m)" "check_parts disk = (''disk'', disk_check k)"
        "check_parts state = (''local-state'', state_check t)"
      unfolding shows_as_def by blast
    moreover obtain b where "check_parts kind = (''kind-cache'', kind_check b)" "b \<longrightarrow> pinned_kind E S (files u3)"
      using checks(4) by blast
    moreover have "b \<longrightarrow> pinned_kind E S (files w)" "only_dirs (sv_cacheDir S) (files w) (files u5)"
      using calculation(6) pinned_kind_dirs [of S "files w" "files u3"] checks by auto
    ultimately have "map check_parts [diagnose_platform S, docker, memory, disk, kind, state] =
        doctor_checks (sv_goos S @ ''/'' @ sv_goarch S \<in> fst ` set kindChecksums)
          \<lparr>df_docker = a, df_memory = m, df_disk = k, df_kind = b, df_state = t\<rparr>"
      "only_dirs (sv_cacheDir S) (files w) (files u5)" "b \<longrightarrow> pinned_kind E S (files w)"
      by (simp_all add: doctor_checks_def platform_facts del: append.simps)
    then show "\<exists>rep d. Inr \<lparr>dr_SchemaVersion = 1, dr_Platform = sv_goos S @ ''/'' @ sv_goarch S,
          dr_Checks = [diagnose_platform S, docker, memory, disk, kind, state]\<rparr> = Inr rep \<and>
        only_dirs (sv_cacheDir S) (files w) (files u5) \<and> dr_Platform rep = sv_goos S @ ''/'' @ sv_goarch S \<and>
        map check_parts (dr_Checks rep) = doctor_checks (sv_goos S @ ''/'' @ sv_goarch S \<in> fst ` set kindChecksums) d \<and>
        (df_kind d \<longrightarrow> pinned_kind E S (files w))"
      by (metis diagnostic_report.select_convs(2,3) doctor_facts.select_convs(4))
  qed
  from wp_trace [OF this prod.collapse [symmetric]] show ?thesis by (metis prod.collapse)
qed

theorem Diagnose_secret_free_witness:
  "\<exists>rep w'. Diagnose owned sample_service owned_world = (Inr rep, w') \<and> filter mutates (trace w') = [] \<and>
     map dc_Name (dr_Checks rep) =
       [''platform'', ''docker-daemon'', ''docker-memory'', ''disk'', ''kind-cache'', ''local-state'']"
proof -
  obtain rep w' d es where run: "Diagnose owned sample_service owned_world = (Inr rep, w')"
      "trace w' = trace owned_world @ es" "\<forall>i < length es. \<not> mutates (es ! i)"
      "map check_parts (dr_Checks rep) =
        doctor_checks (sv_goos sample_service @ ''/'' @ sv_goarch sample_service \<in> fst ` set kindChecksums) d"
    using Diagnose_secret_free [of owned sample_service owned_world] by blast
  have "map fst (map check_parts (dr_Checks rep)) =
      [''platform'', ''docker-daemon'', ''docker-memory'', ''disk'', ''kind-cache'', ''local-state'']"
    unfolding run(4) by (simp add: doctor_checks_def)
  moreover have "filter mutates (trace w') = []"
    using run(2,3) by (auto simp: filter_empty_conv in_set_conv_nth owned_world_def)
  ultimately show ?thesis using run(1) by (auto simp: check_parts_def comp_def)
qed

end
