(* ===== verification/Release_Assets.thy ===== *)
theory Release_Assets
  imports Prelude "HOL-Library.Multiset"
begin

text \<open>
  \<open>internal/buildinfo\<close> and \<open>internal/contractasset\<close>: the build metadata and the contracts linked into a
  release binary. The bytes that the build embeds, the JSON decoder and SHA-256 are parameters.
\<close>

section \<open>Build metadata\<close>

record build_info =
  bi_Name :: string
  bi_Version :: string
  bi_Commit :: string
  bi_BuiltAt :: string

text \<open>The package variables that the linker may overwrite.\<close>

record linker_flags =
  lf_version :: string
  lf_commit :: string
  lf_builtAt :: string

definition default_flags :: linker_flags where
  "default_flags = \<lparr>lf_version = ''dev'', lf_commit = ''unknown'', lf_builtAt = ''unknown''\<rparr>"

definition Current :: "linker_flags \<Rightarrow> string \<Rightarrow> build_info" where
  "Current flags name = \<lparr>bi_Name = name, bi_Version = lf_version flags, bi_Commit = lf_commit flags, bi_BuiltAt = lf_builtAt flags\<rparr>"

definition Info_String :: "build_info \<Rightarrow> string" where
  "Info_String i = bi_Name i @ '' '' @ bi_Version i @ '' (commit '' @ bi_Commit i @ '', built '' @ bi_BuiltAt i @ '')''"

section \<open>Contract assets\<close>

definition OpenAPIDestination :: string where
  "OpenAPIDestination = ''api/openapi/push-service.openapi.yaml''"

definition ProtoDestination :: string where
  "ProtoDestination = ''api/proto/push/v1/push.proto''"

record manifest_file =
  mf_Destination :: string
  mf_SHA256 :: string

record source_manifest =
  sm_SourceRepository :: string
  sm_SourceCommit :: string
  sm_Files :: "manifest_file list"

record contract_assets =
  ca_openapi :: string
  ca_proto :: string
  ca_manifest :: string

definition expected_contracts :: "contract_assets \<Rightarrow> (string \<times> string) list" where
  "expected_contracts A = [(OpenAPIDestination, ca_openapi A), (ProtoDestination, ca_proto A)]"

text \<open>The loop over the files of the manifest; its result is the set of destinations seen.\<close>

fun check_files ::
  "(string \<Rightarrow> string) \<Rightarrow> (string \<times> string) list \<Rightarrow> string list \<Rightarrow> manifest_file list \<Rightarrow> gerr + string list" where
  "check_files sha expected seen [] = Inr seen"
| "check_files sha expected seen (file # rest) =
     (case map_of expected (mf_Destination file) of
        None \<Rightarrow> Inl (errorsNew (''embedded contract manifest has unexpected destination '' @ quoted (mf_Destination file)))
      | Some content \<Rightarrow>
          if mf_Destination file \<in> set seen
          then Inl (errorsNew (''embedded contract manifest has unexpected destination '' @ quoted (mf_Destination file)))
          else if sha content \<noteq> mf_SHA256 file
          then Inl (errorsNew (''embedded contract '' @ mf_Destination file @ '' SHA-256 does not match manifest''))
          else check_files sha expected (mf_Destination file # seen) rest)"

text \<open>
  \<open>ValidateLinked\<close>: \<open>decode\<close> is \<open>json.Unmarshal\<close>, \<open>sha\<close> the hexadecimal SHA-256, and \<open>order\<close> the order in
  which the runtime iterates over the map of expected contracts.
\<close>

definition contract_ValidateLinked ::
  "(string \<Rightarrow> gerr + source_manifest) \<Rightarrow> (string \<Rightarrow> string) \<Rightarrow> string list \<Rightarrow> contract_assets \<Rightarrow> gerr option" where
  "contract_ValidateLinked decode sha order A =
     (if ca_openapi A = [] \<and> ca_proto A = [] \<and> ca_manifest A = [] then None
      else if ca_openapi A = [] \<or> ca_proto A = [] \<or> ca_manifest A = []
      then Some (errorsNew ''embedded contract assets are incomplete'')
      else case decode (ca_manifest A) of
        Inl e \<Rightarrow> Some (Errorf [T ''decode embedded contract manifest: '', W e])
      | Inr source \<Rightarrow>
          if sm_SourceRepository source = [] \<or> sm_SourceCommit source = []
          then Some (errorsNew ''embedded contract manifest is missing source identity'')
          else case check_files sha (expected_contracts A) [] (sm_Files source) of
            Inl e \<Rightarrow> Some e
          | Inr seen \<Rightarrow>
              (case find (\<lambda>d. d \<notin> set seen) order of
                 None \<Rightarrow> None
               | Some d \<Rightarrow> Some (errorsNew (''embedded contract manifest is missing '' @ d))))"

lemma check_files_Inr:
  "check_files sha expected seen fs = Inr seen' \<longleftrightarrow>
     seen' = rev (map mf_Destination fs) @ seen \<and> distinct (map mf_Destination fs) \<and>
     set (map mf_Destination fs) \<inter> set seen = {} \<and>
     (\<forall>f \<in> set fs. map_of expected (mf_Destination f) \<noteq> None \<and>
        sha (the (map_of expected (mf_Destination f))) = mf_SHA256 f)"
  by (induction sha expected seen fs rule: check_files.induct) (auto split: option.splits)

lemma destinations_differ: "OpenAPIDestination \<noteq> ProtoDestination"
  by (simp add: OpenAPIDestination_def ProtoDestination_def)

text \<open>What a manifest must list: each contract once, with the hash of the linked bytes.\<close>

definition lists_contracts :: "(string \<Rightarrow> string) \<Rightarrow> contract_assets \<Rightarrow> manifest_file list \<Rightarrow> bool" where
  "lists_contracts sha A fs \<longleftrightarrow>
     mset fs = {#\<lparr>mf_Destination = OpenAPIDestination, mf_SHA256 = sha (ca_openapi A)\<rparr>,
                 \<lparr>mf_Destination = ProtoDestination, mf_SHA256 = sha (ca_proto A)\<rparr>#}"

lemma two_files:
  assumes "distinct (map mf_Destination fs)" "set (map mf_Destination fs) = {a, b}" "a \<noteq> b"
  obtains f g where "mset fs = {#f, g#}" "mf_Destination f = a" "mf_Destination g = b"
proof -
  have "length fs = 2" using assms distinct_card [OF assms(1)] by simp
  then obtain f g where fs: "fs = [f, g]" by (auto simp: length_Suc_conv numeral_2_eq_2)
  with assms consider "mf_Destination f = a" "mf_Destination g = b" | "mf_Destination f = b" "mf_Destination g = a"
    by fastforce
  then show ?thesis using that [of f g] that [of g f] fs by cases (auto simp: add_mset_commute)
qed

lemma checked_contracts:
  assumes "set order = {OpenAPIDestination, ProtoDestination}"
  shows "(\<exists>seen. check_files sha (expected_contracts A) [] fs = Inr seen \<and> find (\<lambda>d. d \<notin> set seen) order = None) \<longleftrightarrow>
     lists_contracts sha A fs"
proof
  assume "\<exists>seen. check_files sha (expected_contracts A) [] fs = Inr seen \<and> find (\<lambda>d. d \<notin> set seen) order = None"
  then have ok: "distinct (map mf_Destination fs)" "\<forall>f \<in> set fs. map_of (expected_contracts A) (mf_Destination f) \<noteq> None \<and>
        sha (the (map_of (expected_contracts A) (mf_Destination f))) = mf_SHA256 f"
    and all: "set order \<subseteq> set (map mf_Destination fs)"
    by (auto simp: check_files_Inr find_None_iff)
  have "set (map mf_Destination fs) \<subseteq> {OpenAPIDestination, ProtoDestination}"
    using ok(2) by (auto simp: expected_contracts_def split: if_splits)
  with all assms have "set (map mf_Destination fs) = {OpenAPIDestination, ProtoDestination}" by blast
  from two_files [OF ok(1) this destinations_differ] obtain f g where fg: "mset fs = {#f, g#}"
      "mf_Destination f = OpenAPIDestination" "mf_Destination g = ProtoDestination" by metis
  have mem: "f \<in> set fs" "g \<in> set fs" using fg(1) by (metis insert_iff set_mset_add_mset_insert set_mset_mset)+
  have "mf_SHA256 f = sha (ca_openapi A)" "mf_SHA256 g = sha (ca_proto A)"
    using ok(2) mem fg(2,3) destinations_differ by (auto simp: expected_contracts_def)
  then have "f = \<lparr>mf_Destination = OpenAPIDestination, mf_SHA256 = sha (ca_openapi A)\<rparr>"
    "g = \<lparr>mf_Destination = ProtoDestination, mf_SHA256 = sha (ca_proto A)\<rparr>"
    using fg(2,3) by simp_all
  with fg(1) show "lists_contracts sha A fs" by (simp add: lists_contracts_def)
next
  assume l: "lists_contracts sha A fs"
  let ?f = "\<lparr>mf_Destination = OpenAPIDestination, mf_SHA256 = sha (ca_openapi A)\<rparr>"
  let ?g = "\<lparr>mf_Destination = ProtoDestination, mf_SHA256 = sha (ca_proto A)\<rparr>"
  have "mset (map mf_Destination fs) = mset [OpenAPIDestination, ProtoDestination]"
    using l by (simp add: lists_contracts_def)
  from mset_eq_imp_distinct_iff [OF this] have "distinct (map mf_Destination fs)" using destinations_differ by simp
  moreover have "set fs = {?f, ?g}"
    using l unfolding lists_contracts_def by (metis set_mset_add_mset_insert set_mset_empty set_mset_mset)
  ultimately show "\<exists>seen. check_files sha (expected_contracts A) [] fs = Inr seen \<and> find (\<lambda>d. d \<notin> set seen) order = None"
    using assms destinations_differ by (auto simp: check_files_Inr find_None_iff expected_contracts_def)
qed

text \<open>
  C40: \<open>ValidateLinked\<close> of the contracts accepts exactly two kinds of binaries: a development build
  with no contract linked, and a release whose manifest decodes, names its source repository and
  commit, and lists the two contracts once each, in any order, with the SHA-256 of the linked bytes.
  The iteration order of the Go map does not matter.
\<close>
theorem contract_ValidateLinked_accepts:
  assumes "mset order = {#OpenAPIDestination, ProtoDestination#}"
  shows "contract_ValidateLinked decode sha order A = None \<longleftrightarrow>
     (ca_openapi A = [] \<and> ca_proto A = [] \<and> ca_manifest A = []) \<or>
     (ca_openapi A \<noteq> [] \<and> ca_proto A \<noteq> [] \<and> ca_manifest A \<noteq> [] \<and>
      (\<exists>m. decode (ca_manifest A) = Inr m \<and> sm_SourceRepository m \<noteq> [] \<and> sm_SourceCommit m \<noteq> [] \<and>
           lists_contracts sha A (sm_Files m)))"
proof -
  have "set order = {OpenAPIDestination, ProtoDestination}"
    using assms by (metis set_mset_add_mset_insert set_mset_empty set_mset_mset)
  note files = checked_contracts [OF this, of sha A]
  show ?thesis
    by (auto simp: contract_ValidateLinked_def files [symmetric] split: sum.splits option.splits)
qed

definition sample_contracts :: contract_assets where
  "sample_contracts = \<lparr>ca_openapi = ''openapi'', ca_proto = ''proto'', ca_manifest = ''{}''\<rparr>"

definition sample_manifest :: source_manifest where
  "sample_manifest = \<lparr>sm_SourceRepository = ''repo'', sm_SourceCommit = ''abc'',
     sm_Files = [\<lparr>mf_Destination = ProtoDestination, mf_SHA256 = ''h:proto''\<rparr>,
                 \<lparr>mf_Destination = OpenAPIDestination, mf_SHA256 = ''h:openapi''\<rparr>]\<rparr>"

theorem contract_ValidateLinked_accepts_witness:
  "contract_ValidateLinked (\<lambda>_. Inr sample_manifest) (\<lambda>c. ''h:'' @ c) [ProtoDestination, OpenAPIDestination] sample_contracts = None"
  using contract_ValidateLinked_accepts [of "[ProtoDestination, OpenAPIDestination]" "\<lambda>_. Inr sample_manifest" "\<lambda>c. ''h:'' @ c" sample_contracts]
  by (simp add: sample_contracts_def sample_manifest_def lists_contracts_def add_mset_commute)

end
