(* ===== verification/Cli_Safety.thy ===== *)
theory Cli_Safety
  imports Cli_Commands Lab_Readiness
begin

text \<open>
  Theorems on the command line tool: the exit code survives every wrapping of an error, nothing is
  changed by a command that only looks, and nothing is deleted without a confirmation.
\<close>

section \<open>Exit codes\<close>

lemma first_some_parts [simp]:
  "first_some [x] = x" "first_some (x # None # xs) = first_some (x # xs)" "first_some [None, x] = x"
  by (cases x; simp)+

lemma ExitCode_same:
  assumes "explicit_code e' = explicit_code e" "\<And>p. (\<And>ps. \<not> p (Errorf ps)) \<Longrightarrow> (\<And>t es. \<not> p (Foreign t es)) \<Longrightarrow> errors_any p e' = errors_any p e"
  shows "ExitCode (Some e') = ExitCode (Some e)"
proof -
  have "errors_any is_ConfigError e' = errors_any is_ConfigError e"
    "\<And>t. t \<in> {ErrCanceled, ContextCanceled, ContextDeadlineExceeded, ErrPrerequisite, ErrConflict} \<Longrightarrow>
      errors_Is e' t = errors_Is e t"
    using assms(2) by (auto simp: errors_Is_def)
  with assms(1) show ?thesis by (simp add: ExitCode_def)
qed


section \<open>Confirmation\<close>

lemma isExactYes_iff: "isExactYes a \<longleftrightarrow> a \<in> {''yes'', ''yes'' @ [CHR 0x0D], ''yes'' @ [nl], ''yes'' @ [CHR 0x0D, nl]}"
proof -
  have cut: "TrimSuffix s [c] = (if s \<noteq> [] \<and> last s = c then butlast s else s)" for s c
    by (cases s rule: rev_cases) (simp_all add: TrimSuffix_def HasSuffix_def)
  have "isExactYes a \<longleftrightarrow> (\<exists>b. TrimSuffix a [nl] = b \<and> (b = ''yes'' \<or> b = ''yes'' @ [CHR 0x0D]))"
    unfolding isExactYes_def cut [of "TrimSuffix a [nl]"]
    by (cases "TrimSuffix a [nl]" rule: rev_cases) (auto split: if_splits)
  also have "\<dots> \<longleftrightarrow> a \<in> {''yes'', ''yes'' @ [CHR 0x0D], ''yes'' @ [nl], ''yes'' @ [CHR 0x0D, nl]}"
    unfolding cut by (cases a rule: rev_cases) auto
  finally show ?thesis .
qed

text \<open>The person at the terminal answered yes.\<close>

definition confirmed :: "cli \<Rightarrow> bool" where
  "confirmed D \<longleftrightarrow> ci_terminal D \<and>
     first_line (fst (ci_stdin D)) \<in> {''yes'', ''yes'' @ [CHR 0x0D], ''yes'' @ [nl], ''yes'' @ [CHR 0x0D, nl]}"

lemma wp_Fprint: "(\<And>r. Q r (log (EOut s) w)) \<Longrightarrow> G (trace w) (EOut s) \<Longrightarrow> wp G (Fprint D s) Q w"
  by (simp add: wp_def Fprint_def writeOut_def)

lemma wp_confirm:
  assumes "\<And>tr s. G tr (EOut s)"
  shows "wp G (confirm D c yes) (\<lambda>r u. files u = files w \<and> (r = Inr () \<longrightarrow> yes \<or> confirmed D)) w"
proof -
  have "isExactYes (first_line (fst (ci_stdin D))) \<Longrightarrow> ci_terminal D \<Longrightarrow> confirmed D"
    by (simp add: confirmed_def isExactYes_iff)
  then show ?thesis
    unfolding confirm_def readAnswer_def
    by (intro wp_if wp_ret wp_fail wp_bind wp_Fprint) (auto simp: assms intro!: wp_if wp_fail wp_ret split: sum.split list.split)
qed

section \<open>Looking changes nothing\<close>

context discipline
begin

lemma calm_Fprint: "calm G I (Fprint D s)" "calm G I (Fprintln D s)"
  by (auto simp: calm_def Fprintln_def intro!: wp_Fprint step_G step_I)

lemma calm_confirm: "calm G I (confirm D c yes)"
  unfolding confirm_def by (intro calm_prims calm_Fprint | simp split: list.split option.split add: calm_rules)+

lemma calm_print:
  "calm G I (printClusterStatus D st)" "calm G I (printEnvironmentStatus D rs)"
  "calm G I (announce_stop D ns)" "calm G I (print_checks D rep)"
  unfolding printClusterStatus_def printEnvironmentStatus_def announce_stop_def print_checks_def
  by (intro calm_prims calm_Fprint)+

lemma calm_reset_namespace: "calm G I (reset_namespace H cwd r)"
  unfolding reset_namespace_def Let_def by (intro calm_prims)

lemma calm_write_bundle: "calm G I (write_bundle E p data)"
  unfolding write_bundle_def by (intro calm_prims)

lemma calm_finish: "calm G I (finish E info s err)"
proof -
  have "calm G I (forE (victims w) (\<lambda>(p, _). ignoreE (removeE E p)))" for victims :: "world \<Rightarrow> (path \<times> int) list" and w
    by (intro calm_prims)
  then have "calm G I (\<lambda>w. forE (victims w) (\<lambda>(p, _). ignoreE (removeE E p)) w)" for victims :: "world \<Rightarrow> (path \<times> int) list"
    by (auto simp: calm_def wp_def)
  then have "calm G I (pruneFailureLogs E info d k)" for d k
    unfolding pruneFailureLogs_def by (intro calm_try calm_files calm_case_sum calm_structure)
  moreover have "calm G I (write_log E p c)" for p c
    unfolding write_log_def discard_log_def by (intro calm_prims)
  ultimately show ?thesis
    unfolding finish_def saveFailureLogLocked_def Let_def by (intro calm_prims)
qed

lemma calm_close_session: "calm G I (close_session H D title n r)"
  unfolding close_session_def Let_def by (rule calm_history) (intro calm_bind calm_finish calm_prims)

lemma calm_with_session: "calm G I op \<Longrightarrow> calm G I (with_session H D title op)"
  unfolding with_session_def by (rule calm_history) (intro calm_try calm_close_session)

end

text \<open>A command that only looks obeys every condition on changes; a permitted change is free.\<close>

abbreviation looks :: "'a io \<Rightarrow> bool" where
  "looks m \<equiv> calm (\<lambda>_ e. \<not> mutates e) (\<lambda>_. True) m"

abbreviation free :: "'a io \<Rightarrow> bool" where
  "free m \<equiv> calm (\<lambda>_ _. True) (\<lambda>_. True) m"

abbreviation permits :: "bool \<Rightarrow> 'a io \<Rightarrow> bool" where
  "permits P m \<equiv> careful_calm (\<lambda>_ _. P) m"

lemma looks_permits: "looks m \<Longrightarrow> careful_calm J m"
  by (simp add: calm_def quiet_mono)

lemma free_permits: "free m \<Longrightarrow> P \<Longrightarrow> permits P m"
  by (simp add: calm_def)

lemma looks_free: "looks m \<Longrightarrow> free m"
  by (fastforce simp: calm_def wp_def guar_nth)

text \<open>
  What the commands rely on: the operations that look change nothing, and every operation only adds to the
  history.
\<close>

locale lifecycles =
  fixes C :: cluster_lifecycle and N :: environment_lifecycle
  assumes looking: "looks (cl_Inspect C a)" "looks (cl_EnvironmentResourceWarnings C a lab n)" "looks (el_ConfiguredLab N cwd)"
      "looks (el_Status N a cwd)" "looks (el_List N a)" "looks (el_Logs N cwd component follow tail wr)"
    and doctor: "cl_Doctor C = Some diagnose \<Longrightarrow> looks diagnose"
    and changing: "free (cl_Start C a)" "free (cl_Stop C a ns)" "free (el_Start N a cwd v)" "free (el_Stop N a cwd v)"
      "free (el_Reset N a cwd)"
begin

definition runs_on :: "cli \<Rightarrow> bool" where
  "runs_on D \<longleftrightarrow> ci_cluster D = C \<and> ci_environment D = Some N \<and> ci_doctor D = cl_Doctor C"

lemma in_environment:
  assumes "runs_on D" "\<And>cwd. calm G I (f (N, cwd))"
  shows "calm G I (bindE (liftE (environmentWorkingDirectory D)) f)"
proof (cases "environmentWorkingDirectory D")
  case (Inr p)
  then obtain cwd where "p = (N, cwd)"
    using assms(1) by (auto simp: environmentWorkingDirectory_def runs_on_def split: sum.splits)
  with Inr assms(2) show ?thesis by (simp add: calm_def wp_def bindE_def tryE_def liftE_def)
qed (auto simp: calm_def wp_def bindE_def tryE_def liftE_def failE_def)

lemma looking_commands:
  assumes "runs_on D"
  shows "looks (version_command D)" "looks (doctor_command H D bundlePath)" "looks (cluster_status_command D)"
    "looks (environment_status_command D)" "looks (environment_logs_command D component follow tail)"
    "looks (environment_list_command D)" "looks (connect_command D)"
proof -
  show "looks (version_command D)" unfolding version_command_def by (rule reading.calm_Fprint)
  show "looks (cluster_status_command D)"
    unfolding cluster_status_command_def conjunct1 [OF assms [unfolded runs_on_def]] by (intro calm_bind looking reading.calm_print)
  show "looks (environment_status_command D)" "looks (environment_logs_command D component follow tail)" "looks (connect_command D)"
    unfolding environment_status_command_def environment_logs_command_def connect_command_def
    by (rule in_environment [OF assms], simp, intro calm_bind calm_if looking reading.calm_print reading.calm_prims reading.calm_Fprint)+
  show "looks (environment_list_command D)"
    using assms unfolding environment_list_command_def runs_on_def
    by (auto intro!: calm_bind calm_if looking reading.calm_Fprint calm_for)
  show "looks (doctor_command H D bundlePath)"
    using assms doctor unfolding doctor_command_def runs_on_def
    by (cases "cl_Doctor C")
      (auto intro!: calm_structure calm_bind calm_if calm_wrap reading.calm_print reading.calm_write_bundle reading.calm_Fprint)
qed

lemma starting_commands:
  assumes "runs_on D"
  shows "free (cluster_start_command H D)" "free (environment_start_command H D)" "free (environment_stop_command D)"
proof -
  note C = conjunct1 [OF assms [unfolded runs_on_def]]
  note prints = calm_bind free.calm_print free.calm_Fprint free.calm_with_session
  show "free (cluster_start_command H D)"
    unfolding cluster_start_command_def C by (intro prints changing)
  have "free (environment_start_operation H D)"
    unfolding environment_start_operation_def Let_def C
    by (rule in_environment [OF assms], simp, intro calm_bind looking [THEN looks_free] changing free.calm_report calm_for)
  then show "free (environment_start_command H D)"
    unfolding environment_start_command_def by (intro prints)
  show "free (environment_stop_command D)"
    unfolding environment_stop_command_def
    by (rule in_environment [OF assms], simp, intro prints changing)
qed

lemma reset_permitted:
  assumes "runs_on D"
  shows "permits (yes \<or> confirmed D) (environment_reset_command H D yes)"
proof -
  let ?P = "\<lambda>tr :: history. \<lambda>e. mutates e \<longrightarrow> yes \<or> confirmed D"
  have "wp ?P (confirm D c yes) (\<lambda>r u. case r of Inl e \<Rightarrow> True | Inr _ \<Rightarrow> wp ?P (bindE (el_Reset N False cwd)
      (\<lambda>_. Fprint D t)) (\<lambda>_ _. True) u) w" for c cwd t w
    by (rule wp_mono [OF wp_confirm])
      (auto split: sum.split intro!: calmD [OF calm_bind [OF changing(5) free.calm_Fprint(1)]])
  then have "permits (yes \<or> confirmed D) (bindE (confirm D c yes) (\<lambda>_. bindE (el_Reset N False cwd) (\<lambda>_. Fprint D t)))" for c cwd t
    unfolding calm_def by (auto intro!: wp_bind)
  note ask = this
  have "permits (yes \<or> confirmed D) (reset_confirmed H D N cwd r yes)" for cwd r
    unfolding reset_confirmed_def
    by (rule calm_bind [OF careful.calm_reset_namespace], rule calm_bind [OF careful.calm_Fprint(1)], rule ask)
  then show ?thesis
    unfolding environment_reset_command_def
    by (intro in_environment [OF assms]) (simp, intro calm_try looks_permits [OF looking(4)] calm_case_sum calm_if calm_structure)
qed

text \<open>Stopping the cluster: without a confirmation only what \<open>Stop\<close> allows itself for no environments.\<close>

lemma stop_permitted:
  assumes "runs_on D"
    and inspected: "wp (\<lambda>_ e. \<not> mutates e) (cl_Inspect C False) (\<lambda>_ u. R u) w"
    and stop: "\<And>u. R u \<Longrightarrow> careful_wp (\<lambda>_ _. A) (cl_Stop C False []) (\<lambda>_ _. True) u"
  shows "careful_wp (\<lambda>_ _. yes \<or> confirmed D \<or> A) (cluster_stop_command D yes) (\<lambda>_ _. True) w"
proof -
  let ?P = "\<lambda>tr :: history. \<lambda>e. mutates e \<longrightarrow> yes \<or> confirmed D \<or> A"
  have confirmed: "wp ?P (confirm D c yes) (\<lambda>r u. case r of Inl e \<Rightarrow> True | Inr _ \<Rightarrow> wp ?P (bindE (cl_Stop C False ns)
      (\<lambda>_. Fprintln D t)) (\<lambda>_ _. True) u) w" for c ns t w
    by (rule wp_mono [OF wp_confirm])
      (auto split: sum.split intro!: calmD [OF calm_bind [OF changing(2) free.calm_Fprint(2)]])
  have absent: "wp ?P (bindE (cl_Stop C False []) (\<lambda>_. Fprintln D t)) (\<lambda>_ _. True) u" if "R u" for t u
  proof (rule wp_bind)
    have "wp ?P (cl_Stop C False []) (\<lambda>_ _. True) u"
      using stop [OF that] by (auto simp: wp_def guar_nth)
    then show "wp ?P (cl_Stop C False []) (\<lambda>r u. case r of Inl e \<Rightarrow> True | Inr x \<Rightarrow> wp ?P (Fprintln D t) (\<lambda>_ _. True) u) u"
      by (rule wp_mono) (auto split: sum.split intro!: calmD [OF careful.calm_Fprint(2)])
  qed
  have ask: "wp ?P (bindE (announce_stop D ns) (\<lambda>_. bindE (confirm D c yes) (\<lambda>_. bindE (cl_Stop C False ns) (\<lambda>_. Fprintln D t))))
      (\<lambda>_ _. True) u" for ns c t u
    by (rule wp_bind, rule wp_mono [OF calmD [OF careful.calm_print(3)]]) (auto split: sum.split intro!: wp_bind confirmed)
  show ?thesis
    unfolding cluster_stop_command_def conjunct1 [OF assms(1) [unfolded runs_on_def]] Let_def
    by (rule wp_try, rule wp_mono [OF quiet_mono [OF inspected]])
      (auto intro!: absent ask wp_fail split: sum.split)
qed

end

section \<open>The services\<close>

lemma looks_services:
  "looks (EnvironmentResourceWarnings E lab n)" "looks (ConfiguredLab E L cwd)" "looks (lab_Status E L cwd)" "looks (lab_List E L)"
  "looks (Diagnose E S)"
proof -
  show "looks (EnvironmentResourceWarnings E lab n)"
    unfolding EnvironmentResourceWarnings_def Let_def memory_args_def
    by (intro reading.calm_prims) (simp add: query_command_def)
  show "looks (ConfiguredLab E L cwd)"
    unfolding ConfiguredLab_def by (intro reading.calm_prims reading.calm_lab)
  show "looks (lab_Status E L cwd)" "looks (lab_List E L)"
    unfolding lab_Status_def lab_List_def with_client_def
    by (auto intro!: reading.calm_prims reading.calm_lab reading_client reading_Close)
  have "looks (disk_space E)"
    unfolding disk_space_def by (rule calm_history) (intro reading.calm_prims)
  then show "looks (Diagnose E S)"
    unfolding Diagnose_def diagnose_docker_def diagnose_memory_def diagnose_disk_def diagnose_kind_def diagnose_state_def Let_def
    by (intro reading.calm_prims reading.calm_cluster) (simp_all add: query_command_def memory_args_def)
qed

lemma looks_logs: "looks (lab_Logs E L r wr cwd component follow tail)"
proof -
  have out: "looks (writeOut wr s)" for wr s
    by (auto simp: calm_def wp_def writeOut_def)
  have "looks (copy_log wr component readErr ls)" for wr component readErr ls
    by (induction ls) (auto intro!: calm_structure calm_bind calm_wrap out split: option.split)
  then have "looks (read_log reader wr component ns pod container follow tail)" for reader wr component ns pod container follow tail
    by (force simp: calm_def wp_def read_log_def split: sum.split prod.split)
  moreover have "looks (find_pod E component c l)" for component c l
    unfolding find_pod_def Let_def by (intro reading.calm_prims reading.calm_lab)
  ultimately have "looks (logs_leased E r wr component container follow tail c l)" for wr component container follow tail c l
    unfolding logs_leased_def by (intro calm_bind calm_case_option calm_structure reading_Close)
  then show ?thesis
    unfolding lab_Logs_def logs_checked_def with_client_def
    by (intro calm_case_option calm_if calm_bind calm_defer calm_structure reading_client reading_Close reading.calm_lab)
qed

lemma free_services:
  "free (cluster_Start E S)" "free (cluster_Stop E S ns)" "free (lab_Start E L cwd v)" "free (lab_Stop E L cwd v)" "free (lab_Reset E L cwd)"
proof -
  have mono: "free m" if "\<And>w. \<exists>J. careful_wp J m (\<lambda>_ _. True) w" for m :: "'a io"
    using that by (fastforce simp: calm_def wp_def guar_nth)
  show "free (cluster_Stop E S ns)" by (rule mono, rule exI, rule careful_cluster_Stop)
  show "free (lab_Start E L cwd v)" by (rule mono, rule exI, rule careful_lab(1))
  show "free (lab_Stop E L cwd v)" by (rule mono, rule exI, rule careful_lab(2))
  show "free (lab_Reset E L cwd)" by (rule mono, rule exI, rule careful_lab(3))
  have any: "free (runE E n a)" "free (kpatch E g ns m obj)" for n a g ns m obj
    by (rule free.calm_run free.calm_patch, simp)+
  have "free (start_locked E S)"
    unfolding start_locked_def start_new_def create_cluster_def finish_cluster_def startRegistry_def
      removeOwnedOrphanRegistry_def checkPorts_def runFailedStartCleanup_def kindKubernetesAccess_def Let_def
    by (intro free.calm_prims free.calm_cluster any)
  then show "free (cluster_Start E S)"
    unfolding cluster_Start_def locked_def by (intro free.calm_prims reading_lock [THEN looks_free])
qed

interpretation wired: lifecycles "wired_cluster E S" "wired_environment E L reader" for E S L reader
  by unfold_locales (auto simp: wired_cluster_def wired_environment_def reading_Inspect looks_services looks_logs free_services)

section \<open>Nothing is deleted without a confirmation\<close>

definition asked_for :: "cli \<Rightarrow> invocation \<Rightarrow> bool" where
  "asked_for D c = (case c of
     ClusterStart \<Rightarrow> True | EnvironmentStart \<Rightarrow> True | EnvironmentStop \<Rightarrow> True
   | ClusterStop yes \<Rightarrow> yes \<or> confirmed D
   | EnvironmentReset yes \<Rightarrow> yes \<or> confirmed D
   | _ \<Rightarrow> False)"

text \<open>The stored state of a cluster that knows no environment.\<close>

definition empty_cluster :: "cluster_service \<Rightarrow> files \<Rightarrow> bool" where
  "empty_cluster S f \<longleftrightarrow> (\<exists>v. stored S f v \<and> st_Namespaces v = [])"

lemma stored_Inspect:
  "wp (\<lambda>_ e. \<not> mutates e) (Inspect E S) (\<lambda>_ u. stored S (files u) = stored S (files w)) w"
proof (rule calm_result [OF _ reading_Inspect])
  have prims: "calm (\<lambda>_ _. True) (\<lambda>w. files w = f) (runE E n a)" "calm (\<lambda>_ _. True) (\<lambda>w. files w = f) (readFile E p)" for f n a p
    by (auto simp: calm_def intro!: wp_run wp_readFile)
  have "calm (\<lambda>_ _. True) (\<lambda>w. files w = f) (inspect_locked E S)" for f
    unfolding inspect_locked_def verifyStateAndContainers_def verifyMarker_def verifyRegistryOwnership_def
      loadState_def checkDocker_def Let_def
    by (intro calm_rules prims)
  from calmD [OF this refl] have body: "free_wp (inspect_locked E S) (\<lambda>_ v. files v = files u) u" for u .
  have rest: "free_wp (deferE closeLock (inspect_locked E S)) (\<lambda>_ v. stored S (files v) = stored S (files w)) u"
    if "beside (lockPath S) (files w) (files u)" for u
    by (rule wp_defer, rule wp_mono [OF body])
       (use stored_cong [OF statePath_beside [OF that]] in \<open>simp add: closeLock_def wp_def\<close>)
  show "free_wp (Inspect E S) (\<lambda>_ u. stored S (files u) = stored S (files w)) w"
    unfolding Inspect_def locked_def
    by (rule wp_bind, rule wp_wrap, rule wp_mono [OF beside_acquireLock])
       (auto split: sum.split intro: rest stored_cong statePath_beside)
qed

lemma wired_parts:
  assumes "NewRootCommand H d = Inr D" "dp_Cluster d = None" "dp_Environment d = None"
  obtains S where "cluster_NewDefault H = Inr S"
    "ci_cluster D = wired_cluster (ho_outside H) S"
    "wired.runs_on (ho_outside H) S (ho_lab H S) (ho_logs H) D"
  using assms
  by (auto simp: NewRootCommand_def wire_services_def wired.runs_on_def or_default_def Let_def split: option.splits sum.splits)

lemma permitted_command:
  assumes root: "NewRootCommand H d = Inr D" "dp_Cluster d = None" "dp_Environment d = None"
  shows "\<exists>S. cluster_NewDefault H = Inr S \<and>
     careful_wp (\<lambda>_ _. asked_for D c \<or> c = ClusterStop False \<and> empty_cluster S (files w)) (run_command H D c arguments) (\<lambda>_ _. True) w"
proof -
  from wired_parts [OF root] obtain S where S: "cluster_NewDefault H = Inr S" "ci_cluster D = wired_cluster (ho_outside H) S"
    "wired.runs_on (ho_outside H) S (ho_lab H S) (ho_logs H) D" by blast
  let ?E = "reporting (ho_outside H) False"
  have looked: "wp (\<lambda>_ e. \<not> mutates e) m (\<lambda>_ _. True) w" if "looks m" for m :: "unit io"
    by (rule calmD [OF that]) simp
  have stop: "careful_wp (\<lambda>_ _. empty_cluster S (files w)) (cl_Stop (wired_cluster (ho_outside H) S) False []) (\<lambda>_ _. True) u"
    if "stored S (files u) = stored S (files w)" for u
  proof -
    have "empty_cluster S (files w)" if "stop_allowed S (files u) [] tr e" for tr e
      using that \<open>stored S (files u) = _\<close> by (auto simp: stop_allowed_def empty_cluster_def) (metis sort_key_simps(1) length_0_conv length_sort)
    with careful_cluster_Stop [of S u "[]" ?E] show ?thesis
      by (fastforce simp: wired_cluster_def wp_def guar_nth)
  qed
  have "wp (\<lambda>_ e. \<not> mutates e) (cl_Inspect (wired_cluster (ho_outside H) S) False) (\<lambda>_ u. stored S (files u) = stored S (files w)) w"
    using stored_Inspect by (simp add: wired_cluster_def)
  note stopping = wired.stop_permitted [OF S(3) this stop]
  have "careful_wp (\<lambda>_ _. asked_for D c \<or> c = ClusterStop False \<and> empty_cluster S (files w)) (run_command H D c arguments) (\<lambda>_ _. True) w"
  proof (cases c)
    case (ClusterStop yes)
    then show ?thesis using stopping [of yes] by (cases yes) (simp_all add: asked_for_def)
  next
    case (EnvironmentReset yes)
    then show ?thesis using calmD [OF wired.reset_permitted [OF S(3), of yes]] by (simp add: asked_for_def)
  qed (auto simp: asked_for_def intro!: looked wired.looking_commands [OF S(3)] calmD [OF wired.starting_commands(1) [OF S(3)]]
      calmD [OF wired.starting_commands(2) [OF S(3)]] calmD [OF wired.starting_commands(3) [OF S(3)]])
  with S(1) show ?thesis by blast
qed

text \<open>
  C6: whatever the outside answers, an invocation of \<open>tripgoctl\<close> changes Docker, kind or Kubernetes only
  when it is \<open>cluster start\<close>, \<open>environment start\<close> or \<open>environment stop\<close>, or a \<open>cluster stop\<close> or
  \<open>environment reset\<close> that was given \<open>--yes\<close> or confirmed at a terminal with exactly \<open>yes\<close>. The one
  exception is \<open>cluster stop\<close> on a cluster whose stored state knows no environments: when the
  inspection before the question fails with a prerequisite error, it is deleted without asking.
\<close>
theorem main_changes_confirmed:
  assumes "tripgoctl_main H msg B contracts d p w = (result, w')" "dp_Cluster d = None" "dp_Environment d = None"
  shows "\<exists>es. trace w' = trace w @ es \<and> (\<forall>i < length es. mutates (es ! i) \<longrightarrow>
     (\<exists>D c arguments S. NewRootCommand H d = Inr D \<and> cluster_NewDefault H = Inr S \<and> p = Invoke c arguments \<and>
        (asked_for D c \<or> c = ClusterStop False \<and> empty_cluster S (files w))))"
proof -
  let ?allowed = "\<lambda>e. mutates e \<longrightarrow> (\<exists>D c arguments S. NewRootCommand H d = Inr D \<and> cluster_NewDefault H = Inr S \<and>
      p = Invoke c arguments \<and> (asked_for D c \<or> c = ClusterStop False \<and> empty_cluster S (files w)))"
  have none: ?thesis if "w' = w" using that by (auto intro!: exI [of _ "[]"])
  show ?thesis
  proof (cases "NewRootCommand H d")
    case (Inr D)
    note D = this
    have "wp (\<lambda>_. ?allowed) (ExecuteContext H msg D p) (\<lambda>_ _. True) w"
    proof (cases p)
      case (Invoke c arguments)
      from permitted_command [OF D assms(2,3), of c w arguments] obtain S where "cluster_NewDefault H = Inr S"
        "careful_wp (\<lambda>_ _. asked_for D c \<or> c = ClusterStop False \<and> empty_cluster S (files w)) (run_command H D c arguments) (\<lambda>_ _. True) w"
        by blast
      then have "wp (\<lambda>_. ?allowed) (run_command H D c arguments) (\<lambda>_ _. True) w"
        using Invoke D by (fastforce simp: wp_def guar_nth)
      then show ?thesis
        unfolding ExecuteContext_def Invoke by (simp, intro wp_bind wp_lift) (auto split: sum.split)
    qed (auto simp: ExecuteContext_def wp_def failE_def retE_def split: option.splits)
    from wp_trace [OF this prod.collapse [symmetric]] obtain es
      where es: "trace (snd (ExecuteContext H msg D p w)) = trace w @ es" "\<forall>i < length es. ?allowed (es ! i)" by blast
    have "w' = w \<or> w' = snd (ExecuteContext H msg D p w)"
      using assms(1) D by (auto simp: tripgoctl_main_def split: option.splits sum.splits prod.splits)
    then show ?thesis using none es by blast
  qed (use assms(1) none in \<open>auto simp: tripgoctl_main_def split: option.splits\<close>)
qed

text \<open>A host on which everything is owned, and a person who answers no.\<close>

definition sample_host :: "outside \<Rightarrow> host" where
  "sample_host E = \<lparr>ho_outside = E, ho_userCacheDir = Inr [''cache''], ho_userConfigDir = Inr [''cfg''], ho_tempDir = [''tmp''],
     ho_goos = ''linux'', ho_goarch = ''amd64'', ho_codec = sv_codec sample_service, ho_lab = (\<lambda>_. sample_lab),
     ho_logs = logs_reader, ho_decode = (\<lambda>_. Inr sample_document), ho_fileTime = (\<lambda>_ _. Inr 0), ho_elapsed = (\<lambda>_. 0),
     ho_marshal = (\<lambda>_. Inr []), ho_abs = (\<lambda>_. Inr [])\<rparr>"

definition sample_dependencies :: "bool \<Rightarrow> string \<Rightarrow> dependencies" where
  "sample_dependencies terminal answer = \<lparr>dp_Stdin = Some (answer, io_EOF), dp_Stdout = Some (\<lambda>_. None), dp_Stderr = Some (\<lambda>_. None),
     dp_WorkingDirectory = Some (Inr [''wd'']), dp_IsTerminal = Some terminal, dp_IsStderrTerminal = None,
     dp_ProgressCacheDirectory = None, dp_Build = Current default_flags ''tripgoctl'',
     dp_Cluster = None, dp_Environment = None, dp_Doctor = None\<rparr>"

theorem main_changes_confirmed_witness:
  "filter mutates (trace (snd (tripgoctl_main (sample_host lab_outside) (\<lambda>_. []) sample_artifact None
     (sample_dependencies True (''no'' @ [nl])) (Invoke (EnvironmentReset False) []) lab_world))) = []"
proof -
  let ?d = "sample_dependencies True (''no'' @ [nl])"
  have "\<not> confirmed D" if "NewRootCommand (sample_host lab_outside) ?d = Inr D" for D
  proof -
    have "fst (ci_stdin D) = ''no'' @ [nl]"
      using that by (auto simp: NewRootCommand_def sample_dependencies_def or_default_def split: sum.splits)
    then show ?thesis by (simp add: confirmed_def first_line_def)
  qed
  then have "\<not> asked_for D (EnvironmentReset False)" if "NewRootCommand (sample_host lab_outside) ?d = Inr D" for D
    using that by (simp add: asked_for_def)
  moreover have "dp_Cluster ?d = None" "dp_Environment ?d = None" by (simp_all add: sample_dependencies_def)
  ultimately obtain es where "trace (snd (tripgoctl_main (sample_host lab_outside) (\<lambda>_. []) sample_artifact None ?d
       (Invoke (EnvironmentReset False) []) lab_world)) = trace lab_world @ es" "\<forall>i < length es. \<not> mutates (es ! i)"
    using main_changes_confirmed [of "sample_host lab_outside" "\<lambda>_. []" sample_artifact None ?d "Invoke (EnvironmentReset False) []"
        lab_world, OF prod.collapse [symmetric]] by blast
  moreover have "trace lab_world = []" by (simp add: lab_world_def owned_world_def)
  ultimately show ?thesis by (simp only:) (auto simp: filter_empty_conv in_set_conv_nth)
qed

text \<open>
  The exception is real: Docker fails the first time it is asked, so that the inspection ends with a
  prerequisite error, and the cluster is deleted although nobody confirmed it and the standard
  input is no terminal.
\<close>

definition flaky :: outside where
  "flaky = owned\<lparr>env_run := (\<lambda>tr name args.
     if args = [''version'', ''--format'', ''{{.Server.Version}}''] \<and> \<not> list_ex (\<lambda>e. case e of ERun n a r \<Rightarrow> True | _ \<Rightarrow> False) tr
     then Inl (errorsNew ''timeout'') else env_run owned tr name args)\<rparr>"

lemma stop_without_confirmation:
  "filter mutates (trace (snd (cluster_stop_command
     \<lparr>ci_stdin = ([], io_EOF), ci_stdout = (\<lambda>_. None), ci_stderr = (\<lambda>_. None), ci_cwd = Inr [''wd''], ci_terminal = False,
      ci_stderrTerminal = False, ci_progressCache = Inr [], ci_build = Current default_flags ''tripgoctl'',
      ci_cluster = wired_cluster flaky sample_service, ci_environment = None, ci_doctor = None\<rparr> False owned_world))) =
     [ERun ''/cache/kind/v0.27.0/kind'' delete_cluster_args (Inr []), ERun ''docker'' remove_registry_args (Inr [])]"
  by (simp add: cluster_stop_command_def wired_cluster_def Inspect_def inspect_locked_def
      cluster_Stop_def locked_def acquireLock_def flockE_def closeLock_def stop_locked_def
      io_defs fs_defs flaky_def owned_def quiet_def owned_world_def sample_service_def sample_codec_def
      lockPath_def statePath_def checkPlatform_def checkDocker_def loadState_def decode_checked_def
      ensureKind_def EnsureKind_def validFileSHA256_def kind_path_def kindChecksums_def
      kindClusters_def Fields_cluster_Name containerExists_def verifyMarker_def
      verifyRegistryOwnership_def removeIfExists_def sample_state_def stateSchemaVersion_def
      upt_rec query_command_def marker_args_def delete_cluster_args_def remove_registry_args_def
      path_text_def KindVersion_def Fprintln_def Fprint_def writeOut_def)

end
